(* ===== verification/Go_Base.thy ===== *)
theory Go_Base
  imports Complex_Main "HOL-Library.Multiset" "HOL-Library.Sublist"
begin

text \<open>
  The shared prelude of the development: the few pieces of Go and of its standard
  library that every component uses.

  \<^item> Go strings are byte strings (\<open>string\<close>); \<open>TrimSpace\<close>, \<open>ToLower\<close> and \<open>Contains\<close>
    follow package \<open>strings\<close> on ASCII input, which is what request ids, group names and
    provider codes are.
  \<^item> \<open>sort.SliceStable\<close> is an insertion sort for a strict order \<open>lt\<close>: every stable sort
    by the same order returns the same list.
  \<^item> A Go function that mutates shared state and returns \<open>(value, error)\<close> is a state
    transformer \<open>('s, 'e, 'a) go\<close>: it returns \<open>Inl e\<close> or \<open>Inr x\<close> together with the new
    state.  An error does not undo what was written before it; only a database transaction
    does, and that is written out where the transaction is defined.
  \<^item> \<open>wp\<close> is the weakest precondition of such a transformer.  Its equations (the collection
    \<open>wp_simps\<close>) let the simplifier turn a program into its verification condition.
  \<^item> \<open>framed R m\<close> bounds the effect of a transformer by a relation on states; the locale
    \<open>frame_rel\<close> composes such bounds along a program.
  \<^item> \<open>step_system\<close> is the interface of every state machine of the development: an invariant
    kept by each step holds after any run.
\<close>

named_theorems wp_simps

section \<open>Strings\<close>

definition isSpace :: "char \<Rightarrow> bool" where
  "isSpace c = (c \<in> {CHR 0x20, CHR 0x09, CHR 0x0A, CHR 0x0B, CHR 0x0C, CHR 0x0D})"

definition TrimSpace :: "string \<Rightarrow> string" where
  "TrimSpace s = rev (dropWhile isSpace (rev (dropWhile isSpace s)))"

definition toLowerChar :: "char \<Rightarrow> char" where
  "toLowerChar c =
     (if 65 \<le> (of_char c :: nat) \<and> (of_char c :: nat) \<le> 90
      then char_of ((of_char c :: nat) + 32) else c)"

definition ToLower :: "string \<Rightarrow> string" where
  "ToLower s = map toLowerChar s"

fun HasPrefix :: "string \<Rightarrow> string \<Rightarrow> bool" where
  "HasPrefix s [] = True"
| "HasPrefix [] (p # ps) = False"
| "HasPrefix (c # cs) (p # ps) = (c = p \<and> HasPrefix cs ps)"

fun Contains :: "string \<Rightarrow> string \<Rightarrow> bool" where
  "Contains [] t = (t = [])"
| "Contains (c # cs) t = (HasPrefix (c # cs) t \<or> Contains cs t)"

lemma HasPrefix_iff: "HasPrefix s p \<longleftrightarrow> prefix p s"
  by (induction s p rule: HasPrefix.induct) auto

lemma Contains_iff: "Contains s t \<longleftrightarrow> sublist t s"
  by (induction s) (auto simp: HasPrefix_iff sublist_Cons_right)

lemma TrimSpace_nonempty_self [simp]: "TrimSpace [] = []"
  by (simp add: TrimSpace_def)

lemma dropWhile_isSpace_idem:
  "dropWhile isSpace (dropWhile isSpace s) = dropWhile isSpace s"
  by (induction s) auto

lemma TrimSpace_idem [simp]: "TrimSpace (TrimSpace s) = TrimSpace s"
proof -
  define t where "t = dropWhile isSpace s"
  define u where "u = dropWhile isSpace (rev t)"
  have "dropWhile isSpace (rev u) = rev u"
  proof (cases "rev u")
    case (Cons c cs)
    have "suffix u (rev t)" by (simp add: u_def suffix_dropWhile)
    then have "prefix (rev u) t" by (simp add: suffix_to_prefix)
    with Cons obtain ds where "t = c # ds" by (auto elim!: prefixE)
    then have "\<not> isSpace c" unfolding t_def by (metis dropWhile_eq_Cons_conv)
    with Cons show ?thesis by simp
  qed simp
  moreover have "dropWhile isSpace u = u" by (simp add: u_def dropWhile_isSpace_idem)
  moreover have "TrimSpace s = rev u" by (simp add: TrimSpace_def t_def u_def)
  ultimately show ?thesis by (simp add: TrimSpace_def)
qed

text \<open>Decimal rendering of an integer, as \<open>fmt.Sprintf("%d", n)\<close>.\<close>

fun dec_nat :: "nat \<Rightarrow> string" where
  "dec_nat n = (if n < 10 then [char_of (48 + n)]
                else dec_nat (n div 10) @ [char_of (48 + n mod 10)])"

declare dec_nat.simps [simp del]

definition dec_int :: "int \<Rightarrow> string" where
  "dec_int i = (if i < 0 then CHR ''-'' # dec_nat (nat (- i)) else dec_nat (nat i))"

section \<open>Stable sorting\<close>

text \<open>\<open>sort.SliceStable(xs, lt)\<close>.\<close>

fun insert_stable :: "('a \<Rightarrow> 'a \<Rightarrow> bool) \<Rightarrow> 'a \<Rightarrow> 'a list \<Rightarrow> 'a list" where
  "insert_stable lt x [] = [x]"
| "insert_stable lt x (y # ys) =
     (if lt y x then y # insert_stable lt x ys else x # y # ys)"

fun SliceStable :: "('a \<Rightarrow> 'a \<Rightarrow> bool) \<Rightarrow> 'a list \<Rightarrow> 'a list" where
  "SliceStable lt [] = []"
| "SliceStable lt (x # xs) = insert_stable lt x (SliceStable lt xs)"

lemma mset_insert_stable [simp]: "mset (insert_stable lt x xs) = add_mset x (mset xs)"
  by (induction xs) auto

lemma mset_SliceStable [simp]: "mset (SliceStable lt xs) = mset xs"
  by (induction xs) auto

lemma set_insert_stable [simp]: "set (insert_stable lt x xs) = insert x (set xs)"
  by (induction xs) auto

lemma set_SliceStable [simp]: "set (SliceStable lt xs) = set xs"
  by (induction xs) auto

lemma length_SliceStable [simp]: "length (SliceStable lt xs) = length xs"
  by (metis mset_SliceStable size_mset)

lemma distinct_map_SliceStable [simp]:
  "distinct (map f (SliceStable lt xs)) = distinct (map f xs)"
  by (rule mset_eq_imp_distinct_iff) (simp add: mset_map)

lemma distinct_SliceStable [simp]: "distinct (SliceStable lt xs) = distinct xs"
  by (rule mset_eq_imp_distinct_iff) simp

lemma SliceStable_cong:
  "(\<And>x y. x \<in> set xs \<Longrightarrow> y \<in> set xs \<Longrightarrow> lt x y = lt' x y) \<Longrightarrow> SliceStable lt xs = SliceStable lt' xs"
proof (induction xs)
  case (Cons x xs)
  have "insert_stable lt x ys = insert_stable lt' x ys" if "set ys \<subseteq> set (x # xs)" for ys
    using that by (induction ys) (auto simp: Cons.prems)
  then show ?case using Cons by (simp add: subset_insertI)
qed simp

text \<open>The interface of a comparison function handed to a sort.\<close>

locale strict_order =
  fixes lt :: "'a \<Rightarrow> 'a \<Rightarrow> bool"
  assumes irrefl: "\<not> lt x x"
    and trans: "lt x y \<Longrightarrow> lt y z \<Longrightarrow> lt x z"
    and incomparable_trans:
      "\<not> lt x y \<Longrightarrow> \<not> lt y z \<Longrightarrow> \<not> lt x z"
begin

lemma asym: "lt x y \<Longrightarrow> \<not> lt y x"
  using irrefl trans by blast

lemma sorted_insert_stable:
  "sorted_wrt (\<lambda>x y. \<not> lt y x) xs \<Longrightarrow>
   sorted_wrt (\<lambda>x y. \<not> lt y x) (insert_stable lt x xs)"
proof (induction xs)
  case (Cons y ys)
  show ?case
  proof (cases "lt y x")
    case True
    then have "\<not> lt x y" by (rule asym)
    with True Cons show ?thesis by simp
  next
    case False
    with Cons.prems have "\<forall>z \<in> set ys. \<not> lt z x"
      using incomparable_trans by (metis sorted_wrt.simps(2))
    with False Cons.prems show ?thesis by simp
  qed
qed simp

lemma sorted_SliceStable: "sorted_wrt (\<lambda>x y. \<not> lt y x) (SliceStable lt xs)"
  by (induction xs) (auto intro: sorted_insert_stable)

end

text \<open>A comparison by a key in a linear order, which is what the comparators of the code are.\<close>

locale keyed_order =
  fixes key :: "'a \<Rightarrow> 'k :: linorder"

sublocale keyed_order \<subseteq> strict_order "\<lambda>a b. key a < key b"
  by unfold_locales auto

context keyed_order
begin

lemma sorted_key: "sorted (map key (SliceStable (\<lambda>a b. key a < key b) xs))"
  using sorted_SliceStable [of xs] by (simp add: sorted_wrt_map not_less)

end

section \<open>State transformers\<close>

type_synonym ('s, 'e, 'a) go = "'s \<Rightarrow> ('e + 'a) \<times> 's"

definition retM :: "'a \<Rightarrow> ('s, 'e, 'a) go" where
  "retM x = (\<lambda>s. (Inr x, s))"

definition throwM :: "'e \<Rightarrow> ('s, 'e, 'a) go" where
  "throwM e = (\<lambda>s. (Inl e, s))"

definition bindM :: "('s, 'e, 'a) go \<Rightarrow> ('a \<Rightarrow> ('s, 'e, 'b) go) \<Rightarrow> ('s, 'e, 'b) go" where
  "bindM m f = (\<lambda>s. case m s of (Inl e, s') \<Rightarrow> (Inl e, s') | (Inr x, s') \<Rightarrow> f x s')"

definition seqM :: "('s, 'e, 'a) go \<Rightarrow> ('s, 'e, 'b) go \<Rightarrow> ('s, 'e, 'b) go" where
  "seqM m n = bindM m (\<lambda>_. n)"

text \<open>\<open>x, err := m()\<close>, where the caller inspects \<open>err\<close> itself.\<close>

definition tryM :: "('s, 'e, 'a) go \<Rightarrow> ('s, 'e, 'e + 'a) go" where
  "tryM m = (\<lambda>s. case m s of (r, s') \<Rightarrow> (Inr r, s'))"

definition getsM :: "('s \<Rightarrow> 'a) \<Rightarrow> ('s, 'e, 'a) go" where
  "getsM f = (\<lambda>s. (Inr (f s), s))"

definition modifyM :: "('s \<Rightarrow> 's) \<Rightarrow> ('s, 'e, unit) go" where
  "modifyM f = (\<lambda>s. (Inr (), f s))"

definition ignoreM :: "('s, 'e, 'a) go \<Rightarrow> ('s, 'e, unit) go" where
  "ignoreM m = bindM (tryM m) (\<lambda>_. retM ())"

definition whenM :: "bool \<Rightarrow> ('s, 'e, unit) go \<Rightarrow> ('s, 'e, unit) go" where
  "whenM b m = (if b then m else retM ())"

text \<open>\<open>for _, x := range xs { ... }\<close> over a loop variable \<open>acc\<close>; an error leaves the loop.\<close>

fun foldM :: "('b \<Rightarrow> 'a \<Rightarrow> ('s, 'e, 'b) go) \<Rightarrow> 'b \<Rightarrow> 'a list \<Rightarrow> ('s, 'e, 'b) go" where
  "foldM f acc [] = retM acc"
| "foldM f acc (x # xs) = bindM (f acc x) (\<lambda>acc'. foldM f acc' xs)"

section \<open>Weakest preconditions\<close>

definition wp :: "('s, 'e, 'a) go \<Rightarrow> ('a \<Rightarrow> 's \<Rightarrow> bool) \<Rightarrow> ('e \<Rightarrow> 's \<Rightarrow> bool) \<Rightarrow> 's \<Rightarrow> bool" where
  "wp m Q E s = (case m s of (Inl e, s') \<Rightarrow> E e s' | (Inr x, s') \<Rightarrow> Q x s')"

lemma wp_iff:
  "wp m Q E s \<longleftrightarrow>
     (\<forall>x s'. m s = (Inr x, s') \<longrightarrow> Q x s') \<and> (\<forall>e s'. m s = (Inl e, s') \<longrightarrow> E e s')"
  by (auto simp: wp_def split: prod.split sum.split)

lemma wpI:
  "(\<And>x s'. m s = (Inr x, s') \<Longrightarrow> Q x s') \<Longrightarrow> (\<And>e s'. m s = (Inl e, s') \<Longrightarrow> E e s') \<Longrightarrow> wp m Q E s"
  by (auto simp: wp_iff)

lemma wp_Inr: "wp m Q E s \<Longrightarrow> m s = (Inr x, s') \<Longrightarrow> Q x s'"
  by (simp add: wp_def)

lemma wp_Inl: "wp m Q E s \<Longrightarrow> m s = (Inl e, s') \<Longrightarrow> E e s'"
  by (simp add: wp_def)

lemma wp_result:
  "wp m Q E s \<Longrightarrow> m s = (r, s') \<Longrightarrow> case r of Inl e \<Rightarrow> E e s' | Inr x \<Rightarrow> Q x s'"
  by (simp add: wp_def split: sum.split)

lemma wp_mono:
  "wp m Q E s \<Longrightarrow> (\<And>x s'. Q x s' \<Longrightarrow> Q' x s') \<Longrightarrow> (\<And>e s'. E e s' \<Longrightarrow> E' e s') \<Longrightarrow> wp m Q' E' s"
  by (auto simp: wp_iff)

lemma wp_conj:
  "wp m Q E s \<Longrightarrow> wp m Q' E' s \<Longrightarrow> wp m (\<lambda>x t. Q x t \<and> Q' x t) (\<lambda>e t. E e t \<and> E' e t) s"
  by (simp add: wp_def split: prod.splits sum.splits)

lemma wp_retM [wp_simps]: "wp (retM x) Q E = Q x"
  by (simp add: wp_def retM_def fun_eq_iff)

lemma wp_throwM [wp_simps]: "wp (throwM e) Q E = E e"
  by (simp add: wp_def throwM_def fun_eq_iff)

lemma wp_bindM [wp_simps]: "wp (bindM m f) Q E = wp m (\<lambda>x. wp (f x) Q E) E"
  by (rule ext) (simp add: wp_def bindM_def split: prod.split sum.split)

lemma wp_seqM [wp_simps]: "wp (seqM m n) Q E = wp m (\<lambda>_. wp n Q E) E"
  by (simp add: seqM_def wp_bindM)

lemma wp_tryM [wp_simps]: "wp (tryM m) Q E = wp m (\<lambda>x. Q (Inr x)) (\<lambda>e. Q (Inl e))"
  by (rule ext) (simp add: wp_def tryM_def split: prod.split sum.split)

lemma wp_getsM [wp_simps]: "wp (getsM f) Q E s = Q (f s) s"
  by (simp add: wp_def getsM_def)

lemma wp_modifyM [wp_simps]: "wp (modifyM f) Q E s = Q () (f s)"
  by (simp add: wp_def modifyM_def)

lemma wp_ignoreM [wp_simps]: "wp (ignoreM m) Q E = wp m (\<lambda>_. Q ()) (\<lambda>_. Q ())"
  by (simp add: ignoreM_def wp_bindM wp_tryM wp_retM)

lemma wp_whenM [wp_simps]: "wp (whenM b m) Q E s = (if b then wp m Q E s else Q () s)"
  by (simp add: whenM_def wp_retM)

lemma wp_if [wp_simps]: "wp (if b then m else n) Q E s = (if b then wp m Q E s else wp n Q E s)"
  by simp

lemma wp_let [wp_simps]: "wp (Let x f) Q E s = wp (f x) Q E s"
  by simp

lemma wp_case_option [wp_simps]:
  "wp (case z of None \<Rightarrow> m | Some y \<Rightarrow> n y) Q E s =
     (case z of None \<Rightarrow> wp m Q E s | Some y \<Rightarrow> wp (n y) Q E s)"
  by (simp split: option.split)

lemma wp_case_sum [wp_simps]:
  "wp (case z of Inl e \<Rightarrow> m e | Inr y \<Rightarrow> n y) Q E s =
     (case z of Inl e \<Rightarrow> wp (m e) Q E s | Inr y \<Rightarrow> wp (n y) Q E s)"
  by (simp split: sum.split)

lemma wp_case_prod [wp_simps]:
  "wp (case z of (a, b) \<Rightarrow> m a b) Q E s = (case z of (a, b) \<Rightarrow> wp (m a b) Q E s)"
  by (simp split: prod.split)

lemma wp_case_list [wp_simps]:
  "wp (case z of [] \<Rightarrow> m | y # ys \<Rightarrow> n y ys) Q E s =
     (case z of [] \<Rightarrow> wp m Q E s | y # ys \<Rightarrow> wp (n y ys) Q E s)"
  by (simp split: list.split)

text \<open>A loop keeps whatever its body keeps.\<close>

lemma wp_foldM_inv:
  assumes "\<And>acc x s. x \<in> set xs \<Longrightarrow> I acc s \<Longrightarrow> wp (f acc x) I E s"
    and "I acc s"
  shows "wp (foldM f acc xs) I E s"
  using assms
proof (induction xs arbitrary: acc s)
  case Nil
  then show ?case by (simp add: wp_retM)
next
  case (Cons x xs)
  have "wp (f acc x) I E s" using Cons.prems by simp
  then have "wp (f acc x) (\<lambda>acc'. wp (foldM f acc' xs) I E) E s"
  proof (rule wp_mono)
    fix acc' s'
    assume "I acc' s'"
    then show "wp (foldM f acc' xs) I E s'"
      by (rule Cons.IH [rotated]) (simp add: Cons.prems(1))
  qed
  then show ?case by (simp add: wp_bindM)
qed

section \<open>Effects\<close>

text \<open>
  \<open>framed R m\<close> says that \<open>m\<close> relates every state to the state it leaves, on success and on
  error.  A reflexive and transitive \<open>R\<close> composes along a program, so what a long function
  leaves alone, or only lets grow, follows from its leaves.
\<close>

definition framed :: "('s \<Rightarrow> 's \<Rightarrow> bool) \<Rightarrow> ('s, 'e, 'a) go \<Rightarrow> bool" where
  "framed R m \<longleftrightarrow> (\<forall>s. R s (snd (m s)))"

lemma framed_wp: "framed R m \<longleftrightarrow> (\<forall>s. wp m (\<lambda>_. R s) (\<lambda>_. R s) s)"
  unfolding framed_def wp_iff
  by (metis prod.exhaust_sel snd_conv sum.exhaust_sel)

lemma framed_snd: "framed R m \<Longrightarrow> m s = (r, s') \<Longrightarrow> R s s'"
  unfolding framed_def by (metis snd_conv)

lemma framed_if: "(b \<Longrightarrow> framed R m) \<Longrightarrow> (\<not> b \<Longrightarrow> framed R n) \<Longrightarrow> framed R (if b then m else n)"
  by simp

lemma framed_let: "framed R (f x) \<Longrightarrow> framed R (Let x f)"
  by simp

lemma framed_case_option:
  "(z = None \<Longrightarrow> framed R m) \<Longrightarrow> (\<And>y. z = Some y \<Longrightarrow> framed R (n y)) \<Longrightarrow>
   framed R (case z of None \<Rightarrow> m | Some y \<Rightarrow> n y)"
  by (cases z) simp_all

lemma framed_case_sum:
  "(\<And>e. z = Inl e \<Longrightarrow> framed R (m e)) \<Longrightarrow> (\<And>y. z = Inr y \<Longrightarrow> framed R (n y)) \<Longrightarrow>
   framed R (case z of Inl e \<Rightarrow> m e | Inr y \<Rightarrow> n y)"
  by (cases z) simp_all

lemma framed_case_prod:
  "(\<And>a b. z = (a, b) \<Longrightarrow> framed R (m a b)) \<Longrightarrow> framed R (case z of (a, b) \<Rightarrow> m a b)"
  by (cases z) simp

lemma framed_case_list:
  "(z = [] \<Longrightarrow> framed R m) \<Longrightarrow> (\<And>y ys. z = y # ys \<Longrightarrow> framed R (n y ys)) \<Longrightarrow>
   framed R (case z of [] \<Rightarrow> m | y # ys \<Rightarrow> n y ys)"
  by (cases z) simp_all

lemmas framed_cases =
  framed_if framed_let framed_case_option framed_case_sum framed_case_prod framed_case_list

locale frame_rel =
  fixes R :: "'s \<Rightarrow> 's \<Rightarrow> bool"
  assumes frame_refl: "R s s"
    and frame_trans: "R s t \<Longrightarrow> R t u \<Longrightarrow> R s u"
begin

lemma framed_retM: "framed R (retM x)"
  by (simp add: framed_def retM_def frame_refl)

lemma framed_throwM: "framed R (throwM e)"
  by (simp add: framed_def throwM_def frame_refl)

lemma framed_getsM: "framed R (getsM f)"
  by (simp add: framed_def getsM_def frame_refl)

lemma framed_bindM: "framed R m \<Longrightarrow> (\<And>x. framed R (f x)) \<Longrightarrow> framed R (bindM m f)"
  unfolding framed_def bindM_def
  by (auto split: prod.splits sum.splits) (metis frame_trans snd_conv)+

lemma framed_seqM: "framed R m \<Longrightarrow> framed R n \<Longrightarrow> framed R (seqM m n)"
  unfolding seqM_def by (rule framed_bindM)

lemma framed_tryM: "framed R m \<Longrightarrow> framed R (tryM m)"
  by (auto simp: framed_def tryM_def split: prod.splits) (metis snd_conv)

lemma framed_ignoreM: "framed R m \<Longrightarrow> framed R (ignoreM m)"
  unfolding ignoreM_def by (intro framed_bindM framed_tryM framed_retM)

lemma framed_whenM: "framed R m \<Longrightarrow> framed R (whenM b m)"
  by (simp add: whenM_def framed_retM)

lemma framed_foldM: "(\<And>acc x. framed R (f acc x)) \<Longrightarrow> framed R (foldM f acc xs)"
  by (induction xs arbitrary: acc) (simp_all add: framed_retM framed_bindM)

lemmas framed_intros =
  framed_retM framed_throwM framed_getsM framed_bindM framed_seqM framed_tryM framed_ignoreM
  framed_whenM framed_foldM framed_cases

end

section \<open>State machines\<close>

locale step_system =
  fixes step :: "'s \<Rightarrow> 's \<Rightarrow> bool"
    and inv :: "'s \<Rightarrow> bool"
  assumes inv_step: "inv s \<Longrightarrow> step s t \<Longrightarrow> inv t"
begin

lemma inv_run: "step\<^sup>*\<^sup>* s t \<Longrightarrow> inv s \<Longrightarrow> inv t"
  by (induction rule: rtranclp_induct) (auto intro: inv_step)

end

end
