(* ===== verification/Go_Float64.thy ===== *)
theory Go_Float64
  imports Go_Base "HOL-Library.Log_Nat"
begin

text \<open>
  Go's \<open>float64\<close>: IEEE 754 binary64 values as NaN, the infinities and the finite values,
  the latter as exact rationals.  \<open>fround\<close> rounds a rational to the nearest representable
  value (ties to even), so an arithmetic operation is the exact operation followed by
  \<open>fround\<close>.  The sign of zero is not represented: no modelled code divides by zero or
  inspects the sign of a zero.  The theory shows that integers up to \<open>2 ^ 53\<close> in magnitude
  are represented exactly and that rounding a larger one does not bring it below \<open>2 ^ 53\<close>.
\<close>

section \<open>Values and rounding\<close>

datatype f64 = FNaN | FPInf | FNInf | FFin rat

text \<open>\<open>2 ^ k\<close> for an integer exponent.\<close>

definition two_pow :: "int \<Rightarrow> rat" where
  "two_pow k = (if 0 \<le> k then 2 ^ nat k else 1 / 2 ^ nat (- k))"

text \<open>\<open>\<lfloor>log2 q\<rfloor>\<close> for a positive rational, from the bit lengths of its numerator and denominator.\<close>

definition rat_ilog2 :: "rat \<Rightarrow> int" where
  "rat_ilog2 q =
     (case quotient_of q of (n, d) \<Rightarrow>
        let k = bitlen n - bitlen d in if two_pow k \<le> q then k else k - 1)"

text \<open>Nearest integer, ties to even.\<close>

definition rne :: "rat \<Rightarrow> int" where
  "rne q = (let k = \<lfloor>q\<rfloor>; r = q - of_int k in
     if r < 1 / 2 then k else if 1 / 2 < r then k + 1 else if even k then k else k + 1)"

definition fround :: "rat \<Rightarrow> f64" where
  "fround q =
     (if q = 0 then FFin 0
      else let e = max (- 1074) (rat_ilog2 \<bar>q\<bar> - 52);
               r = of_int (rne (q / two_pow e)) * two_pow e in
           if two_pow 1024 \<le> r then FPInf
           else if r \<le> - two_pow 1024 then FNInf
           else FFin r)"

section \<open>Operations\<close>

definition f64_of_int :: "int \<Rightarrow> f64" where
  "f64_of_int i = fround (of_int i)"

fun fneg :: "f64 \<Rightarrow> f64" where
  "fneg FNaN = FNaN"
| "fneg FPInf = FNInf"
| "fneg FNInf = FPInf"
| "fneg (FFin a) = FFin (- a)"

fun fadd :: "f64 \<Rightarrow> f64 \<Rightarrow> f64" where
  "fadd FNaN y = FNaN"
| "fadd x FNaN = FNaN"
| "fadd FPInf FNInf = FNaN"
| "fadd FNInf FPInf = FNaN"
| "fadd FPInf y = FPInf"
| "fadd FNInf y = FNInf"
| "fadd x FPInf = FPInf"
| "fadd x FNInf = FNInf"
| "fadd (FFin a) (FFin b) = fround (a + b)"

definition fsub :: "f64 \<Rightarrow> f64 \<Rightarrow> f64" where
  "fsub x y = fadd x (fneg y)"

fun fsign :: "f64 \<Rightarrow> int" where
  "fsign FNaN = 0"
| "fsign FPInf = 1"
| "fsign FNInf = - 1"
| "fsign (FFin a) = (if 0 < a then 1 else if a < 0 then - 1 else 0)"

definition finf :: "int \<Rightarrow> f64" where
  "finf s = (if 0 < s then FPInf else if s < 0 then FNInf else FNaN)"

fun fmul :: "f64 \<Rightarrow> f64 \<Rightarrow> f64" where
  "fmul (FFin a) (FFin b) = fround (a * b)"
| "fmul x y = (if x = FNaN \<or> y = FNaN then FNaN else finf (fsign x * fsign y))"

text \<open>Division by a zero of unknown sign is not a number here; no modelled code does it.\<close>

fun fdiv :: "f64 \<Rightarrow> f64 \<Rightarrow> f64" where
  "fdiv (FFin a) (FFin b) = (if b = 0 then FNaN else fround (a / b))"
| "fdiv FNaN y = FNaN"
| "fdiv x FNaN = FNaN"
| "fdiv (FFin a) y = FFin 0"
| "fdiv x (FFin b) = finf (fsign x * (if b < 0 then - 1 else 1))"
| "fdiv x y = FNaN"

text \<open>Comparisons; every comparison with NaN is false.\<close>

fun flt :: "f64 \<Rightarrow> f64 \<Rightarrow> bool" where
  "flt FNaN y = False"
| "flt x FNaN = False"
| "flt FPInf y = False"
| "flt x FNInf = False"
| "flt FNInf y = True"
| "flt x FPInf = True"
| "flt (FFin a) (FFin b) = (a < b)"

definition feq :: "f64 \<Rightarrow> f64 \<Rightarrow> bool" where
  "feq x y = (x \<noteq> FNaN \<and> x = y)"

definition fle :: "f64 \<Rightarrow> f64 \<Rightarrow> bool" where
  "fle x y = (flt x y \<or> feq x y)"

text \<open>\<open>math.Round\<close>: half away from zero.\<close>

definition round_half_away :: "rat \<Rightarrow> int" where
  "round_half_away q = (if 0 \<le> q then \<lfloor>q + 1 / 2\<rfloor> else \<lceil>q - 1 / 2\<rceil>)"

fun fRound :: "f64 \<Rightarrow> f64" where
  "fRound (FFin a) = FFin (of_int (round_half_away a))"
| "fRound x = x"

text \<open>The conversion \<open>int(x)\<close> truncates towards zero; it is only applied to values in range.\<close>

definition trunc_rat :: "rat \<Rightarrow> int" where
  "trunc_rat q = (if 0 \<le> q then \<lfloor>q\<rfloor> else \<lceil>q\<rceil>)"

section \<open>Integers are exact\<close>

lemma two_pow_pos [simp]: "0 < two_pow k"
  by (simp add: two_pow_def)

lemma two_pow_neq0 [simp]: "two_pow k \<noteq> 0"
  using two_pow_pos [of k] by linarith

lemma two_pow_0 [simp]: "two_pow 0 = 1"
  by (simp add: two_pow_def)

lemma two_pow_Suc: "two_pow (k + 1) = 2 * two_pow k"
proof (cases "0 \<le> k")
  case True
  then show ?thesis by (simp add: two_pow_def nat_add_distrib)
next
  case False
  then obtain m where m: "nat (- k) = Suc m" by (metis Suc_pred' neg_0_less_iff_less not_le zero_less_nat_eq)
  with False have "nat (- (k + 1)) = m" by linarith
  with False m show ?thesis by (cases "k = - 1") (auto simp: two_pow_def)
qed

lemma two_pow_add_nat: "two_pow (k + int n) = two_pow k * 2 ^ n"
proof (induction n)
  case (Suc n)
  have "two_pow (k + int (Suc n)) = two_pow (k + int n + 1)" by (simp add: algebra_simps)
  also have "\<dots> = 2 * two_pow (k + int n)" by (rule two_pow_Suc)
  finally show ?case by (simp add: Suc)
qed simp

lemma two_pow_mono: "j \<le> k \<Longrightarrow> two_pow j \<le> two_pow k"
proof -
  assume "j \<le> k"
  then obtain n where "k = j + int n" using zle_iff_zadd by blast
  then show ?thesis by (simp add: two_pow_add_nat)
qed

lemma two_pow_nat: "two_pow (int n) = 2 ^ n"
  using two_pow_add_nat [of 0 n] by simp

lemma rne_of_int [simp]: "rne (of_int k) = k"
  by (simp add: rne_def)

lemma rne_ge: "of_int k \<le> q \<Longrightarrow> k \<le> rne q"
proof -
  assume "of_int k \<le> q"
  then have "k \<le> \<lfloor>q\<rfloor>" by (simp add: le_floor_iff)
  then show ?thesis by (simp add: rne_def Let_def)
qed

lemma rne_le: "q \<le> of_int k \<Longrightarrow> rne q \<le> k"
proof -
  assume q: "q \<le> of_int k"
  show ?thesis
  proof (cases "q = of_int k")
    case False
    with q have "q < of_int k" by simp
    then have "\<lfloor>q\<rfloor> < k" by (simp add: floor_less_iff)
    then show ?thesis by (simp add: rne_def Let_def)
  qed simp
qed

lemma two_pow_less: "j < k \<Longrightarrow> two_pow j < two_pow k"
  using two_pow_mono [of "j + 1" k] two_pow_Suc [of j] two_pow_pos [of j] by linarith

lemma two_pow_diff: "two_pow (j - k) * two_pow k = two_pow j"
proof (cases "0 \<le> k")
  case True
  then show ?thesis using two_pow_add_nat [of "j - k" "nat k"] by (simp add: two_pow_def)
next
  case False
  then have "two_pow (j - k) = two_pow j * 2 ^ nat (- k)"
    using two_pow_add_nat [of j "nat (- k)"] by simp
  with False show ?thesis by (simp add: two_pow_def)
qed

lemma rat_ilog2_bounds:
  assumes "0 < q"
  shows "two_pow (rat_ilog2 q) \<le> q" and "q < two_pow (rat_ilog2 q + 1)"
proof -
  obtain n d where nd: "quotient_of q = (n, d)" by (cases "quotient_of q")
  from nd have d: "0 < d" by (rule quotient_of_denom_pos)
  from nd have q: "q = of_int n / of_int d" by (rule quotient_of_div)
  with assms d have n: "0 < n" by (simp add: zero_less_divide_iff)
  define b c where "b = bitlen n" and "c = bitlen d"
  have "2 ^ nat (b - 1) \<le> n \<and> n < 2 ^ nat b" using bitlen_bounds [OF n] by (simp add: b_def)
  then have "(of_int (2 ^ nat (b - 1)) :: rat) \<le> of_int n \<and> (of_int n :: rat) < of_int (2 ^ nat b)"
    by (simp only: of_int_le_iff of_int_less_iff)
  moreover have "0 < b" using bitlen_bounds [OF n] n by (cases "0 < b") (auto simp: b_def)
  ultimately have nb: "two_pow (b - 1) \<le> of_int n" "of_int n < two_pow b"
    by (auto simp: two_pow_def)
  have "2 ^ nat (c - 1) \<le> d \<and> d < 2 ^ nat c" using bitlen_bounds [OF d] by (simp add: c_def)
  then have "(of_int (2 ^ nat (c - 1)) :: rat) \<le> of_int d \<and> (of_int d :: rat) < of_int (2 ^ nat c)"
    by (simp only: of_int_le_iff of_int_less_iff)
  moreover have "0 < c" using bitlen_bounds [OF d] d by (cases "0 < c") (auto simp: c_def)
  ultimately have dc: "two_pow (c - 1) \<le> of_int d" "of_int d < two_pow c"
    by (auto simp: two_pow_def)
  have dp: "(0 :: rat) < of_int d" using d by simp
  have low: "two_pow (b - c - 1) \<le> q"
  proof -
    have "two_pow (b - c - 1) * of_int d \<le> two_pow (b - c - 1) * two_pow c"
      using dc(2) by simp
    also have "\<dots> = two_pow (b - 1)" using two_pow_diff [of "b - 1" c] by (simp add: algebra_simps)
    also have "\<dots> \<le> of_int n" by (rule nb(1))
    finally show ?thesis using dp by (simp add: q pos_le_divide_eq)
  qed
  have high: "q < two_pow (b - c + 1)"
  proof -
    have "of_int n < two_pow b" by (rule nb(2))
    also have "\<dots> = two_pow (b - c + 1) * two_pow (c - 1)"
      using two_pow_diff [of b "c - 1"] by (simp add: algebra_simps)
    also have "\<dots> \<le> two_pow (b - c + 1) * of_int d" using dc(1) by simp
    finally show ?thesis using dp by (simp add: q pos_divide_less_eq)
  qed
  show "two_pow (rat_ilog2 q) \<le> q" "q < two_pow (rat_ilog2 q + 1)"
    using low high by (auto simp: rat_ilog2_def nd b_def [symmetric] c_def [symmetric] Let_def)
qed

lemma rat_ilog2_le: "0 < q \<Longrightarrow> q < two_pow (k + 1) \<Longrightarrow> rat_ilog2 q \<le> k"
  using rat_ilog2_bounds(1) [of q] two_pow_mono [of "k + 1" "rat_ilog2 q"] by linarith

lemma rat_ilog2_ge: "two_pow k \<le> q \<Longrightarrow> k \<le> rat_ilog2 q"
  using rat_ilog2_bounds(2) [of q] two_pow_mono [of "rat_ilog2 q + 1" k] two_pow_pos [of k]
  by linarith

lemma fround_of_int:
  assumes "\<bar>n\<bar> \<le> 2 ^ 53"
  shows "fround (of_int n) = FFin (of_int n)"
proof (cases "n = 0")
  case False
  define q :: rat where "q = of_int n"
  define e where "e = max (- 1074) (rat_ilog2 \<bar>q\<bar> - 52)"
  have q0: "0 < \<bar>q\<bar>" using False by (simp add: q_def)
  have qle: "\<bar>q\<bar> \<le> 2 ^ 53"
    using assms by (simp add: q_def)
  have "\<exists>k. q / two_pow e = of_int k"
  proof (cases "e \<le> 0")
    case True
    then have "q / two_pow e = of_int (n * 2 ^ nat (- e))"
      by (cases "e = 0") (simp_all add: two_pow_def q_def)
    then show ?thesis by blast
  next
    case False
    then have "53 \<le> rat_ilog2 \<bar>q\<bar>" by (auto simp: e_def)
    then have "2 ^ 53 \<le> \<bar>q\<bar>"
      using rat_ilog2_bounds(1) [OF q0] two_pow_mono [of 53 "rat_ilog2 \<bar>q\<bar>"] two_pow_nat [of 53] by simp
    with qle have eq: "\<bar>q\<bar> = two_pow 53" using two_pow_nat [of 53] by simp
    then have "rat_ilog2 \<bar>q\<bar> \<le> 53" using two_pow_less [of 53 54] by (intro rat_ilog2_le) simp_all
    with \<open>53 \<le> rat_ilog2 \<bar>q\<bar>\<close> have "e = 1" by (simp add: e_def)
    moreover have "two_pow 1 = 2" using two_pow_nat [of 1] by simp
    moreover have "q = of_int (2 * 2 ^ 52) \<or> q = of_int (- (2 * 2 ^ 52))"
      using eq two_pow_nat [of 53] by (auto simp: abs_if split: if_splits)
    ultimately have "q / two_pow e = of_int (2 ^ 52) \<or> q / two_pow e = of_int (- (2 ^ 52))"
      by auto
    then show ?thesis by blast
  qed
  then obtain k where k: "q / two_pow e = of_int k" by blast
  then have r: "of_int (rne (q / two_pow e)) * two_pow e = q" by (simp add: field_simps)
  have "(2 :: rat) ^ 53 < two_pow 1024" using two_pow_less [of 53 1024] two_pow_nat [of 53] by simp
  then have "q < two_pow 1024" "- two_pow 1024 < q" using qle by linarith+
  then show ?thesis
    using q0 r by (simp add: fround_def q_def [symmetric] e_def [symmetric] Let_def)
qed (simp add: fround_def)

text \<open>A value of at least \<open>2 ^ 53\<close> does not round below \<open>2 ^ 53\<close>.\<close>

lemma fround_ge:
  assumes "2 ^ 53 \<le> q"
  shows "fround q = FPInf \<or> (\<exists>r. fround q = FFin r \<and> 2 ^ 53 \<le> r)"
proof -
  define e where "e = max (- 1074) (rat_ilog2 \<bar>q\<bar> - 52)"
  have q0: "0 < q" using assms by (simp add: less_le_trans)
  have l: "53 \<le> rat_ilog2 q" using assms two_pow_nat [of 53] by (intro rat_ilog2_ge) simp
  then have e: "e = rat_ilog2 q - 52" using q0 by (simp add: e_def)
  have "two_pow (rat_ilog2 q) \<le> q" using q0 by (rule rat_ilog2_bounds)
  then have "of_int (2 ^ 52) * two_pow e \<le> q"
    using two_pow_add_nat [of e 52] by (simp add: e mult.commute)
  then have "of_int (2 ^ 52) \<le> q / two_pow e" by (simp add: pos_le_divide_eq)
  then have "2 ^ 52 \<le> rne (q / two_pow e)" by (rule rne_ge)
  then have "(of_int (2 ^ 52) :: rat) \<le> of_int (rne (q / two_pow e))" by (simp only: of_int_le_iff)
  then have "of_int (2 ^ 52) * two_pow e \<le> of_int (rne (q / two_pow e)) * two_pow e"
    by (rule mult_right_mono) (simp add: less_imp_le)
  moreover have "(2 :: rat) ^ 53 \<le> of_int (2 ^ 52) * two_pow e"
    using two_pow_mono [of 1 e] l two_pow_nat [of 1] by (simp add: e)
  ultimately have "2 ^ 53 \<le> of_int (rne (q / two_pow e)) * two_pow e" by linarith
  moreover have "(0 :: rat) < 2 ^ 53" by simp
  then have "\<not> of_int (rne (q / two_pow e)) * two_pow e \<le> - two_pow 1024"
    using calculation two_pow_pos [of 1024] by linarith
  moreover have "fround q =
      (let r = of_int (rne (q / two_pow e)) * two_pow e in
       if two_pow 1024 \<le> r then FPInf else if r \<le> - two_pow 1024 then FNInf else FFin r)"
    unfolding fround_def e_def using q0 by (simp add: Let_def)
  ultimately show ?thesis by (simp add: Let_def)
qed

lemma rne_uminus: "rne (- q) = - rne q"
proof -
  have f: "\<lfloor>- q\<rfloor> = (if q = of_int \<lfloor>q\<rfloor> then - \<lfloor>q\<rfloor> else - \<lfloor>q\<rfloor> - 1)"
    by (simp add: floor_minus ceiling_altdef)
  show ?thesis
  proof (cases "q = of_int \<lfloor>q\<rfloor>")
    case True
    then show ?thesis by (metis of_int_minus rne_of_int)
  next
    case False
    then have g: "\<lfloor>- q\<rfloor> = - \<lfloor>q\<rfloor> - 1" using f by simp
    then have "even \<lfloor>- q\<rfloor> = odd \<lfloor>q\<rfloor>" by simp
    then show ?thesis by (auto simp: rne_def Let_def field_simps g)
  qed
qed

lemma fround_uminus: "fround (- q) = fneg (fround q)"
  by (auto simp: fround_def Let_def rne_uminus)
     (use two_pow_pos [of 1024] in linarith)+

lemma fround_le:
  assumes "q \<le> - (2 ^ 53)"
  shows "fround q = FNInf \<or> (\<exists>r. fround q = FFin r \<and> r \<le> - (2 ^ 53))"
proof -
  have "fround (- q) = FPInf \<or> (\<exists>r. fround (- q) = FFin r \<and> 2 ^ 53 \<le> r)"
    using assms by (intro fround_ge) linarith
  then show ?thesis
    by (cases "fround q") (auto simp: fround_uminus)
qed

section \<open>A linear order\<close>

text \<open>
  The order of the finite values and the infinities, with NaN on top: on values other than NaN
  it is the comparison of the language.
\<close>

fun frank :: "f64 \<Rightarrow> nat" where
  "frank FNInf = 0"
| "frank (FFin a) = 1"
| "frank FPInf = 2"
| "frank FNaN = 3"

instantiation f64 :: linorder
begin

definition less_f64 :: "f64 \<Rightarrow> f64 \<Rightarrow> bool" where
  "x < y = (case (x, y) of (FFin a, FFin b) \<Rightarrow> a < b | _ \<Rightarrow> frank x < frank y)"

definition less_eq_f64 :: "f64 \<Rightarrow> f64 \<Rightarrow> bool" where
  "x \<le> y = (x = y \<or> x < y)" for x y :: f64

instance
  by standard (auto simp: less_f64_def less_eq_f64_def split: f64.splits)

end

lemma flt_iff_less: "x \<noteq> FNaN \<Longrightarrow> y \<noteq> FNaN \<Longrightarrow> flt x y \<longleftrightarrow> x < y"
  by (cases x; cases y) (simp_all add: less_f64_def)

lemma feq_iff_eq: "x \<noteq> FNaN \<Longrightarrow> feq x y \<longleftrightarrow> x = y"
  by (auto simp: feq_def)

fun fnonneg :: "f64 \<Rightarrow> bool" where
  "fnonneg FNaN = False"
| "fnonneg FNInf = False"
| "fnonneg FPInf = True"
| "fnonneg (FFin a) = (0 \<le> a)"

lemma fround_nonneg:
  assumes "0 \<le> q"
  shows "fnonneg (fround q)"
proof -
  have "0 \<le> rne (q / two_pow e)" for e
    using rne_ge [of 0 "q / two_pow e"] assms by (simp add: less_imp_le)
  then have "0 \<le> rat_of_int (rne (q / two_pow e)) * two_pow e" for e
    by (simp add: less_imp_le)
  then have r: "0 \<le> rat_of_int (rne (q / two_pow e)) * two_pow e"
    "\<not> rat_of_int (rne (q / two_pow e)) * two_pow e \<le> - two_pow 1024" for e
    using two_pow_pos [of 1024] by (auto simp: not_le intro: less_le_trans [of _ 0])
  show ?thesis unfolding fround_def Let_def by (simp add: r)
qed

lemma fadd_nonneg: "fnonneg x \<Longrightarrow> fnonneg y \<Longrightarrow> fnonneg (fadd x y)"
  by (cases x; cases y) (simp_all add: fround_nonneg)

lemma fnonneg_not_NaN: "fnonneg x \<Longrightarrow> x \<noteq> FNaN"
  by auto

lemma fround_not_NaN [simp]: "fround q \<noteq> FNaN"
  by (simp add: fround_def Let_def)

lemma fround_neq_0:
  assumes "1 \<le> q"
  shows "fround q \<noteq> FFin 0"
proof -
  define e where "e = max (- 1074) (rat_ilog2 \<bar>q\<bar> - 52)"
  have "0 \<le> rat_ilog2 q" using rat_ilog2_ge [of 0 q] assms by simp
  then have "e \<le> rat_ilog2 q" using assms by (simp add: e_def)
  then have "two_pow e \<le> q"
    using two_pow_mono [of e "rat_ilog2 q"] rat_ilog2_bounds(1) [of q] assms by linarith
  then have "1 \<le> rne (q / two_pow e)" using rne_ge [of 1 "q / two_pow e"] by simp
  then have "of_int (rne (q / two_pow e)) * two_pow e \<noteq> 0" by simp
  then show ?thesis using assms unfolding fround_def e_def [symmetric] Let_def by simp
qed

end
