(* ===== verification/Quota_Math.thy ===== *)
theory Quota_Math
  imports Go_Float64
begin

text \<open>
  \<open>common/quota_math.go\<close>: the conversions from computed prices to quota units.  Every
  conversion goes through \<open>saturateQuota\<close>, which clamps to the 32-bit range of the quota
  columns and reports the clamp.  \<open>github.com/shopspring/decimal\<close> is not part of the
  repository: its \<open>Round(0)\<close> and \<open>Float64()\<close> are arguments of the decimal conversions, and
  what the code relies on is the hypothesis of \<open>QuotaFromDecimal_clamps\<close>.  The log line of
  \<open>SysError\<close> is not modelled.
\<close>

section \<open>Definitions\<close>

definition MaxQuota :: int where "MaxQuota = 2147483647"

definition MinQuota :: int where "MinQuota = - 2147483648"

datatype QuotaClampKind = QuotaClampOverflow | QuotaClampUnderflow | QuotaClampNaN

record QuotaClamp =
  clampOp :: string
  clampKind :: QuotaClampKind
  clampOriginal :: f64
  clampClamped :: int

fun f64_to_int :: "f64 \<Rightarrow> int" where
  "f64_to_int (FFin a) = trunc_rat a"
| "f64_to_int _ = 0"

definition saturateQuota :: "f64 \<Rightarrow> string \<Rightarrow> int \<times> QuotaClamp option" where
  "saturateQuota v op =
     (let clamped = (\<lambda>kind c. (c, Some \<lparr>clampOp = op, clampKind = kind,
                                        clampOriginal = v, clampClamped = c\<rparr>)) in
      if v = FNaN then clamped QuotaClampNaN 0
      else if fle (FFin (of_int MaxQuota)) v then clamped QuotaClampOverflow MaxQuota
      else if fle v (FFin (of_int MinQuota)) then clamped QuotaClampUnderflow MinQuota
      else (f64_to_int v, None))"

definition strictQuota :: "int \<times> QuotaClamp option \<Rightarrow> QuotaClamp + int" where
  "strictQuota r = (case r of (quota, Some c) \<Rightarrow> Inl c | (quota, None) \<Rightarrow> Inr quota)"

definition QuotaFromFloatChecked :: "f64 \<Rightarrow> int \<times> QuotaClamp option" where
  "QuotaFromFloatChecked v = saturateQuota v ''QuotaFromFloat''"

definition QuotaFromFloat :: "f64 \<Rightarrow> int" where
  "QuotaFromFloat v = fst (QuotaFromFloatChecked v)"

definition QuotaFromFloatStrict :: "f64 \<Rightarrow> QuotaClamp + int" where
  "QuotaFromFloatStrict v = strictQuota (QuotaFromFloatChecked v)"

definition QuotaRoundChecked :: "f64 \<Rightarrow> int \<times> QuotaClamp option" where
  "QuotaRoundChecked v = saturateQuota (fRound v) ''QuotaRound''"

definition QuotaRound :: "f64 \<Rightarrow> int" where
  "QuotaRound v = fst (QuotaRoundChecked v)"

definition QuotaRoundStrict :: "f64 \<Rightarrow> QuotaClamp + int" where
  "QuotaRoundStrict v = strictQuota (QuotaRoundChecked v)"

definition QuotaFromDecimalChecked ::
  "('d \<Rightarrow> 'd) \<Rightarrow> ('d \<Rightarrow> f64) \<Rightarrow> 'd \<Rightarrow> int \<times> QuotaClamp option" where
  "QuotaFromDecimalChecked round0 float64 d = saturateQuota (float64 (round0 d)) ''QuotaFromDecimal''"

definition QuotaFromDecimal :: "('d \<Rightarrow> 'd) \<Rightarrow> ('d \<Rightarrow> f64) \<Rightarrow> 'd \<Rightarrow> int" where
  "QuotaFromDecimal round0 float64 d = fst (QuotaFromDecimalChecked round0 float64 d)"

definition QuotaFromDecimalStrict ::
  "('d \<Rightarrow> 'd) \<Rightarrow> ('d \<Rightarrow> f64) \<Rightarrow> 'd \<Rightarrow> QuotaClamp + int" where
  "QuotaFromDecimalStrict round0 float64 d = strictQuota (QuotaFromDecimalChecked round0 float64 d)"

section \<open>Library lemmas\<close>

lemmas quota_bounds = MaxQuota_def MinQuota_def

lemma fle_FFin [simp]: "fle (FFin a) (FFin b) = (a \<le> b)"
  by (auto simp: fle_def feq_def)

lemma fle_inf [simp]:
  "fle x FPInf = (x \<noteq> FNaN)" "fle FNInf x = (x \<noteq> FNaN)"
  "\<not> fle FPInf (FFin a)" "\<not> fle (FFin a) FNInf" "\<not> fle FPInf FNInf"
  by (cases x; simp add: fle_def feq_def)+

lemma fle_nan [simp]: "\<not> fle FNaN y" "\<not> fle x FNaN"
  by (simp add: fle_def feq_def) (cases x; simp add: fle_def feq_def)

lemma trunc_rat_mono: "a \<le> b \<Longrightarrow> trunc_rat a \<le> trunc_rat b"
proof -
  assume ab: "a \<le> b"
  show ?thesis
  proof (cases "0 \<le> a")
    case True
    with ab show ?thesis by (simp add: trunc_rat_def floor_mono)
  next
    case False
    then have "\<lceil>a\<rceil> \<le> 0" by (simp add: ceiling_le_iff)
    show ?thesis
    proof (cases "0 \<le> b")
      case True
      then have "0 \<le> \<lfloor>b\<rfloor>" by simp
      with \<open>\<lceil>a\<rceil> \<le> 0\<close> have "\<lceil>a\<rceil> \<le> \<lfloor>b\<rfloor>" by linarith
      with False True show ?thesis by (simp add: trunc_rat_def)
    next
      case False
      with \<open>\<not> 0 \<le> a\<close> ab show ?thesis by (simp add: trunc_rat_def ceiling_mono)
    qed
  qed
qed

lemma trunc_rat_of_int [simp]: "trunc_rat (of_int k) = k"
  by (simp add: trunc_rat_def)

lemma trunc_rat_between:
  "of_int m < a \<Longrightarrow> a < of_int n \<Longrightarrow> m \<le> trunc_rat a \<and> trunc_rat a \<le> n"
  using trunc_rat_mono [of "of_int m" a] trunc_rat_mono [of a "of_int n"] by simp

text \<open>The four outcomes of \<open>saturateQuota\<close> on a finite value.\<close>

lemma saturateQuota_FFin:
  "fst (saturateQuota (FFin a) op) =
     (if of_int MaxQuota \<le> a then MaxQuota else if a \<le> of_int MinQuota then MinQuota else trunc_rat a)"
  "snd (saturateQuota (FFin a) op) = None \<longleftrightarrow> of_int MinQuota < a \<and> a < of_int MaxQuota"
  by (auto simp: saturateQuota_def Let_def)

lemma saturateQuota_special:
  "saturateQuota FPInf op =
     (MaxQuota, Some \<lparr>clampOp = op, clampKind = QuotaClampOverflow, clampOriginal = FPInf,
                      clampClamped = MaxQuota\<rparr>)"
  "saturateQuota FNInf op =
     (MinQuota, Some \<lparr>clampOp = op, clampKind = QuotaClampUnderflow, clampOriginal = FNInf,
                      clampClamped = MinQuota\<rparr>)"
  "saturateQuota FNaN op =
     (0, Some \<lparr>clampOp = op, clampKind = QuotaClampNaN, clampOriginal = FNaN, clampClamped = 0\<rparr>)"
  by (auto simp: saturateQuota_def Let_def)

lemma saturateQuota_of_int:
  "fst (saturateQuota (FFin (of_int k)) op) = max MinQuota (min MaxQuota k)"
  by (simp add: saturateQuota_FFin quota_bounds del: of_int_numeral)

lemma saturateQuota_range:
  "MinQuota \<le> fst (saturateQuota v op)" "fst (saturateQuota v op) \<le> MaxQuota"
proof (atomize (full), cases v)
  case (FFin a)
  have "of_int MinQuota < a \<Longrightarrow> a < of_int MaxQuota \<Longrightarrow>
      MinQuota \<le> trunc_rat a \<and> trunc_rat a \<le> MaxQuota"
    by (rule trunc_rat_between)
  with FFin show "MinQuota \<le> fst (saturateQuota v op) \<and> fst (saturateQuota v op) \<le> MaxQuota"
    by (auto simp: saturateQuota_FFin not_le quota_bounds)
qed (simp_all add: saturateQuota_special quota_bounds)

section \<open>Properties\<close>

text \<open>
  C22. Saturation: every conversion yields a value of the 32-bit quota range, whatever float
  it is given (NaN and the infinities included); no clamp is reported exactly when the input
  is finite and strictly inside the range, and then the result is the truncated input; a
  reported clamp carries the value actually used.
\<close>

theorem saturateQuota_in_range:
  assumes "saturateQuota v op = (n, c)"
  shows "MinQuota \<le> n \<and> n \<le> MaxQuota
       \<and> (c = None \<longleftrightarrow> (\<exists>a. v = FFin a \<and> of_int MinQuota < a \<and> a < of_int MaxQuota))
       \<and> (\<forall>a. v = FFin a \<and> c = None \<longrightarrow> n = trunc_rat a)
       \<and> (\<forall>k. c = Some k \<longrightarrow> clampClamped k = n \<and> clampOriginal k = v)"
proof -
  have "MinQuota \<le> n \<and> n \<le> MaxQuota"
    using saturateQuota_range [of v op] assms by simp
  then show ?thesis
    using assms by (cases v) (auto simp: saturateQuota_def Let_def not_le split: if_splits)
qed

theorem saturateQuota_in_range_witness:
  "saturateQuota (FFin (7 / 2)) ''op'' = (3, None) \<and> MinQuota \<le> 3 \<and> (3 :: int) \<le> MaxQuota"
proof -
  have h: "saturateQuota (FFin (7 / 2)) ''op'' = (3, None)"
    by (simp add: saturateQuota_def Let_def quota_bounds trunc_rat_def floor_eq_iff)
  show ?thesis using saturateQuota_in_range [OF h] h by simp
qed

text \<open>
  A larger price never costs less: saturation is monotone on the ordered floats, so it
  never wraps a charge into a credit.
\<close>

theorem saturateQuota_mono:
  assumes "fle v w"
  shows "fst (saturateQuota v op) \<le> fst (saturateQuota w op)"
proof -
  consider (both) a b where "v = FFin a" "w = FFin b" "a \<le> b"
    | (low) "v = FNInf" | (high) "w = FPInf"
    using assms by (cases v; cases w) auto
  then show ?thesis
  proof cases
    case both
    then show ?thesis
      using trunc_rat_mono [of a b] saturateQuota_range [of v op] saturateQuota_range [of w op]
      by (auto simp: saturateQuota_FFin)
  next
    case low
    then show ?thesis using saturateQuota_range(1) [of w op] by (simp add: saturateQuota_special)
  next
    case high
    then show ?thesis using saturateQuota_range(2) [of v op] by (simp add: saturateQuota_special)
  qed
qed

theorem saturateQuota_mono_witness:
  "fst (saturateQuota (FFin 3) ''op'') \<le> fst (saturateQuota FPInf ''op'')"
  by (rule saturateQuota_mono) simp

text \<open>
  C23. The strict conversion used before a charge: \<open>QuotaRoundStrict\<close> succeeds exactly on
  finite inputs whose half-away-from-zero rounding lies strictly inside the quota range, and
  returns that rounding; everything else is the typed clamp error, never a saturated number.
\<close>

theorem QuotaRoundStrict_exact:
  "QuotaRoundStrict v = Inr n \<longleftrightarrow>
     (\<exists>a. v = FFin a \<and> n = round_half_away a \<and> MinQuota < n \<and> n < MaxQuota)"
proof (cases v)
  case (FFin a)
  then show ?thesis
    using saturateQuota_FFin(2) [of "of_int (round_half_away a)" "''QuotaRound''"]
      saturateQuota_FFin(1) [of "of_int (round_half_away a)" "''QuotaRound''"]
    by (cases "saturateQuota (FFin (of_int (round_half_away a))) ''QuotaRound''")
       (auto simp: QuotaRoundStrict_def QuotaRoundChecked_def strictQuota_def split: option.splits)
qed (simp_all add: QuotaRoundStrict_def QuotaRoundChecked_def strictQuota_def saturateQuota_special)


text \<open>
  C25. A decimal price is charged as its rounding clamped to the quota range: going through
  \<open>float64\<close> loses nothing, for every decimal whatever its size.  The hypothesis is the
  documented behaviour of the decimal package: \<open>Round(0)\<close> rounds half away from zero, and
  \<open>Float64\<close> returns the nearest float of the integer it is given.
\<close>

theorem QuotaFromDecimal_clamps:
  assumes decimal: "float64 (round0 d) = fround (of_int (round_half_away (val d)))"
  shows "QuotaFromDecimal round0 float64 d = max MinQuota (min MaxQuota (round_half_away (val d)))"
proof -
  define n where "n = round_half_away (val d)"
  have eq: "QuotaFromDecimal round0 float64 d = fst (saturateQuota (fround (of_int n)) ''QuotaFromDecimal'')"
    by (simp add: QuotaFromDecimal_def QuotaFromDecimalChecked_def decimal n_def)
  consider "\<bar>n\<bar> \<le> 2 ^ 53" | "2 ^ 53 < n" | "n < - (2 ^ 53)" by linarith
  then show ?thesis
  proof cases
    case 1
    then show ?thesis
      using fround_of_int [OF 1] by (simp add: eq saturateQuota_of_int n_def [symmetric])
  next
    case 2
    then have "(2 :: rat) ^ 53 \<le> of_int n" by simp
    from fround_ge [OF this] show ?thesis
    proof
      assume "\<exists>r. fround (of_int n) = FFin r \<and> 2 ^ 53 \<le> r"
      then obtain r where "fround (of_int n) = FFin r" "2 ^ 53 \<le> r" by blast
      then show ?thesis using 2
        by (simp add: eq saturateQuota_FFin n_def [symmetric] quota_bounds)
    qed (use 2 in \<open>simp add: eq saturateQuota_special n_def [symmetric] quota_bounds\<close>)
  next
    case 3
    then have "of_int n \<le> (- (2 ^ 53) :: rat)" by simp
    from fround_le [OF this] show ?thesis
    proof
      assume "\<exists>r. fround (of_int n) = FFin r \<and> r \<le> - (2 ^ 53)"
      then obtain r where "fround (of_int n) = FFin r" "r \<le> - (2 ^ 53)" by blast
      then show ?thesis using 3
        by (simp add: eq saturateQuota_FFin n_def [symmetric] quota_bounds)
    qed (use 3 in \<open>simp add: eq saturateQuota_special n_def [symmetric] quota_bounds\<close>)
  qed
qed

theorem QuotaFromDecimal_clamps_witness:
  "QuotaFromDecimal (\<lambda>d. of_int (round_half_away d)) fround (5 / 2 :: rat) = 3"
  using QuotaFromDecimal_clamps [of fround "\<lambda>d. of_int (round_half_away d)" "5 / 2" "\<lambda>d. d"]
  by (simp add: round_half_away_def quota_bounds)

end
