(* ===== verification/Store.thy ===== *)
theory Store
  imports Go_Float64 "HOL-Library.AList"
begin

text \<open>
  The state the billing code runs on, and the primitives it reaches it through.

  \<^item> \<open>db\<close> is the main database: one map per table, keyed by the primary or unique key the
    code queries by, and a list where the code scans a table.  Rows carry the columns the
    modelled code reads or writes.  A soft-deleted row is absent.
  \<^item> \<open>redis\<close> holds the cached user and token hashes, the mutation fences and the auth version
    keys, each with its expiry.  HMAC-derived key names are identified with the key itself.
  \<^item> \<open>world\<close> adds the process memory (batch update stores, queued goroutines), the plan caches,
    which live in Redis or in memory as \<open>RedisEnabled\<close> says, the settings,
    the clock in seconds and the fault schedule.
  \<^item> \<open>dbFate\<close> and \<open>redisFate\<close> fix, for every statement sent, what happens to it:
    \<open>FOk\<close>, \<open>FFail\<close> (an error and no effect) or \<open>FLost\<close> (the effect happens and the reply is
    lost, so the caller sees an error).  Theorems quantify over the schedule.
  \<^item> \<open>transaction\<close> is \<open>DB.Transaction\<close>: an error of the body restores the database and nothing
    else; a lost commit keeps the writes and reports an error.
  \<^item> Row locks and the process mutexes serialise the modelled operations, so an operation runs
    on the state it finds; interleavings are sequences of whole operations.
\<close>

section \<open>Errors\<close>

datatype ErrorCode =
    ErrorCodeInvalidRequest
  | ErrorCodeQueryDataError
  | ErrorCodeUpdateDataError
  | ErrorCodeInsufficientUserQuota
  | ErrorCodePreConsumeTokenQuotaFailed
  | ErrorCodeModelPriceError

text \<open>\<open>ErrNoReturn\<close> is the outcome of a call that does not return; no code produces or handles it.\<close>

datatype err =
    ErrRecordNotFound
  | ErrDB
  | ErrRedis
  | ErrBillingRecoveryStateConflict
  | ErrBillingRecoveryTokenQuota
  | ErrBillingRecoveryFundingQuota
  | ErrUserAuthCachePending
  | ErrInsufficientWalletQuota
  | ErrNoReturn
  | ErrText string
  | ErrWrap string err
  | ErrAPI ErrorCode int err

fun errIs :: "err \<Rightarrow> err \<Rightarrow> bool" where
  "errIs (ErrWrap m e) t = (ErrWrap m e = t \<or> errIs e t)"
| "errIs (ErrAPI c st e) t = (ErrAPI c st e = t \<or> errIs e t)"
| "errIs e t = (e = t)"

fun err_text :: "err \<Rightarrow> string" where
  "err_text ErrRecordNotFound = ''record not found''"
| "err_text ErrDB = ''database error''"
| "err_text ErrRedis = ''redis error''"
| "err_text ErrBillingRecoveryStateConflict = ''billing recovery state conflict''"
| "err_text ErrBillingRecoveryTokenQuota = ''billing recovery token quota insufficient''"
| "err_text ErrBillingRecoveryFundingQuota = ''billing recovery funding quota insufficient''"
| "err_text ErrUserAuthCachePending = ''user authentication state update is pending''"
| "err_text ErrInsufficientWalletQuota = ''wallet quota insufficient''"
| "err_text ErrNoReturn = ''no return''"
| "err_text (ErrText s) = s"
| "err_text (ErrWrap m e) = m @ '': '' @ err_text e"
| "err_text (ErrAPI c st e) = err_text e"

section \<open>Tables\<close>

record User =
  uUsername :: string
  uRole :: int
  uStatus :: int
  uEmail :: string
  uQuota :: int
  uUsedQuota :: int
  uRequestCount :: int
  uGroup :: string
  uSetting :: string
  uAuthVersion :: int

record Token =
  tId :: int
  tUserId :: int
  tKey :: string
  tStatus :: int
  tAccessedTime :: int
  tExpiredTime :: int
  tRemainQuota :: int
  tUnlimitedQuota :: bool
  tUsedQuota :: int

record SubscriptionPlan =
  spId :: int
  spTitle :: string
  spDurationUnit :: string
  spDurationValue :: int
  spCustomSeconds :: int
  spEnabled :: bool
  spAllowBalancePay :: "bool option"
  spAllowWalletOverflow :: "bool option"
  spMaxPurchasePerUser :: int
  spUpgradeGroup :: string
  spDowngradeGroup :: string
  spTotalAmount :: int
  spQuotaResetPeriod :: string
  spQuotaResetCustomSeconds :: int

record UserSubscription =
  usId :: int
  usUserId :: int
  usPlanId :: int
  usAmountTotal :: int
  usAmountUsed :: int
  usStartTime :: int
  usEndTime :: int
  usStatus :: string
  usSource :: string
  usLastResetTime :: int
  usNextResetTime :: int
  usUpgradeGroup :: string
  usPrevUserGroup :: string
  usDowngradeGroup :: string
  usAllowWalletOverflow :: bool
  usCreatedAt :: int
  usUpdatedAt :: int

record SubscriptionPreConsumeRecord =
  pcRequestId :: string
  pcUserId :: int
  pcUserSubscriptionId :: int
  pcPreConsumed :: int
  pcStatus :: string
  pcCreatedAt :: int
  pcUpdatedAt :: int

datatype BillingRecoveryStatus =
    BillingRecoveryStatusUnset
  | BillingRecoveryStatusActive
  | BillingRecoveryStatusSettlementPending
  | BillingRecoveryStatusRefundPending
  | BillingRecoveryStatusSettled
  | BillingRecoveryStatusRefunded

datatype BillingRecoveryPreConsume =
    BillingRecoveryPreConsumeUnset
  | BillingRecoveryPreConsumePrepared
  | BillingRecoveryPreConsumeCommitted

datatype BillingRecoveryState =
    BillingRecoveryStateUnset
  | BillingRecoveryStatePending
  | BillingRecoveryStateCompleted

datatype BillingRecoveryComponent =
    BillingRecoveryComponentFunding
  | BillingRecoveryComponentExtra
  | BillingRecoveryComponentToken
  | BillingRecoveryComponentReserve int
  | BillingRecoveryComponentOther string

datatype BillingRecoveryOperation =
    BillingRecoveryOperationSettle
  | BillingRecoveryOperationRefund
  | BillingRecoveryOperationReserve
  | BillingRecoveryOperationOther string

record BillingRecovery =
  brRequestID :: string
  brUserID :: int
  brTokenID :: int
  brSubscriptionID :: int
  brSource :: string
  brFundingAmount :: int
  brExtraAmount :: int
  brTokenAmount :: int
  brTokenRequired :: bool
  brSettlementDelta :: int
  brPreConsumeState :: BillingRecoveryPreConsume
  brFundingRefund :: BillingRecoveryState
  brExtraRefund :: BillingRecoveryState
  brTokenRefund :: BillingRecoveryState
  brFundingSettlement :: BillingRecoveryState
  brTokenSettlement :: BillingRecoveryState
  brStatus :: BillingRecoveryStatus
  brAttempts :: int
  brLastError :: string
  brCreatedAt :: int
  brUpdatedAt :: int

type_synonym adjustment_key = "string \<times> BillingRecoveryComponent \<times> BillingRecoveryOperation"

record BillingRecoveryAdjustment =
  adAmount :: int
  adCreatedAt :: int

record ChannelHealth =
  chID :: int
  chChannelID :: int
  chModel :: string
  chKeyScope :: string
  chState :: string
  chFailureCount :: int
  chCooldownUntil :: int
  chHealthEpoch :: int
  chLastLatencyMS :: int
  chFirstTokenLatencyMS :: int
  chUpdatedAt :: int

text \<open>\<open>cKeys\<close> is the list \<open>Channel.GetKeys\<close> returns, the parsed form of the key column.\<close>

record Channel =
  cId :: int
  cStatus :: int
  cKeys :: "string list"
  cIsMultiKey :: bool
  cMultiKeyStatusList :: "int \<rightharpoonup> int"
  cCapacityTotal :: int
  cChannelRatio :: f64

record db =
  users :: "int \<rightharpoonup> User"
  tokens :: "int \<rightharpoonup> Token"
  channelsUsed :: "int \<rightharpoonup> int"
  plans :: "int \<rightharpoonup> SubscriptionPlan"
  subs :: "UserSubscription list"
  preconsumes :: "string \<rightharpoonup> SubscriptionPreConsumeRecord"
  recoveries :: "string \<rightharpoonup> BillingRecovery"
  recoveryIds :: "string list"
  adjustments :: "adjustment_key \<rightharpoonup> BillingRecoveryAdjustment"
  tokenKeys :: "string \<rightharpoonup> int"
  healths :: "ChannelHealth list"
  channels :: "int \<rightharpoonup> Channel"
  snapshots :: "int \<rightharpoonup> int"
  changedRowsOnly :: bool

section \<open>Redis\<close>

record UserBase =
  ubId :: int
  ubGroup :: string
  ubEmail :: string
  ubQuota :: "int option"
  ubStatus :: int
  ubRole :: int
  ubUsername :: string
  ubSetting :: string
  ubAuthVersion :: int
  ubCacheSchema :: int

record redis =
  userHash :: "int \<rightharpoonup> UserBase \<times> int"
  userFence :: "int \<rightharpoonup> int"
  authFence :: "int \<rightharpoonup> int \<times> int"
  authVersionKey :: "int \<rightharpoonup> int"
  tokenHash :: "string \<rightharpoonup> Token \<times> int"
  tokenFence :: "string \<rightharpoonup> int"

text \<open>An entry with a time to live is visible until it expires.\<close>

fun live :: "int \<Rightarrow> ('v \<times> int) option \<Rightarrow> 'v option" where
  "live now None = None"
| "live now (Some (v, expiry)) = (if now < expiry then Some v else None)"

fun fenced :: "int \<Rightarrow> int option \<Rightarrow> bool" where
  "fenced now None = False"
| "fenced now (Some expiry) = (now < expiry)"

section \<open>The world\<close>

datatype fate = FOk | FFail | FLost

datatype BatchUpdateType =
    BatchUpdateTypeUserQuota
  | BatchUpdateTypeTokenQuota
  | BatchUpdateTypeUsedQuota
  | BatchUpdateTypeChannelUsedQuota
  | BatchUpdateTypeRequestCount

datatype AsyncTask =
    AsyncUserQuotaDelta int int
  | AsyncTokenQuotaDelta int string int

record world =
  db :: db
  rds :: redis
  batchUpdateStores :: "BatchUpdateType \<Rightarrow> (int \<times> int) list"
  async :: "AsyncTask list"
  RedisEnabled :: bool
  BatchUpdateEnabled :: bool
  RedisKeyCacheSeconds :: int
  trustQuota :: int
  clock :: int
  ops :: nat
  dbFate :: "nat \<Rightarrow> fate"
  rops :: nat
  redisFate :: "nat \<Rightarrow> fate"
  planCache :: "int \<rightharpoonup> SubscriptionPlan \<times> int"
  planInfoCache :: "int \<rightharpoonup> (int \<times> string) \<times> int"

type_synonym 'a goM = "(world, err, 'a) go"

section \<open>Statements\<close>

definition tick :: "world \<Rightarrow> world" where
  "tick w = w\<lparr>ops := Suc (ops w)\<rparr>"

definition fateNow :: "world \<Rightarrow> fate" where
  "fateNow w = dbFate w (ops w)"

text \<open>A statement that may write: it returns its result and the new database.\<close>

definition dbM :: "(db \<Rightarrow> (err + 'a) \<times> db) \<Rightarrow> 'a goM" where
  "dbM f w =
     (case fateNow w of
        FFail \<Rightarrow> (Inl ErrDB, tick w)
      | FOk \<Rightarrow> (fst (f (db w)), (tick w)\<lparr>db := snd (f (db w))\<rparr>)
      | FLost \<Rightarrow> (Inl ErrDB, (tick w)\<lparr>db := snd (f (db w))\<rparr>))"

text \<open>
  \<open>firstM\<close> is \<open>First\<close> (or \<open>Take\<close>): no row is \<open>gorm.ErrRecordNotFound\<close>.  \<open>findM\<close> is \<open>Find\<close>,
  \<open>Count\<close> or \<open>Scan\<close>: no row is an empty result.  \<open>execM\<close> is \<open>Update\<close>, \<open>Updates\<close> or \<open>Delete\<close>
  and returns \<open>RowsAffected\<close>.  \<open>createM\<close> is \<open>Create\<close>: a violated unique index is a driver
  error.
\<close>

definition queryM :: "(db \<Rightarrow> err + 'a) \<Rightarrow> 'a goM" where
  "queryM f w = (if fateNow w = FOk then (f (db w), tick w) else (Inl ErrDB, tick w))"

definition firstM :: "(db \<Rightarrow> 'a option) \<Rightarrow> 'a goM" where
  "firstM f = queryM (\<lambda>d. case f d of None \<Rightarrow> Inl ErrRecordNotFound | Some x \<Rightarrow> Inr x)"

definition findM :: "(db \<Rightarrow> 'a) \<Rightarrow> 'a goM" where
  "findM f = queryM (\<lambda>d. Inr (f d))"

definition execM :: "(db \<Rightarrow> int \<times> db) \<Rightarrow> int goM" where
  "execM f = dbM (\<lambda>d. (Inr (fst (f d)), snd (f d)))"

definition createM :: "(db \<Rightarrow> db option) \<Rightarrow> unit goM" where
  "createM f = dbM (\<lambda>d. case f d of None \<Rightarrow> (Inl ErrDB, d) | Some d' \<Rightarrow> (Inr (), d'))"

text \<open>
  \<open>DB.Transaction\<close>: begin and commit are statements too.
\<close>

definition transaction :: "'a goM \<Rightarrow> 'a goM" where
  "transaction m w =
     (if fateNow w \<noteq> FOk then (Inl ErrDB, tick w)
      else case m (tick w) of
        (Inl e, w') \<Rightarrow> (Inl e, w'\<lparr>db := db w\<rparr>)
      | (Inr x, w') \<Rightarrow>
          (case fateNow w' of
             FOk \<Rightarrow> (Inr x, tick w')
           | FFail \<Rightarrow> (Inl ErrDB, (tick w')\<lparr>db := db w\<rparr>)
           | FLost \<Rightarrow> (Inl ErrDB, tick w')))"

text \<open>
  \<open>RowsAffected\<close> of a one-row update: MySQL counts the rows an update changes (the driver
  default, \<open>clientFoundRows=false\<close>), the other databases the rows it matches.
\<close>

definition affected :: "db \<Rightarrow> 'r \<Rightarrow> 'r \<Rightarrow> int" where
  "affected d old new = (if changedRowsOnly d \<and> old = new then 0 else 1)"

definition updUser :: "int \<Rightarrow> (User \<Rightarrow> bool) \<Rightarrow> (User \<Rightarrow> User) \<Rightarrow> int goM" where
  "updUser i P f = execM (\<lambda>d. case users d i of
      Some r \<Rightarrow> if P r then (affected d r (f r), d\<lparr>users := (users d)(i \<mapsto> f r)\<rparr>) else (0, d)
    | None \<Rightarrow> (0, d))"

definition updToken :: "int \<Rightarrow> (Token \<Rightarrow> bool) \<Rightarrow> (Token \<Rightarrow> Token) \<Rightarrow> int goM" where
  "updToken i P f = execM (\<lambda>d. case tokens d i of
      Some r \<Rightarrow> if P r then (affected d r (f r), d\<lparr>tokens := (tokens d)(i \<mapsto> f r)\<rparr>) else (0, d)
    | None \<Rightarrow> (0, d))"

definition updRecovery ::
  "string \<Rightarrow> (BillingRecovery \<Rightarrow> bool) \<Rightarrow> (BillingRecovery \<Rightarrow> BillingRecovery) \<Rightarrow> int goM" where
  "updRecovery rid P f = execM (\<lambda>d. case recoveries d rid of
      Some r \<Rightarrow> if P r
        then (affected d r (f r), d\<lparr>recoveries := (recoveries d)(rid \<mapsto> f r)\<rparr>) else (0, d)
    | None \<Rightarrow> (0, d))"

definition findSub :: "db \<Rightarrow> int \<Rightarrow> UserSubscription option" where
  "findSub d i = find (\<lambda>s. usId s = i) (subs d)"

definition putSub :: "UserSubscription \<Rightarrow> db \<Rightarrow> db" where
  "putSub s d = d\<lparr>subs := map (\<lambda>t. if usId t = usId s then s else t) (subs d)\<rparr>"

text \<open>\<open>tx.Save(&sub)\<close> writes every column and runs the \<open>BeforeUpdate\<close> hook.\<close>

definition saveSub :: "UserSubscription \<Rightarrow> int goM" where
  "saveSub s w = execM (\<lambda>d. (1, putSub (s\<lparr>usUpdatedAt := clock w\<rparr>) d)) w"

definition savePreConsume :: "SubscriptionPreConsumeRecord \<Rightarrow> int goM" where
  "savePreConsume r w = execM (\<lambda>d. (1, d\<lparr>preconsumes := (preconsumes d)
      (pcRequestId r \<mapsto> r\<lparr>pcUpdatedAt := clock w\<rparr>)\<rparr>)) w"

definition nowM :: "int goM" where
  "nowM = getsM clock"

text \<open>
  \<open>GetDBTimestamp\<close> asks the database and falls back to the process clock on an error; both
  clocks are the world's clock.
\<close>

definition GetDBTimestamp :: "int goM" where
  "GetDBTimestamp = bindM (tryM (findM (\<lambda>_. ()))) (\<lambda>_. nowM)"

definition redisM :: "(redis \<Rightarrow> 'a \<times> redis) \<Rightarrow> 'a goM" where
  "redisM f w =
     (let w1 = w\<lparr>rops := Suc (rops w)\<rparr> in
      case redisFate w (rops w) of
        FOk \<Rightarrow> (Inr (fst (f (rds w))), w1\<lparr>rds := snd (f (rds w))\<rparr>)
      | FFail \<Rightarrow> (Inl ErrRedis, w1)
      | FLost \<Rightarrow> (Inl ErrRedis, w1\<lparr>rds := snd (f (rds w))\<rparr>))"

section \<open>Weakest preconditions of the primitives\<close>

lemma tick_simps [simp]:
  "db (tick w) = db w" "rds (tick w) = rds w" "batchUpdateStores (tick w) = batchUpdateStores w"
  "async (tick w) = async w" "RedisEnabled (tick w) = RedisEnabled w"
  "BatchUpdateEnabled (tick w) = BatchUpdateEnabled w" "clock (tick w) = clock w"
  "RedisKeyCacheSeconds (tick w) = RedisKeyCacheSeconds w" "trustQuota (tick w) = trustQuota w"
  "ops (tick w) = Suc (ops w)" "dbFate (tick w) = dbFate w"
  "rops (tick w) = rops w" "redisFate (tick w) = redisFate w"
  "planCache (tick w) = planCache w" "planInfoCache (tick w) = planInfoCache w"
  by (simp_all add: tick_def)

lemma wp_queryM:
  "wp (queryM f) Q E w =
     (if fateNow w = FOk then (case f (db w) of Inl e \<Rightarrow> E e (tick w) | Inr x \<Rightarrow> Q x (tick w))
      else E ErrDB (tick w))"
  by (simp add: wp_def queryM_def split: sum.split)

lemma wp_firstM [wp_simps]:
  "wp (firstM f) Q E w =
     (if fateNow w = FOk
      then (case f (db w) of None \<Rightarrow> E ErrRecordNotFound (tick w) | Some x \<Rightarrow> Q x (tick w))
      else E ErrDB (tick w))"
  by (simp add: firstM_def wp_queryM split: option.split)

lemma wp_findM [wp_simps]:
  "wp (findM f) Q E w = (if fateNow w = FOk then Q (f (db w)) (tick w) else E ErrDB (tick w))"
  by (simp add: findM_def wp_queryM)

lemma wp_execM [wp_simps]:
  "wp (execM f) Q E w =
     (case fateNow w of
        FOk \<Rightarrow> Q (fst (f (db w))) ((tick w)\<lparr>db := snd (f (db w))\<rparr>)
      | FFail \<Rightarrow> E ErrDB (tick w)
      | FLost \<Rightarrow> E ErrDB ((tick w)\<lparr>db := snd (f (db w))\<rparr>))"
  by (simp add: wp_def execM_def dbM_def split: fate.split)

lemma wp_createM [wp_simps]:
  "wp (createM f) Q E w =
     (case fateNow w of
        FOk \<Rightarrow> (case f (db w) of None \<Rightarrow> E ErrDB (tick w) | Some d \<Rightarrow> Q () ((tick w)\<lparr>db := d\<rparr>))
      | FFail \<Rightarrow> E ErrDB (tick w)
      | FLost \<Rightarrow> E ErrDB (case f (db w) of None \<Rightarrow> tick w | Some d \<Rightarrow> (tick w)\<lparr>db := d\<rparr>))"
  by (cases "f (db w)") (simp_all add: wp_def createM_def dbM_def tick_def split: fate.split)

lemma wp_transaction [wp_simps]:
  "wp (transaction m) Q E w =
     (if fateNow w \<noteq> FOk then E ErrDB (tick w)
      else wp m
        (\<lambda>x w'. case fateNow w' of
            FOk \<Rightarrow> Q x (tick w')
          | FFail \<Rightarrow> E ErrDB ((tick w')\<lparr>db := db w\<rparr>)
          | FLost \<Rightarrow> E ErrDB (tick w'))
        (\<lambda>e w'. E e (w'\<lparr>db := db w\<rparr>)) (tick w))"
  by (auto simp: wp_def transaction_def split: prod.split sum.split fate.split)

lemma wp_saveSub [wp_simps]:
  "wp (saveSub s) Q E w = wp (execM (\<lambda>d. (1, putSub (s\<lparr>usUpdatedAt := clock w\<rparr>) d))) Q E w"
  by (simp add: wp_def saveSub_def)

lemma wp_savePreConsume [wp_simps]:
  "wp (savePreConsume r) Q E w = wp (execM (\<lambda>d. (1, d\<lparr>preconsumes := (preconsumes d)
      (pcRequestId r \<mapsto> r\<lparr>pcUpdatedAt := clock w\<rparr>)\<rparr>))) Q E w"
  by (simp add: wp_def savePreConsume_def)

lemma wp_nowM [wp_simps]: "wp nowM Q E w = Q (clock w) w"
  by (simp add: nowM_def wp_getsM)

lemma wp_GetDBTimestamp [wp_simps]: "wp GetDBTimestamp Q E w = Q (clock w) (tick w)"
  by (simp add: GetDBTimestamp_def wp_simps)

lemma wp_redisM [wp_simps]:
  "wp (redisM f) Q E w =
     (let w1 = w\<lparr>rops := Suc (rops w)\<rparr> in
      case redisFate w (rops w) of
        FOk \<Rightarrow> Q (fst (f (rds w))) (w1\<lparr>rds := snd (f (rds w))\<rparr>)
      | FFail \<Rightarrow> E ErrRedis w1
      | FLost \<Rightarrow> E ErrRedis (w1\<lparr>rds := snd (f (rds w))\<rparr>))"
  by (simp add: wp_def redisM_def Let_def split: fate.split)

section \<open>Frames of the primitives\<close>

text \<open>Nothing but time and the environment changes the settings and the fault schedule.\<close>

definition sameSettings :: "world \<Rightarrow> world \<Rightarrow> bool" where
  "sameSettings w w' \<longleftrightarrow> RedisEnabled w' = RedisEnabled w \<and>
     BatchUpdateEnabled w' = BatchUpdateEnabled w \<and> clock w' = clock w \<and>
     dbFate w' = dbFate w \<and> redisFate w' = redisFate w \<and> trustQuota w' = trustQuota w \<and>
     RedisKeyCacheSeconds w' = RedisKeyCacheSeconds w"

text \<open>A function that touches the caches and reads the database only.\<close>

definition cacheOnly :: "world \<Rightarrow> world \<Rightarrow> bool" where
  "cacheOnly w w' \<longleftrightarrow> sameSettings w w' \<and> db w' = db w \<and>
     batchUpdateStores w' = batchUpdateStores w \<and> async w' = async w"

lemma sameSettings_refl [simp]: "sameSettings w w"
  by (simp add: sameSettings_def)

lemma sameSettings_trans: "sameSettings w w' \<Longrightarrow> sameSettings w' w'' \<Longrightarrow> sameSettings w w''"
  by (simp add: sameSettings_def)

lemma sameSettings_upd [simp]:
  "sameSettings v (tick w) = sameSettings v w" "sameSettings v (w\<lparr>db := d\<rparr>) = sameSettings v w"
  "sameSettings v (w\<lparr>rds := r\<rparr>) = sameSettings v w" "sameSettings v (w\<lparr>rops := n\<rparr>) = sameSettings v w"
  "sameSettings v (w\<lparr>ops := n\<rparr>) = sameSettings v w"
  "sameSettings v (w\<lparr>batchUpdateStores := b\<rparr>) = sameSettings v w"
  "sameSettings v (w\<lparr>async := a\<rparr>) = sameSettings v w"
  "sameSettings v (w\<lparr>planCache := pc\<rparr>) = sameSettings v w"
  "sameSettings v (w\<lparr>planInfoCache := pi'\<rparr>) = sameSettings v w"
  by (simp_all add: sameSettings_def)

lemma cacheOnly_refl [simp]: "cacheOnly w w"
  by (simp add: cacheOnly_def)

interpretation settings: frame_rel sameSettings
  by unfold_locales (auto simp: sameSettings_def)

interpretation caching: frame_rel cacheOnly
  by unfold_locales (auto simp: cacheOnly_def intro: sameSettings_trans)

lemma framed_queryM: "framed cacheOnly (queryM f)"
  by (simp add: framed_def queryM_def cacheOnly_def)

lemma caching_firstM: "framed cacheOnly (firstM f)"
  unfolding firstM_def by (rule framed_queryM)

lemma caching_findM: "framed cacheOnly (findM f)"
  unfolding findM_def by (rule framed_queryM)

lemma caching_redisM: "framed cacheOnly (redisM f)"
  by (simp add: framed_def redisM_def Let_def cacheOnly_def split: fate.split)

lemma caching_nowM: "framed cacheOnly nowM"
  unfolding nowM_def by (rule caching.framed_getsM)

lemmas caching_intros =
  caching.framed_intros caching_firstM caching_findM caching_redisM caching_nowM

lemma settings_caching: "framed cacheOnly m \<Longrightarrow> framed sameSettings m"
  by (simp add: framed_def cacheOnly_def)

lemma settings_dbM: "framed sameSettings (dbM f)"
  by (simp add: framed_def dbM_def split: fate.split)

lemma settings_execM: "framed sameSettings (execM f)"
  unfolding execM_def by (rule settings_dbM)

lemma settings_createM: "framed sameSettings (createM f)"
  unfolding createM_def by (rule settings_dbM)

lemma settings_saves: "framed sameSettings (saveSub s)" "framed sameSettings (savePreConsume r)"
  using settings_execM by (auto simp: framed_def saveSub_def savePreConsume_def)

lemma settings_upds:
  "framed sameSettings (updUser i P f)" "framed sameSettings (updToken i P' f')"
  "framed sameSettings (updRecovery rid P'' f'')"
  unfolding updUser_def updToken_def updRecovery_def by (rule settings_execM)+

lemma settings_modifyM: "(\<And>w. sameSettings w (f w)) \<Longrightarrow> framed sameSettings (modifyM f)"
  by (simp add: framed_def modifyM_def)

lemma settings_transaction: "framed sameSettings m \<Longrightarrow> framed sameSettings (transaction m)"
  unfolding framed_wp wp_transaction
  by (auto simp: wp_iff sameSettings_def split: fate.split)

lemmas settings_intros =
  settings.framed_intros settings_execM settings_createM settings_saves settings_upds
  settings_transaction settings_caching [OF caching_firstM] settings_caching [OF caching_findM]
  settings_caching [OF caching_redisM] settings_caching [OF caching_nowM]

section \<open>Frames on the database\<close>

text \<open>
  A preorder on databases bounds every function whose statements respect it: queries, the
  caches and a rolled back transaction leave the database as it was.
\<close>

locale db_frame =
  fixes D :: "db \<Rightarrow> db \<Rightarrow> bool"
  assumes db_refl: "D d d"
    and db_trans: "D d d1 \<Longrightarrow> D d1 d2 \<Longrightarrow> D d d2"

sublocale db_frame \<subseteq> frame_rel "\<lambda>w w'. D (db w) (db w')"
  by unfold_locales (auto intro: db_refl db_trans)

context db_frame
begin

lemma framed_db_caching: "framed cacheOnly m \<Longrightarrow> framed (\<lambda>w w'. D (db w) (db w')) m"
  by (simp add: framed_def cacheOnly_def db_refl)

lemma framed_db_execM: "(\<And>d. D d (snd (f d))) \<Longrightarrow> framed (\<lambda>w w'. D (db w) (db w')) (execM f)"
  by (simp add: framed_def execM_def dbM_def db_refl split: fate.split)

lemma framed_db_createM:
  "(\<And>d d'. f d = Some d' \<Longrightarrow> D d d') \<Longrightarrow> framed (\<lambda>w w'. D (db w) (db w')) (createM f)"
  by (auto simp: framed_def createM_def dbM_def db_refl split: fate.split option.split)

lemma wp_db_transaction:
  assumes "wp m (\<lambda>_ w'. D (db w) (db w')) (\<lambda>_ _. True) (tick w)"
  shows "wp (transaction m) (\<lambda>_ w'. D (db w) (db w')) (\<lambda>_ w'. D (db w) (db w')) w"
  unfolding wp_transaction
  using wp_mono [OF assms] by (auto simp: db_refl split: fate.split)

lemma framed_db_transaction:
  assumes "framed (\<lambda>w w'. D (db w) (db w')) m"
  shows "framed (\<lambda>w w'. D (db w) (db w')) (transaction m)"
  unfolding framed_wp
proof (rule allI, rule wp_db_transaction)
  fix w
  show "wp m (\<lambda>_ w'. D (db w) (db w')) (\<lambda>_ _. True) (tick w)"
    using assms [unfolded framed_wp, rule_format, of "tick w"] by (auto elim: wp_mono)
qed

lemmas framed_db_intros =
  framed_intros framed_db_execM framed_db_createM framed_db_transaction
  framed_db_caching [OF caching_firstM] framed_db_caching [OF caching_findM]
  framed_db_caching [OF caching_nowM] framed_db_caching [OF caching_redisM]

end

text \<open>Continuing after a function that touches the caches only.\<close>

lemma wp_bind_caching:
  assumes "framed cacheOnly m"
    and "\<And>x w1. cacheOnly w w1 \<Longrightarrow> wp (f x) Q E w1"
    and "\<And>e w1. cacheOnly w w1 \<Longrightarrow> E e w1"
  shows "wp (bindM m f) Q E w"
  unfolding wp_bindM
  by (rule wp_mono [OF assms(1) [unfolded framed_wp, rule_format]]) (simp_all add: assms(2,3))

lemma wp_bind_try_caching:
  assumes "framed cacheOnly m"
    and "\<And>r w1. cacheOnly w w1 \<Longrightarrow> wp (f r) Q E w1"
  shows "wp (bindM (tryM m) f) Q E w"
  unfolding wp_bindM wp_tryM
  by (rule wp_mono [OF assms(1) [unfolded framed_wp, rule_format]]) (simp_all add: assms(2))

text \<open>No reply is lost.\<close>

definition noLost :: "world \<Rightarrow> bool" where
  "noLost w \<longleftrightarrow> (\<forall>n. dbFate w n \<noteq> FLost)"

text \<open>No statement fails.\<close>

definition noFault :: "world \<Rightarrow> bool" where
  "noFault w \<longleftrightarrow> (\<forall>n. dbFate w n = FOk)"

lemma noLost_fateNow [simp]: "noLost w \<Longrightarrow> fateNow w \<noteq> FLost"
  by (simp add: noLost_def fateNow_def)

lemma noFault_fateNow [simp]: "noFault w \<Longrightarrow> fateNow w = FOk"
  by (simp add: noFault_def fateNow_def)

lemma sameSettings_faults:
  "sameSettings w w' \<Longrightarrow> noLost w' = noLost w" "sameSettings w w' \<Longrightarrow> noFault w' = noFault w"
  by (simp_all add: sameSettings_def noLost_def noFault_def)

end
