(* ===== verification/Quota_Store.thy ===== *)
theory Quota_Store
  imports Store
begin

text \<open>
  Wallet and token balances (\<open>model/utils.go\<close>, \<open>model/quota_reserve.go\<close>, the quota functions
  of \<open>model/user.go\<close> and \<open>model/token.go\<close>, and the caches of \<open>model/user_cache.go\<close>,
  \<open>model/user_auth_cache.go\<close> and \<open>model/token_cache.go\<close>).

  A balance lives in three places: the database row, the pending delta of the batch updater
  and the Redis hash.  \<open>userBal\<close> and \<open>tokenBal\<close>, the row plus the pending delta, are the
  balances the theorems speak about.  The Lua scripts are functions on the Redis state: Redis
  runs a script atomically.  The theory shows that the striped locks are always taken in
  ascending order and cannot deadlock, that a reservation takes exactly its amount or nothing
  whatever fails, and that a flush moves the pending deltas into the rows when no statement
  fails; a failed statement loses its delta.
\<close>

section \<open>Locks (utils.go)\<close>

definition quotaMutationLockStripes :: int where
  "quotaMutationLockStripes = 257"

fun batchTypeIndex :: "BatchUpdateType \<Rightarrow> int" where
  "batchTypeIndex BatchUpdateTypeUserQuota = 0"
| "batchTypeIndex BatchUpdateTypeTokenQuota = 1"
| "batchTypeIndex BatchUpdateTypeUsedQuota = 2"
| "batchTypeIndex BatchUpdateTypeChannelUsedQuota = 3"
| "batchTypeIndex BatchUpdateTypeRequestCount = 4"

definition quotaMutationLockIndex :: "BatchUpdateType \<Rightarrow> int \<Rightarrow> int" where
  "quotaMutationLockIndex resourceType i =
     (let n = (if i < 0 then - i else i) in
      (n * 31 + batchTypeIndex resourceType) mod quotaMutationLockStripes)"

text \<open>The loop that drops an index equal to the last one kept.\<close>

fun uniqueIndexes :: "int list \<Rightarrow> int list \<Rightarrow> int list" where
  "uniqueIndexes unique [] = unique"
| "uniqueIndexes unique (index # rest) =
     (if unique = [] \<or> last unique \<noteq> index then uniqueIndexes (unique @ [index]) rest
      else uniqueIndexes unique rest)"

text \<open>The stripes locked, in locking order.\<close>

definition lockQuotaMutationResources :: "int \<Rightarrow> int \<Rightarrow> int list" where
  "lockQuotaMutationResources userID tokenID =
     (let indexes = (if userID > 0 then [quotaMutationLockIndex BatchUpdateTypeUserQuota userID] else [])
                  @ (if tokenID > 0 then [quotaMutationLockIndex BatchUpdateTypeTokenQuota tokenID] else [])
      in uniqueIndexes [] (sort indexes))"

section \<open>The batch updater's stores\<close>

definition pendingDelta :: "world \<Rightarrow> BatchUpdateType \<Rightarrow> int \<Rightarrow> int" where
  "pendingDelta w ty i = (case map_of (batchUpdateStores w ty) i of None \<Rightarrow> 0 | Some v \<Rightarrow> v)"

definition addNewRecord :: "BatchUpdateType \<Rightarrow> int \<Rightarrow> int \<Rightarrow> unit goM" where
  "addNewRecord ty i v = modifyM (\<lambda>w.
     w\<lparr>batchUpdateStores := (batchUpdateStores w)
         (ty := AList.update i
            (case map_of (batchUpdateStores w ty) i of None \<Rightarrow> v | Some old \<Rightarrow> old + v)
            (batchUpdateStores w ty))\<rparr>)"

definition takePendingQuotaDelta :: "BatchUpdateType \<Rightarrow> int \<Rightarrow> int goM" where
  "takePendingQuotaDelta ty i =
     (if i \<le> 0 then retM 0
      else bindM (getsM (\<lambda>w. pendingDelta w ty i)) (\<lambda>delta.
           seqM (modifyM (\<lambda>w. w\<lparr>batchUpdateStores := (batchUpdateStores w)
                   (ty := AList.delete i (batchUpdateStores w ty))\<rparr>))
             (retM delta)))"

section \<open>User and token rows\<close>

definition increaseUserQuota :: "int \<Rightarrow> int \<Rightarrow> unit goM" where
  "increaseUserQuota i quota =
     bindM (updUser i (\<lambda>_. True) (\<lambda>r. r\<lparr>uQuota := uQuota r + quota\<rparr>)) (\<lambda>_. retM ())"

definition decreaseUserQuota :: "int \<Rightarrow> int \<Rightarrow> unit goM" where
  "decreaseUserQuota i quota =
     bindM (updUser i (\<lambda>_. True) (\<lambda>r. r\<lparr>uQuota := uQuota r - quota\<rparr>)) (\<lambda>_. retM ())"

text \<open>The column updates that every token statement makes.\<close>

definition addTokenQuota :: "int \<Rightarrow> int \<Rightarrow> Token \<Rightarrow> Token" where
  "addTokenQuota now delta r =
     r\<lparr>tRemainQuota := tRemainQuota r + delta, tUsedQuota := tUsedQuota r - delta,
       tAccessedTime := now\<rparr>"

definition increaseTokenQuota :: "int \<Rightarrow> int \<Rightarrow> unit goM" where
  "increaseTokenQuota i quota = bindM nowM (\<lambda>now.
     bindM (updToken i (\<lambda>_. True) (addTokenQuota now quota)) (\<lambda>_. retM ()))"

definition decreaseTokenQuota :: "int \<Rightarrow> int \<Rightarrow> unit goM" where
  "decreaseTokenQuota i quota = bindM nowM (\<lambda>now.
     bindM (updToken i (\<lambda>_. True) (addTokenQuota now (- quota))) (\<lambda>_. retM ()))"

definition updateChannelUsedQuota :: "int \<Rightarrow> int \<Rightarrow> unit goM" where
  "updateChannelUsedQuota i quota = ignoreM (execM (\<lambda>d. case channelsUsed d i of
      Some q \<Rightarrow> (1, d\<lparr>channelsUsed := (channelsUsed d)(i \<mapsto> q + quota)\<rparr>)
    | None \<Rightarrow> (0, d)))"

definition UpdateChannelUsedQuota :: "int \<Rightarrow> int \<Rightarrow> unit goM" where
  "UpdateChannelUsedQuota i quota = bindM (getsM BatchUpdateEnabled) (\<lambda>b.
     if b then addNewRecord BatchUpdateTypeChannelUsedQuota i quota
     else updateChannelUsedQuota i quota)"

definition updateUserUsedQuotaAndRequestCount :: "int \<Rightarrow> int \<Rightarrow> int \<Rightarrow> unit goM" where
  "updateUserUsedQuotaAndRequestCount i quota requests =
     ignoreM (updUser i (\<lambda>_. True) (\<lambda>r. r\<lparr>uUsedQuota := uUsedQuota r + quota,
                                            uRequestCount := uRequestCount r + requests\<rparr>))"

definition updateUserQuotaUsedQuotaAndRequestCount :: "int \<Rightarrow> int \<Rightarrow> int \<Rightarrow> int \<Rightarrow> unit goM" where
  "updateUserQuotaUsedQuotaAndRequestCount i quota usedQuota requestCount =
     (if quota = 0 \<and> usedQuota = 0 \<and> requestCount = 0 then retM ()
      else ignoreM (updUser i (\<lambda>_. True)
        (\<lambda>r. r\<lparr>uQuota := uQuota r + quota, uUsedQuota := uUsedQuota r + usedQuota,
                uRequestCount := uRequestCount r + requestCount\<rparr>)))"

definition UpdateUserUsedQuotaAndRequestCount :: "int \<Rightarrow> int \<Rightarrow> unit goM" where
  "UpdateUserUsedQuotaAndRequestCount i quota = bindM (getsM BatchUpdateEnabled) (\<lambda>b.
     if b then seqM (addNewRecord BatchUpdateTypeUsedQuota i quota)
                    (addNewRecord BatchUpdateTypeRequestCount i 1)
     else updateUserUsedQuotaAndRequestCount i quota 1)"

definition UpdateUserUsedQuota :: "int \<Rightarrow> int \<Rightarrow> unit goM" where
  "UpdateUserUsedQuota i quota = bindM (getsM BatchUpdateEnabled) (\<lambda>b.
     if b then addNewRecord BatchUpdateTypeUsedQuota i quota
     else ignoreM (updUser i (\<lambda>_. True) (\<lambda>r. r\<lparr>uUsedQuota := uUsedQuota r + quota\<rparr>)))"

text \<open>
  \<open>batchUpdate\<close>: the stores are swapped for empty ones and then written out.  The iteration
  order of a Go map is unspecified; the model takes the order of the association list.
\<close>

definition storeDelta :: "(int \<times> int) list \<Rightarrow> int \<Rightarrow> int" where
  "storeDelta s i = (case map_of s i of None \<Rightarrow> 0 | Some v \<Rightarrow> v)"

definition batchUpdate :: "unit goM" where
  "batchUpdate = bindM (getsM batchUpdateStores) (\<lambda>stores.
     if \<forall>ty \<in> {BatchUpdateTypeUserQuota, BatchUpdateTypeTokenQuota, BatchUpdateTypeUsedQuota,
               BatchUpdateTypeChannelUsedQuota, BatchUpdateTypeRequestCount}. stores ty = []
     then retM ()
     else seqM (modifyM (\<lambda>w. w\<lparr>batchUpdateStores := (\<lambda>_. [])\<rparr>))
         (seqM (foldM (\<lambda>_ kv. ignoreM (increaseTokenQuota (fst kv) (snd kv))) ()
                  (stores BatchUpdateTypeTokenQuota))
         (seqM (foldM (\<lambda>_ kv. updateChannelUsedQuota (fst kv) (snd kv)) ()
                  (stores BatchUpdateTypeChannelUsedQuota))
               (foldM (\<lambda>_ key. updateUserQuotaUsedQuotaAndRequestCount key
                          (storeDelta (stores BatchUpdateTypeUserQuota) key)
                          (storeDelta (stores BatchUpdateTypeUsedQuota) key)
                          (storeDelta (stores BatchUpdateTypeRequestCount) key)) ()
                  (remdups (map fst (stores BatchUpdateTypeUserQuota)
                    @ map fst (stores BatchUpdateTypeUsedQuota)
                    @ map fst (stores BatchUpdateTypeRequestCount)))))))"

section \<open>Cached balances (quota_reserve.go)\<close>

datatype cacheQuotaResult =
  cacheQuotaInsufficient | cacheQuotaOK | cacheQuotaMiss | cacheQuotaFenced

definition quotaMutationFenceSeconds :: int where
  "quotaMutationFenceSeconds = 10"

definition tokenCacheFenceSeconds :: int where
  "tokenCacheFenceSeconds = 10"

definition userCacheSchemaVersion :: int where
  "userCacheSchemaVersion = 2"

text \<open>The time to live of the user and token hashes.\<close>

definition userCacheTTLSeconds :: "world \<Rightarrow> int" where
  "userCacheTTLSeconds w = (if RedisKeyCacheSeconds w \<le> 0 then 60 else RedisKeyCacheSeconds w)"

definition tokenCacheTTLSeconds :: "world \<Rightarrow> int" where
  "tokenCacheTTLSeconds w = (if RedisKeyCacheSeconds w \<le> 0 then 60 else RedisKeyCacheSeconds w)"

definition invalidateUserQuotaCacheForMutation :: "int \<Rightarrow> unit goM" where
  "invalidateUserQuotaCacheForMutation userID = bindM (getsM RedisEnabled) (\<lambda>enabled.
     if \<not> enabled \<or> userID \<le> 0 then retM ()
     else bindM nowM (\<lambda>now.
       seqM (redisM (\<lambda>r. ((), r\<lparr>userFence := (userFence r)(userID \<mapsto> now + quotaMutationFenceSeconds)\<rparr>)))
            (redisM (\<lambda>r. ((), r\<lparr>userHash := (userHash r)(userID := None)\<rparr>)))))"

definition invalidateTokenCacheForMutation :: "string \<Rightarrow> unit goM" where
  "invalidateTokenCacheForMutation key = bindM (getsM RedisEnabled) (\<lambda>enabled.
     if \<not> enabled \<or> key = [] then retM ()
     else bindM nowM (\<lambda>now.
       seqM (redisM (\<lambda>r. ((), r\<lparr>tokenFence := (tokenFence r)(key \<mapsto> now + tokenCacheFenceSeconds)\<rparr>)))
            (redisM (\<lambda>r. ((), r\<lparr>tokenHash := (tokenHash r)(key := None)\<rparr>)))))"

text \<open>
  The four Lua scripts.  A missing hash has no \<open>Id\<close> and no quota field, so every script
  returns \<open>-1\<close> on it.
\<close>

definition userQuotaReserveScript :: "int \<Rightarrow> int \<Rightarrow> int \<Rightarrow> redis \<Rightarrow> int \<times> redis" where
  "userQuotaReserveScript now userID amount r =
     (if fenced now (userFence r userID) then (- 2, r)
      else case userHash r userID of
        None \<Rightarrow> (- 1, r)
      | Some (h, expiry) \<Rightarrow>
          if \<not> now < expiry \<or> ubId h \<noteq> userID \<or> ubCacheSchema h \<noteq> userCacheSchemaVersion
          then (- 1, r)
          else case ubQuota h of
            None \<Rightarrow> (- 1, r)
          | Some quota \<Rightarrow>
              if quota < amount then (0, r)
              else (1, r\<lparr>userHash := (userHash r)
                          (userID \<mapsto> (h\<lparr>ubQuota := Some (quota - amount)\<rparr>, expiry))\<rparr>))"

definition userQuotaDeltaScript :: "int \<Rightarrow> int \<Rightarrow> int \<Rightarrow> redis \<Rightarrow> int \<times> redis" where
  "userQuotaDeltaScript now userID delta r =
     (if fenced now (userFence r userID) then (- 2, r)
      else case userHash r userID of
        None \<Rightarrow> (- 1, r)
      | Some (h, expiry) \<Rightarrow>
          if \<not> now < expiry \<or> ubId h \<noteq> userID \<or> ubCacheSchema h \<noteq> userCacheSchemaVersion
          then (- 1, r)
          else case ubQuota h of
            None \<Rightarrow> (- 1, r)
          | Some quota \<Rightarrow>
              (1, r\<lparr>userHash := (userHash r)
                      (userID \<mapsto> (h\<lparr>ubQuota := Some (quota + delta)\<rparr>, expiry))\<rparr>))"

definition tokenQuotaReserveScript :: "int \<Rightarrow> int \<Rightarrow> string \<Rightarrow> int \<Rightarrow> redis \<Rightarrow> int \<times> redis" where
  "tokenQuotaReserveScript now i key amount r =
     (if fenced now (tokenFence r key) then (- 2, r)
      else case tokenHash r key of
        None \<Rightarrow> (- 1, r)
      | Some (h, expiry) \<Rightarrow>
          if \<not> now < expiry \<or> tId h \<noteq> i then (- 1, r)
          else if tRemainQuota h < amount then (0, r)
          else (1, r\<lparr>tokenHash := (tokenHash r)(key \<mapsto> (addTokenQuota now (- amount) h, expiry))\<rparr>))"

definition tokenQuotaDeltaScript :: "int \<Rightarrow> int \<Rightarrow> string \<Rightarrow> int \<Rightarrow> redis \<Rightarrow> int \<times> redis" where
  "tokenQuotaDeltaScript now i key delta r =
     (if fenced now (tokenFence r key) then (- 2, r)
      else case tokenHash r key of
        None \<Rightarrow> (- 1, r)
      | Some (h, expiry) \<Rightarrow>
          if \<not> now < expiry \<or> tId h \<noteq> i then (- 1, r)
          else (1, r\<lparr>tokenHash := (tokenHash r)(key \<mapsto> (addTokenQuota now delta h, expiry))\<rparr>))"

definition quotaResultFromLua :: "int \<Rightarrow> cacheQuotaResult" where
  "quotaResultFromLua result =
     (if result = 1 then cacheQuotaOK
      else if result = 0 then cacheQuotaInsufficient
      else if result = - 2 then cacheQuotaFenced
      else cacheQuotaMiss)"

definition cacheTryReserveUserQuota :: "int \<Rightarrow> int \<Rightarrow> cacheQuotaResult goM" where
  "cacheTryReserveUserQuota userID amount = bindM nowM (\<lambda>now.
     bindM (redisM (userQuotaReserveScript now userID amount)) (\<lambda>r. retM (quotaResultFromLua r)))"

definition cacheApplyUserQuotaDelta :: "int \<Rightarrow> int \<Rightarrow> cacheQuotaResult goM" where
  "cacheApplyUserQuotaDelta userID delta = bindM nowM (\<lambda>now.
     bindM (redisM (userQuotaDeltaScript now userID delta)) (\<lambda>r. retM (quotaResultFromLua r)))"

definition cacheTryReserveTokenQuota :: "int \<Rightarrow> string \<Rightarrow> int \<Rightarrow> cacheQuotaResult goM" where
  "cacheTryReserveTokenQuota i key amount = bindM nowM (\<lambda>now.
     bindM (redisM (tokenQuotaReserveScript now i key amount)) (\<lambda>r. retM (quotaResultFromLua r)))"

definition cacheApplyTokenQuotaDelta :: "int \<Rightarrow> string \<Rightarrow> int \<Rightarrow> cacheQuotaResult goM" where
  "cacheApplyTokenQuotaDelta i key delta = bindM nowM (\<lambda>now.
     bindM (redisM (tokenQuotaDeltaScript now i key delta)) (\<lambda>r. retM (quotaResultFromLua r)))"

definition cacheIncrUserQuota :: "int \<Rightarrow> int \<Rightarrow> unit goM" where
  "cacheIncrUserQuota userID delta = bindM (getsM RedisEnabled) (\<lambda>enabled.
     if \<not> enabled then retM () else bindM (cacheApplyUserQuotaDelta userID delta) (\<lambda>_. retM ()))"

text \<open>A goroutine queued on the pool, run later: its error is only logged.\<close>

definition goAsync :: "AsyncTask \<Rightarrow> unit goM" where
  "goAsync t = modifyM (\<lambda>w. w\<lparr>async := async w @ [t]\<rparr>)"

fun runTask :: "AsyncTask \<Rightarrow> unit goM" where
  "runTask (AsyncUserQuotaDelta i delta) = ignoreM (cacheIncrUserQuota i delta)"
| "runTask (AsyncTokenQuotaDelta i key delta) = ignoreM (cacheApplyTokenQuotaDelta i key delta)"

section \<open>The user and token caches\<close>

definition ToBaseUser :: "int \<Rightarrow> User \<Rightarrow> UserBase" where
  "ToBaseUser i u = \<lparr>ubId = i, ubGroup = uGroup u, ubEmail = uEmail u, ubQuota = Some (uQuota u),
     ubStatus = uStatus u, ubRole = uRole u, ubUsername = uUsername u, ubSetting = uSetting u,
     ubAuthVersion = uAuthVersion u, ubCacheSchema = userCacheSchemaVersion\<rparr>"

text \<open>
  The script of \<open>writeUserCache\<close>: it refuses a snapshot older than the auth version floor,
  refreshes the fields other than the quota, and sets the quota only when the hash has none.
\<close>

definition writeUserCacheScript ::
  "int \<Rightarrow> int \<Rightarrow> UserBase \<Rightarrow> bool \<Rightarrow> redis \<Rightarrow> int \<times> redis" where
  "writeUserCacheScript now ttl u includeQuota r =
     (let i = ubId u; incoming = ubAuthVersion u;
          pending = (case live now (authFence r i) of None \<Rightarrow> 0 | Some v \<Rightarrow> v);
          committed = (case authVersionKey r i of None \<Rightarrow> 0 | Some v \<Rightarrow> v);
          hash = live now (userHash r i);
          current = (case hash of None \<Rightarrow> 0 | Some h \<Rightarrow> ubAuthVersion h)
      in if pending > incoming \<or> committed > incoming \<or> current > incoming then (0, r)
      else
        let r1 = (if committed < incoming
                  then r\<lparr>authVersionKey := (authVersionKey r)(i \<mapsto> incoming)\<rparr> else r);
            r2 = (if pending > 0 \<and> pending \<le> incoming
                  then r1\<lparr>authFence := (authFence r1)(i := None)\<rparr> else r1)
        in if \<not> includeQuota \<and> hash = None then (1, r2)
        else
          let old = (case hash of None \<Rightarrow> None | Some h \<Rightarrow> ubQuota h);
              quota = (if includeQuota \<and> old = None then ubQuota u else old)
          in (1, r2\<lparr>userHash := (userHash r2)(i \<mapsto> (u\<lparr>ubQuota := quota\<rparr>, now + ttl))\<rparr>))"

definition writeUserCache :: "UserBase \<Rightarrow> bool \<Rightarrow> unit goM" where
  "writeUserCache user includeQuota = bindM (getsM RedisEnabled) (\<lambda>enabled.
     if ubId user \<le> 0 \<or> \<not> enabled then retM ()
     else let u = user\<lparr>ubCacheSchema := userCacheSchemaVersion\<rparr> in
       if ubAuthVersion u \<le> 0 then throwM (ErrText ''invalid user auth version'')
       else bindM nowM (\<lambda>now. bindM (getsM userCacheTTLSeconds) (\<lambda>ttl.
         bindM (redisM (writeUserCacheScript now ttl u includeQuota)) (\<lambda>result.
           if result = 0 then throwM ErrUserAuthCachePending else retM ()))))"

definition getUserAuthVersionFloor :: "int \<Rightarrow> int goM" where
  "getUserAuthVersionFloor userId = bindM (getsM RedisEnabled) (\<lambda>enabled.
     if \<not> enabled then retM 0
     else bindM nowM (\<lambda>now. redisM (\<lambda>r.
       (max 0 (max (case live now (authFence r userId) of None \<Rightarrow> 0 | Some v \<Rightarrow> v)
                   (case authVersionKey r userId of None \<Rightarrow> 0 | Some v \<Rightarrow> v)), r))))"

definition cacheGetUserBase :: "int \<Rightarrow> UserBase goM" where
  "cacheGetUserBase userId = bindM (getsM RedisEnabled) (\<lambda>enabled.
     if \<not> enabled then throwM (ErrText ''redis is not enabled'')
     else bindM nowM (\<lambda>now. bindM (redisM (\<lambda>r. (live now (userHash r userId), r))) (\<lambda>h.
       case h of
         None \<Rightarrow> throwM (ErrText ''key not found in Redis'')
       | Some u \<Rightarrow>
           if ubId u \<noteq> userId \<or> ubCacheSchema u \<noteq> userCacheSchemaVersion \<or> ubAuthVersion u \<le> 0
           then throwM (ErrText ''user cache schema is stale'')
           else bindM (getUserAuthVersionFloor userId) (\<lambda>floor.
             if floor > ubAuthVersion u then throwM ErrUserAuthCachePending else retM u))))"

definition GetUserById :: "int \<Rightarrow> User goM" where
  "GetUserById i = (if i = 0 then throwM (ErrText ''empty id'') else firstM (\<lambda>d. users d i))"

definition GetUserCache :: "int \<Rightarrow> UserBase goM" where
  "GetUserCache userId = bindM (tryM (cacheGetUserBase userId)) (\<lambda>c.
     case c of
       Inr u \<Rightarrow> retM u
     | Inl _ \<Rightarrow> bindM (GetUserById userId) (\<lambda>user.
         bindM (getsM RedisEnabled) (\<lambda>enabled.
           if \<not> enabled then retM (ToBaseUser userId user)
           else bindM (tryM (getUserAuthVersionFloor userId)) (\<lambda>floor.
             case floor of
               Inr f \<Rightarrow>
                 if f > uAuthVersion user then throwM ErrUserAuthCachePending
                 else bindM (tryM (writeUserCache (ToBaseUser userId user) True)) (\<lambda>p.
                   case p of
                     Inl e \<Rightarrow> if errIs e ErrUserAuthCachePending then throwM e
                              else retM (ToBaseUser userId user)
                   | Inr _ \<Rightarrow> retM (ToBaseUser userId user))
             | Inl _ \<Rightarrow> bindM (tryM (writeUserCache (ToBaseUser userId user) True)) (\<lambda>p.
                   case p of
                     Inl e \<Rightarrow> if errIs e ErrUserAuthCachePending then throwM e
                              else retM (ToBaseUser userId user)
                   | Inr _ \<Rightarrow> retM (ToBaseUser userId user))))))"

definition GetUserQuota :: "int \<Rightarrow> bool \<Rightarrow> int goM" where
  "GetUserQuota i fromDB = bindM (getsM RedisEnabled) (\<lambda>enabled.
     if \<not> fromDB \<and> enabled
     then bindM (GetUserCache i) (\<lambda>c. retM (case ubQuota c of None \<Rightarrow> 0 | Some q \<Rightarrow> q))
     else findM (\<lambda>d. case users d i of None \<Rightarrow> 0 | Some u \<Rightarrow> uQuota u))"

definition cacheInitTokenScript :: "int \<Rightarrow> int \<Rightarrow> Token \<Rightarrow> redis \<Rightarrow> int \<times> redis" where
  "cacheInitTokenScript now ttl token r =
     (if fenced now (tokenFence r (tKey token)) then (0, r)
      else case live now (tokenHash r (tKey token)) of
        Some h \<Rightarrow> (2, r\<lparr>tokenHash := (tokenHash r)(tKey token \<mapsto> (h, now + ttl))\<rparr>)
      | None \<Rightarrow> (1, r\<lparr>tokenHash := (tokenHash r)(tKey token \<mapsto> (token, now + ttl))\<rparr>))"

definition cacheInitToken :: "Token \<Rightarrow> int goM" where
  "cacheInitToken token = bindM (getsM RedisEnabled) (\<lambda>enabled.
     if \<not> enabled then retM 0
     else bindM nowM (\<lambda>now. bindM (getsM tokenCacheTTLSeconds) (\<lambda>ttl.
       redisM (cacheInitTokenScript now ttl token))))"

definition cacheGetTokenByKey :: "string \<Rightarrow> Token goM" where
  "cacheGetTokenByKey key = bindM (getsM RedisEnabled) (\<lambda>enabled.
     if \<not> enabled then throwM (ErrText ''redis is not enabled'')
     else bindM nowM (\<lambda>now. bindM (redisM (\<lambda>r. (live now (tokenHash r key), r))) (\<lambda>h.
       case h of
         None \<Rightarrow> throwM (ErrText ''key not found in Redis'')
       | Some t \<Rightarrow> if tId t \<le> 0 then throwM (ErrText ''token cache is incomplete'')
                   else retM (t\<lparr>tKey := key\<rparr>))))"

definition tokenByKey :: "db \<Rightarrow> string \<Rightarrow> Token option" where
  "tokenByKey d key = (case tokenKeys d key of None \<Rightarrow> None | Some i \<Rightarrow> tokens d i)"

definition GetTokenByKey :: "string \<Rightarrow> bool \<Rightarrow> Token goM" where
  "GetTokenByKey key fromDB = bindM (getsM RedisEnabled) (\<lambda>enabled.
     bindM (if \<not> fromDB \<and> enabled then tryM (cacheGetTokenByKey key) else retM (Inl ErrRecordNotFound)) (\<lambda>c.
       case c of
         Inr t \<Rightarrow> retM t
       | Inl _ \<Rightarrow> bindM (firstM (\<lambda>d. tokenByKey d key)) (\<lambda>token.
           if enabled then bindM (tryM (cacheInitToken token)) (\<lambda>_. retM token)
           else retM token)))"

section \<open>Reservations\<close>

definition persistUserQuotaDelta :: "int \<Rightarrow> int \<Rightarrow> unit goM" where
  "persistUserQuotaDelta i delta = bindM (getsM BatchUpdateEnabled) (\<lambda>b.
     if b then addNewRecord BatchUpdateTypeUserQuota i delta
     else bindM (updUser i (\<lambda>_. True) (\<lambda>r. r\<lparr>uQuota := uQuota r + delta\<rparr>)) (\<lambda>n.
       if n \<noteq> 1 then throwM ErrRecordNotFound else retM ()))"

definition persistTokenQuotaDelta :: "int \<Rightarrow> int \<Rightarrow> unit goM" where
  "persistTokenQuotaDelta i delta = bindM (getsM BatchUpdateEnabled) (\<lambda>b.
     if b then addNewRecord BatchUpdateTypeTokenQuota i delta
     else bindM nowM (\<lambda>now. bindM (updToken i (\<lambda>_. True) (addTokenQuota now delta)) (\<lambda>n.
       if n \<noteq> 1 then throwM ErrRecordNotFound else retM ())))"

definition reserveUserQuotaDB :: "int \<Rightarrow> int \<Rightarrow> bool goM" where
  "reserveUserQuotaDB i quota =
     bindM (updUser i (\<lambda>r. uQuota r \<ge> quota) (\<lambda>r. r\<lparr>uQuota := uQuota r - quota\<rparr>))
       (\<lambda>n. retM (n = 1))"

definition reserveTokenQuotaDB :: "int \<Rightarrow> int \<Rightarrow> bool goM" where
  "reserveTokenQuotaDB i quota = bindM nowM (\<lambda>now.
     bindM (updToken i (\<lambda>r. tRemainQuota r \<ge> quota) (addTokenQuota now (- quota)))
       (\<lambda>n. retM (n = 1)))"

definition errNegativeQuota :: err where
  "errNegativeQuota = ErrText ''quota must not be negative''"

definition TryReserveUserQuota :: "int \<Rightarrow> int \<Rightarrow> bool goM" where
  "TryReserveUserQuota i quota =
     (if quota < 0 then throwM errNegativeQuota
      else if quota = 0 then retM True
      else bindM (getsM RedisEnabled) (\<lambda>enabled.
        if \<not> enabled then reserveUserQuotaDB i quota
        else bindM (tryM (cacheTryReserveUserQuota i quota)) (\<lambda>first.
          bindM (if first = Inr cacheQuotaMiss
                 then bindM (tryM (GetUserCache i)) (\<lambda>h.
                   case h of Inr _ \<Rightarrow> tryM (cacheTryReserveUserQuota i quota) | Inl _ \<Rightarrow> retM first)
                 else retM first) (\<lambda>result.
            case result of
              Inl _ \<Rightarrow> reserveUserQuotaDB i quota
            | Inr cacheQuotaMiss \<Rightarrow> reserveUserQuotaDB i quota
            | Inr cacheQuotaFenced \<Rightarrow> reserveUserQuotaDB i quota
            | Inr cacheQuotaInsufficient \<Rightarrow> retM False
            | Inr cacheQuotaOK \<Rightarrow>
                bindM (tryM (persistUserQuotaDelta i (- quota))) (\<lambda>p.
                  case p of
                    Inl e \<Rightarrow> seqM (ignoreM (cacheApplyUserQuotaDelta i quota)) (throwM e)
                  | Inr _ \<Rightarrow> retM True)))))"

definition IncreaseUserQuota :: "int \<Rightarrow> int \<Rightarrow> bool \<Rightarrow> unit goM" where
  "IncreaseUserQuota i quota useDB =
     (if quota < 0 then throwM errNegativeQuota
      else seqM (goAsync (AsyncUserQuotaDelta i quota))
        (bindM (getsM BatchUpdateEnabled) (\<lambda>b.
          if \<not> useDB \<and> b then addNewRecord BatchUpdateTypeUserQuota i quota
          else increaseUserQuota i quota)))"

definition DecreaseUserQuota :: "int \<Rightarrow> int \<Rightarrow> bool \<Rightarrow> unit goM" where
  "DecreaseUserQuota i quota useDB =
     (if quota < 0 then throwM errNegativeQuota
      else seqM (goAsync (AsyncUserQuotaDelta i (- quota)))
        (bindM (getsM BatchUpdateEnabled) (\<lambda>b.
          if \<not> useDB \<and> b then addNewRecord BatchUpdateTypeUserQuota i (- quota)
          else decreaseUserQuota i quota)))"

definition DeltaUpdateUserQuota :: "int \<Rightarrow> int \<Rightarrow> unit goM" where
  "DeltaUpdateUserQuota i delta =
     (if delta = 0 then retM ()
      else if delta > 0 then IncreaseUserQuota i delta False
      else DecreaseUserQuota i (- delta) False)"

definition IncreaseTokenQuota :: "int \<Rightarrow> string \<Rightarrow> int \<Rightarrow> unit goM" where
  "IncreaseTokenQuota i key quota =
     (if quota < 0 then throwM errNegativeQuota
      else bindM (getsM RedisEnabled) (\<lambda>enabled.
        seqM (whenM enabled (goAsync (AsyncTokenQuotaDelta i key quota)))
          (bindM (getsM BatchUpdateEnabled) (\<lambda>b.
            if b then addNewRecord BatchUpdateTypeTokenQuota i quota
            else increaseTokenQuota i quota))))"

definition DecreaseTokenQuota :: "int \<Rightarrow> string \<Rightarrow> int \<Rightarrow> unit goM" where
  "DecreaseTokenQuota i key quota =
     (if quota < 0 then throwM errNegativeQuota
      else bindM (getsM RedisEnabled) (\<lambda>enabled.
        seqM (whenM enabled (goAsync (AsyncTokenQuotaDelta i key (- quota))))
          (bindM (getsM BatchUpdateEnabled) (\<lambda>b.
            if b then addNewRecord BatchUpdateTypeTokenQuota i (- quota)
            else decreaseTokenQuota i quota))))"

definition TryReserveTokenQuota :: "int \<Rightarrow> string \<Rightarrow> int \<Rightarrow> bool \<Rightarrow> bool goM" where
  "TryReserveTokenQuota i key quota unlimited =
     (if quota < 0 then throwM errNegativeQuota
      else if quota = 0 then retM True
      else if unlimited then seqM (DecreaseTokenQuota i key quota) (retM True)
      else bindM (getsM RedisEnabled) (\<lambda>enabled.
        if \<not> enabled then reserveTokenQuotaDB i quota
        else bindM (tryM (cacheTryReserveTokenQuota i key quota)) (\<lambda>first.
          bindM (if first = Inr cacheQuotaMiss
                 then bindM (tryM (GetTokenByKey key True)) (\<lambda>h.
                   case h of Inr _ \<Rightarrow> tryM (cacheTryReserveTokenQuota i key quota) | Inl _ \<Rightarrow> retM first)
                 else retM first) (\<lambda>result.
            case result of
              Inl _ \<Rightarrow> reserveTokenQuotaDB i quota
            | Inr cacheQuotaMiss \<Rightarrow> reserveTokenQuotaDB i quota
            | Inr cacheQuotaFenced \<Rightarrow> reserveTokenQuotaDB i quota
            | Inr cacheQuotaInsufficient \<Rightarrow> retM False
            | Inr cacheQuotaOK \<Rightarrow>
                bindM (tryM (persistTokenQuotaDelta i (- quota))) (\<lambda>p.
                  case p of
                    Inl e \<Rightarrow> seqM (ignoreM (cacheApplyTokenQuotaDelta i key quota)) (throwM e)
                  | Inr _ \<Rightarrow> retM True)))))"

section \<open>Locks are taken in ascending order\<close>

lemma quotaMutationLockIndex_range:
  "0 \<le> quotaMutationLockIndex ty i" "quotaMutationLockIndex ty i < quotaMutationLockStripes"
  by (simp_all add: quotaMutationLockIndex_def quotaMutationLockStripes_def Let_def)

lemma uniqueIndexes_ascending:
  assumes "sorted_wrt (<) unique" "sorted rest" "\<And>x y. x \<in> set unique \<Longrightarrow> y \<in> set rest \<Longrightarrow> x \<le> y"
  shows "sorted_wrt (<) (uniqueIndexes unique rest) \<and>
         set (uniqueIndexes unique rest) = set unique \<union> set rest"
  using assms
proof (induction unique rest rule: uniqueIndexes.induct)
  case (2 unique index rest)
  have lt: "x < index" if "x \<in> set unique" "unique = [] \<or> last unique \<noteq> index" for x
  proof -
    from that have ne: "unique \<noteq> []" "last unique \<noteq> index" by auto
    then have "last unique < index" using "2.prems"(3) [of "last unique" index] by simp
    moreover have "x \<le> last unique"
      using "2.prems"(1) that(1) ne(1) by (cases unique rule: rev_cases) (auto simp: sorted_wrt_append)
    ultimately show ?thesis by simp
  qed
  show ?case
  proof (cases "unique = [] \<or> last unique \<noteq> index")
    case True
    with "2.IH"(1) [OF True] "2.prems" lt show ?thesis
      by (auto simp: sorted_wrt_append)
  next
    case False
    then have "index \<in> set unique" by auto
    with False "2.IH"(2) "2.prems" show ?thesis by auto
  qed
qed simp

lemma lockQuotaMutationResources_ascending:
  "sorted_wrt (<) (lockQuotaMutationResources userID tokenID)"
  unfolding lockQuotaMutationResources_def Let_def
  by (rule conjunct1 [OF uniqueIndexes_ascending]) simp_all

lemma set_lockQuotaMutationResources:
  "set (lockQuotaMutationResources userID tokenID) =
     (if userID > 0 then {quotaMutationLockIndex BatchUpdateTypeUserQuota userID} else {}) \<union>
     (if tokenID > 0 then {quotaMutationLockIndex BatchUpdateTypeTokenQuota tokenID} else {})"
  unfolding lockQuotaMutationResources_def Let_def
  by (subst conjunct2 [OF uniqueIndexes_ascending]) auto

text \<open>
  The locks a quota mutation takes, in order: its stripes and then, where it drains or flushes
  the batch stores, \<open>quotaBatchMutationLock\<close>, numbered after the stripes.
\<close>

definition mutationLocks :: "int \<Rightarrow> int \<Rightarrow> bool \<Rightarrow> int list" where
  "mutationLocks userID tokenID drains =
     lockQuotaMutationResources userID tokenID @ (if drains then [quotaMutationLockStripes] else [])"

text \<open>A thread has taken the first \<open>n\<close> locks of its list and waits for the next one.\<close>

definition heldLocks :: "int list \<times> nat \<Rightarrow> int set" where
  "heldLocks t = set (take (snd t) (fst t))"

lemma mutationLocks_ascending: "sorted_wrt (<) (mutationLocks userID tokenID drains)"
  using lockQuotaMutationResources_ascending quotaMutationLockIndex_range
  by (auto simp: mutationLocks_def sorted_wrt_append set_lockQuotaMutationResources split: if_splits)

lemma held_less_next:
  assumes "sorted_wrt (<) plan" "n < length plan" "l \<in> set (take n plan)"
  shows "l < plan ! n"
  using assms by (auto simp: in_set_conv_nth sorted_wrt_nth_less)

text \<open>
  C15. The striped locks cannot deadlock: whatever user, token and batch locks the running quota
  mutations want and however far each has come, some thread holds all of its locks or waits for
  a lock nobody holds.
\<close>

theorem quota_locks_progress:
  assumes "threads \<noteq> []"
    and "\<And>t. t \<in> set threads \<Longrightarrow> \<exists>u k b. fst t = mutationLocks u k b"
  shows "\<exists>t \<in> set threads. snd t \<ge> length (fst t) \<or>
           (\<forall>t' \<in> set threads. fst t ! snd t \<notin> heldLocks t')"
proof (rule ccontr)
  assume stuck: "\<not> ?thesis"
  let ?next = "\<lambda>t. fst t ! snd t"
  have fin: "finite (?next ` set threads)" "?next ` set threads \<noteq> {}"
    using assms(1) by simp_all
  from Max_in [OF fin] obtain t where t: "t \<in> set threads" "?next t = Max (?next ` set threads)"
    by auto
  with stuck obtain t' where t': "t' \<in> set threads" "?next t \<in> heldLocks t'"
    by blast
  from stuck t'(1) have "snd t' < length (fst t')" by (meson linorder_not_le)
  moreover obtain u k b where "fst t' = mutationLocks u k b"
    using assms(2) [OF t'(1)] by blast
  ultimately have "?next t < ?next t'"
    using t'(2) held_less_next [OF mutationLocks_ascending [of u k b], of "snd t'" "?next t"]
    by (simp add: heldLocks_def)
  moreover have "?next t' \<le> ?next t"
    unfolding t(2) using t'(1) by simp
  ultimately show False by simp
qed

theorem quota_locks_progress_witness:
  "\<exists>t \<in> set [(mutationLocks 7 9 True, 1), (mutationLocks 0 9 False, 0), (mutationLocks 0 0 True, 1)].
     snd t \<ge> length (fst t) \<or>
     (\<forall>t' \<in> set [(mutationLocks 7 9 True, 1), (mutationLocks 0 9 False, 0), (mutationLocks 0 0 True, 1)].
        fst t ! snd t \<notin> heldLocks t')"
  by (rule quota_locks_progress) (simp, fastforce)

section \<open>Balances\<close>

definition rowQuota :: "db \<Rightarrow> int \<Rightarrow> int" where
  "rowQuota d i = (case users d i of None \<Rightarrow> 0 | Some r \<Rightarrow> uQuota r)"

definition rowRemain :: "db \<Rightarrow> int \<Rightarrow> int" where
  "rowRemain d i = (case tokens d i of None \<Rightarrow> 0 | Some r \<Rightarrow> tRemainQuota r)"

definition userBal :: "world \<Rightarrow> int \<Rightarrow> int" where
  "userBal w i = rowQuota (db w) i + pendingDelta w BatchUpdateTypeUserQuota i"

definition tokenBal :: "world \<Rightarrow> int \<Rightarrow> int" where
  "tokenBal w i = rowRemain (db w) i + pendingDelta w BatchUpdateTypeTokenQuota i"

lemma pendingDelta_upd [simp]:
  "pendingDelta (tick w) = pendingDelta w" "pendingDelta (w\<lparr>db := d\<rparr>) = pendingDelta w"
  "pendingDelta (w\<lparr>rds := r\<rparr>) = pendingDelta w" "pendingDelta (w\<lparr>rops := n\<rparr>) = pendingDelta w"
  "pendingDelta (w\<lparr>async := a\<rparr>) = pendingDelta w"
  by (simp_all add: pendingDelta_def fun_eq_iff)

lemma wp_addNewRecord [wp_simps]:
  "wp (addNewRecord ty i v) Q E w = Q () (w\<lparr>batchUpdateStores := (batchUpdateStores w)
      (ty := AList.update i (pendingDelta w ty i + v) (batchUpdateStores w ty))\<rparr>)"
  by (simp add: addNewRecord_def wp_modifyM pendingDelta_def split: option.split)

lemma pendingDelta_add [simp]:
  "pendingDelta (w\<lparr>batchUpdateStores := (batchUpdateStores w')
      (ty := AList.update i v (batchUpdateStores w' ty))\<rparr>) ty' j =
   (if ty' = ty \<and> j = i then v else pendingDelta w' ty' j)"
  by (simp add: pendingDelta_def update_conv')

lemma pendingDelta_delete [simp]:
  "pendingDelta (w\<lparr>batchUpdateStores := (batchUpdateStores w')
      (ty := AList.delete i (batchUpdateStores w' ty))\<rparr>) ty' j =
   (if ty' = ty \<and> j = i then 0 else pendingDelta w' ty' j)"
  by (simp add: pendingDelta_def delete_conv')

lemma wp_takePendingQuotaDelta [wp_simps]:
  "wp (takePendingQuotaDelta ty i) Q E w =
     (if i \<le> 0 then Q 0 w
      else Q (pendingDelta w ty i) (w\<lparr>batchUpdateStores := (batchUpdateStores w)
               (ty := AList.delete i (batchUpdateStores w ty))\<rparr>))"
  by (simp add: takePendingQuotaDelta_def wp_simps)

lemma rowQuota_upd [simp]:
  "rowQuota (d\<lparr>users := (users d')(i \<mapsto> r)\<rparr>) j = (if j = i then uQuota r else rowQuota d' j)"
  "rowQuota (d\<lparr>tokens := t\<rparr>) = rowQuota d" "rowQuota (d\<lparr>recoveries := t1\<rparr>) = rowQuota d"
  "rowQuota (d\<lparr>adjustments := t2\<rparr>) = rowQuota d" "rowQuota (d\<lparr>recoveryIds := t3\<rparr>) = rowQuota d"
  "rowQuota (d\<lparr>subs := t4\<rparr>) = rowQuota d" "rowQuota (d\<lparr>preconsumes := t5\<rparr>) = rowQuota d"
  by (simp_all add: rowQuota_def fun_eq_iff)

lemma rowRemain_upd [simp]:
  "rowRemain (d\<lparr>tokens := (tokens d')(i \<mapsto> r)\<rparr>) j = (if j = i then tRemainQuota r else rowRemain d' j)"
  "rowRemain (d\<lparr>users := t\<rparr>) = rowRemain d" "rowRemain (d\<lparr>recoveries := t1\<rparr>) = rowRemain d"
  "rowRemain (d\<lparr>adjustments := t2\<rparr>) = rowRemain d" "rowRemain (d\<lparr>recoveryIds := t3\<rparr>) = rowRemain d"
  "rowRemain (d\<lparr>subs := t4\<rparr>) = rowRemain d" "rowRemain (d\<lparr>preconsumes := t5\<rparr>) = rowRemain d"
  by (simp_all add: rowRemain_def fun_eq_iff)

lemma addTokenQuota_remain [simp]: "tRemainQuota (addTokenQuota now delta r) = tRemainQuota r + delta"
  by (simp add: addTokenQuota_def)

lemma affected_change: "new \<noteq> old \<Longrightarrow> affected d old new = 1"
  by (simp add: affected_def)

lemma affected_range: "affected d old new \<in> {0, 1}"
  by (simp add: affected_def)

lemma caching_quota:
  "framed cacheOnly (cacheTryReserveUserQuota i a)" "framed cacheOnly (cacheApplyUserQuotaDelta i a)"
  "framed cacheOnly (cacheTryReserveTokenQuota i key a)"
  "framed cacheOnly (cacheApplyTokenQuotaDelta i key a)"
  unfolding cacheTryReserveUserQuota_def cacheApplyUserQuotaDelta_def
    cacheTryReserveTokenQuota_def cacheApplyTokenQuotaDelta_def
  by (intro caching_intros)+

lemma caching_writeUserCache: "framed cacheOnly (writeUserCache u b)"
  unfolding writeUserCache_def by (intro caching_intros)

lemma caching_floor: "framed cacheOnly (getUserAuthVersionFloor i)"
  unfolding getUserAuthVersionFloor_def by (intro caching_intros)

lemma caching_GetUserCache: "framed cacheOnly (GetUserCache i)"
  unfolding GetUserCache_def cacheGetUserBase_def GetUserById_def
  by (intro caching_intros caching_floor caching_writeUserCache)

lemma caching_GetUserQuota: "framed cacheOnly (GetUserQuota i b)"
  unfolding GetUserQuota_def by (intro caching_intros caching_GetUserCache)

lemma caching_GetTokenByKey: "framed cacheOnly (GetTokenByKey key b)"
  unfolding GetTokenByKey_def cacheGetTokenByKey_def cacheInitToken_def by (intro caching_intros)

text \<open>
  Reading and filling the caches never moves a balance.
\<close>

lemma cacheOnly_balances:
  assumes "cacheOnly w w'"
  shows "userBal w' = userBal w" "tokenBal w' = tokenBal w"
  using assms by (simp_all add: cacheOnly_def userBal_def tokenBal_def pendingDelta_def fun_eq_iff)

section \<open>Reservations take their amount or nothing\<close>

text \<open>
  What a wallet reservation may do: it takes \<open>quota\<close> from the balance of \<open>i\<close>, or nothing, and
  no table but \<open>users\<close> changes.
\<close>

definition tookUser :: "world \<Rightarrow> world \<Rightarrow> int \<Rightarrow> int \<Rightarrow> bool" where
  "tookUser w w' i amount \<longleftrightarrow> sameSettings w w' \<and>
     userBal w' = (userBal w)(i := userBal w i - amount) \<and> tokenBal w' = tokenBal w \<and>
     recoveries (db w') = recoveries (db w) \<and> adjustments (db w') = adjustments (db w)"

definition tookToken :: "world \<Rightarrow> world \<Rightarrow> int \<Rightarrow> int \<Rightarrow> bool" where
  "tookToken w w' i amount \<longleftrightarrow> sameSettings w w' \<and>
     tokenBal w' = (tokenBal w)(i := tokenBal w i - amount) \<and> userBal w' = userBal w \<and>
     recoveries (db w') = recoveries (db w) \<and> adjustments (db w') = adjustments (db w)"

lemma tookUser_cacheOnly: "cacheOnly w w1 \<Longrightarrow> tookUser w1 w' i a \<Longrightarrow> tookUser w w' i a"
  using cacheOnly_balances [of w w1]
  by (auto simp: tookUser_def cacheOnly_def intro: sameSettings_trans)

lemma tookToken_cacheOnly: "cacheOnly w w1 \<Longrightarrow> tookToken w1 w' i a \<Longrightarrow> tookToken w w' i a"
  using cacheOnly_balances [of w w1]
  by (auto simp: tookToken_def cacheOnly_def intro: sameSettings_trans)

lemma cacheOnly_took: "cacheOnly w w' \<Longrightarrow> tookUser w w' i 0" "cacheOnly w w' \<Longrightarrow> tookToken w w' i 0"
  using cacheOnly_balances [of w w'] by (simp_all add: tookUser_def tookToken_def cacheOnly_def)

lemma wp_updUser_took:
  assumes "noLost w" "\<And>r. uQuota (f r) = uQuota r + delta" "delta \<noteq> 0"
  shows "wp (updUser i P f) (\<lambda>n w'. (n = 0 \<and> tookUser w w' i 0) \<or> (n = 1 \<and> tookUser w w' i (- delta)))
           (\<lambda>_ w'. tookUser w w' i 0) w"
proof -
  have "f r \<noteq> r" for r using assms(2) [of r] assms(3) by auto
  then have "affected d r (f r) = 1" for d r by (simp add: affected_change)
  then show ?thesis using assms(1,2)
    by (simp add: updUser_def wp_execM tookUser_def userBal_def tokenBal_def fun_eq_iff rowQuota_def
        split: fate.split option.split)
qed

lemma wp_updToken_took:
  assumes "noLost w" "\<And>r. tRemainQuota (f r) = tRemainQuota r + delta" "delta \<noteq> 0"
  shows "wp (updToken i P f) (\<lambda>n w'. (n = 0 \<and> tookToken w w' i 0) \<or> (n = 1 \<and> tookToken w w' i (- delta)))
           (\<lambda>_ w'. tookToken w w' i 0) w"
proof -
  have "f r \<noteq> r" for r using assms(2) [of r] assms(3) by auto
  then have "affected d r (f r) = 1" for d r by (simp add: affected_change)
  then show ?thesis using assms(1,2)
    by (simp add: updToken_def wp_execM tookToken_def userBal_def tokenBal_def fun_eq_iff rowRemain_def
        split: fate.split option.split)
qed

lemma reserveUserQuotaDB_took:
  assumes "noLost w" "quota > 0"
  shows "wp (reserveUserQuotaDB i quota) (\<lambda>ok w'. tookUser w w' i (if ok then quota else 0))
           (\<lambda>_ w'. tookUser w w' i 0) w"
  unfolding reserveUserQuotaDB_def wp_bindM wp_retM
  by (rule wp_mono [OF wp_updUser_took [where delta = "- quota"]]) (use assms in auto)

lemma reserveTokenQuotaDB_took:
  assumes "noLost w" "quota > 0"
  shows "wp (reserveTokenQuotaDB i quota) (\<lambda>ok w'. tookToken w w' i (if ok then quota else 0))
           (\<lambda>_ w'. tookToken w w' i 0) w"
  unfolding reserveTokenQuotaDB_def wp_bindM wp_retM wp_nowM
  by (rule wp_mono [OF wp_updToken_took [where delta = "- quota"]]) (use assms in auto)

lemma persistUserQuotaDelta_took:
  assumes "noLost w" "delta \<noteq> 0"
  shows "wp (persistUserQuotaDelta i delta) (\<lambda>_ w'. tookUser w w' i (- delta))
           (\<lambda>_ w'. tookUser w w' i 0) w"
proof -
  have "wp (addNewRecord BatchUpdateTypeUserQuota i delta) (\<lambda>_ w'. tookUser w w' i (- delta))
           (\<lambda>_ w'. tookUser w w' i 0) w"
    by (simp add: wp_simps tookUser_def userBal_def tokenBal_def fun_eq_iff)
  moreover have "wp (bindM (updUser i (\<lambda>_. True) (\<lambda>r. r\<lparr>uQuota := uQuota r + delta\<rparr>)) (\<lambda>n.
       if n \<noteq> 1 then throwM ErrRecordNotFound else retM ()))
       (\<lambda>_ w'. tookUser w w' i (- delta)) (\<lambda>_ w'. tookUser w w' i 0) w"
    unfolding wp_bindM
    by (rule wp_mono [OF wp_updUser_took [where delta = delta]]) (use assms in \<open>auto simp: wp_simps\<close>)
  ultimately show ?thesis
    unfolding persistUserQuotaDelta_def wp_bindM wp_getsM wp_if by simp
qed

lemma persistTokenQuotaDelta_took:
  assumes "noLost w" "delta \<noteq> 0"
  shows "wp (persistTokenQuotaDelta i delta) (\<lambda>_ w'. tookToken w w' i (- delta))
           (\<lambda>_ w'. tookToken w w' i 0) w"
proof -
  have "wp (addNewRecord BatchUpdateTypeTokenQuota i delta) (\<lambda>_ w'. tookToken w w' i (- delta))
           (\<lambda>_ w'. tookToken w w' i 0) w"
    by (simp add: wp_simps tookToken_def userBal_def tokenBal_def fun_eq_iff)
  moreover have "wp (bindM (updToken i (\<lambda>_. True) (addTokenQuota (clock w) delta)) (\<lambda>n.
       if n \<noteq> 1 then throwM ErrRecordNotFound else retM ()))
       (\<lambda>_ w'. tookToken w w' i (- delta)) (\<lambda>_ w'. tookToken w w' i 0) w"
    unfolding wp_bindM
    by (rule wp_mono [OF wp_updToken_took [where delta = delta]]) (use assms in \<open>auto simp: wp_simps\<close>)
  ultimately show ?thesis
    unfolding persistTokenQuotaDelta_def wp_bindM wp_getsM wp_if wp_nowM by simp
qed

text \<open>After a function that only touches the caches, the reservation still speaks of \<open>w\<close>.\<close>

lemma took_after_caching:
  assumes "cacheOnly w w1"
  shows "wp m (\<lambda>x w'. tookUser w1 w' i (a x)) (\<lambda>_ w'. tookUser w1 w' i 0) w1 \<Longrightarrow>
           wp m (\<lambda>x w'. tookUser w w' i (a x)) (\<lambda>_ w'. tookUser w w' i 0) w1"
    and "wp n (\<lambda>x w'. tookToken w1 w' i (a x)) (\<lambda>_ w'. tookToken w1 w' i 0) w1 \<Longrightarrow>
           wp n (\<lambda>x w'. tookToken w w' i (a x)) (\<lambda>_ w'. tookToken w w' i 0) w1"
  by (erule wp_mono; rule tookUser_cacheOnly [OF assms]; assumption)
     (erule wp_mono; rule tookToken_cacheOnly [OF assms]; assumption)

lemma tookUser_then_cacheOnly: "tookUser w w1 i a \<Longrightarrow> cacheOnly w1 w' \<Longrightarrow> tookUser w w' i a"
  using cacheOnly_balances [of w1 w'] by (auto simp: tookUser_def cacheOnly_def intro: sameSettings_trans)

lemma tookToken_then_cacheOnly: "tookToken w w1 i a \<Longrightarrow> cacheOnly w1 w' \<Longrightarrow> tookToken w w' i a"
  using cacheOnly_balances [of w1 w'] by (auto simp: tookToken_def cacheOnly_def intro: sameSettings_trans)

text \<open>The branch taken when the cache granted the reservation.\<close>

lemma persistUser_compensated:
  assumes "noLost w" "quota > 0"
  shows "wp (bindM (tryM (persistUserQuotaDelta i (- quota))) (\<lambda>p. case p of
             Inl e \<Rightarrow> seqM (ignoreM (cacheApplyUserQuotaDelta i quota)) (throwM e)
           | Inr _ \<Rightarrow> retM True))
         (\<lambda>ok w'. tookUser w w' i (if ok then quota else 0)) (\<lambda>_ w'. tookUser w w' i 0) w"
  unfolding wp_bindM wp_tryM
proof (rule wp_mono [OF persistUserQuotaDelta_took [OF assms(1), of "- quota" i]])
  fix e :: err and w1
  assume "tookUser w w1 i 0"
  then show "wp (case Inl e of Inl e \<Rightarrow> seqM (ignoreM (cacheApplyUserQuotaDelta i quota)) (throwM e)
           | Inr _ \<Rightarrow> retM True) (\<lambda>ok w'. tookUser w w' i (if ok then quota else 0))
         (\<lambda>_ w'. tookUser w w' i 0) w1"
    using caching_quota(2) [of i quota, unfolded framed_wp, rule_format, of w1]
    by (auto simp: wp_simps elim!: wp_mono intro: tookUser_then_cacheOnly)
qed (use assms(2) in \<open>simp_all add: wp_simps\<close>)

lemma persistToken_compensated:
  assumes "noLost w" "quota > 0"
  shows "wp (bindM (tryM (persistTokenQuotaDelta i (- quota))) (\<lambda>p. case p of
             Inl e \<Rightarrow> seqM (ignoreM (cacheApplyTokenQuotaDelta i key quota)) (throwM e)
           | Inr _ \<Rightarrow> retM True))
         (\<lambda>ok w'. tookToken w w' i (if ok then quota else 0)) (\<lambda>_ w'. tookToken w w' i 0) w"
  unfolding wp_bindM wp_tryM
proof (rule wp_mono [OF persistTokenQuotaDelta_took [OF assms(1), of "- quota" i]])
  fix e :: err and w1
  assume "tookToken w w1 i 0"
  then show "wp (case Inl e of Inl e \<Rightarrow> seqM (ignoreM (cacheApplyTokenQuotaDelta i key quota)) (throwM e)
           | Inr _ \<Rightarrow> retM True) (\<lambda>ok w'. tookToken w w' i (if ok then quota else 0))
         (\<lambda>_ w'. tookToken w w' i 0) w1"
    using caching_quota(4) [of i key quota, unfolded framed_wp, rule_format, of w1]
    by (auto simp: wp_simps elim!: wp_mono intro: tookToken_then_cacheOnly)
qed (use assms(2) in \<open>simp_all add: wp_simps\<close>)

lemma cacheOnly_noLost: "cacheOnly w w' \<Longrightarrow> noLost w \<Longrightarrow> noLost w'"
  using sameSettings_faults(1) [of w w'] by (simp add: cacheOnly_def)

lemma cacheOnly_trans: "cacheOnly w w1 \<Longrightarrow> cacheOnly w1 w2 \<Longrightarrow> cacheOnly w w2"
  by (rule caching.frame_trans)

lemma TryReserveUserQuota_took:
  assumes lost: "noLost w"
  shows "wp (TryReserveUserQuota i quota) (\<lambda>ok w'. tookUser w w' i (if ok then quota else 0))
           (\<lambda>_ w'. tookUser w w' i 0) w"
proof (cases "quota > 0")
  case False
  then show ?thesis by (simp add: TryReserveUserQuota_def wp_simps cacheOnly_took)
next
  case pos: True
  note fallback = took_after_caching(1) [OF _ reserveUserQuotaDB_took [OF _ pos]]
  note granted = took_after_caching(1) [OF _ persistUser_compensated [OF _ pos]]
  have hydrate: "framed cacheOnly (if first = Inr cacheQuotaMiss
       then bindM (tryM (GetUserCache i)) (\<lambda>h. case h of
              Inl _ \<Rightarrow> retM first | Inr _ \<Rightarrow> tryM (cacheTryReserveUserQuota i quota))
       else retM first)" for first
    by (intro caching_intros caching_quota caching_GetUserCache)
  show ?thesis
    using pos unfolding TryReserveUserQuota_def
    apply (simp add: wp_bindM wp_getsM)
    apply (intro conjI impI reserveUserQuotaDB_took lost pos)
    apply (fold wp_bindM wp_tryM)
    apply (rule wp_bind_try_caching [OF caching_quota(1)])
    apply (rule wp_bind_caching [OF hydrate])
    subgoal for first w1 result w2
      using fallback [of w w2] granted [of w w2] cacheOnly_trans [of w w1 w2] cacheOnly_noLost [OF _ lost]
      by (auto simp: wp_simps cacheOnly_took split: sum.split cacheQuotaResult.split)
    subgoal for first w1 e w2
      by (intro cacheOnly_took) (rule cacheOnly_trans)
    done
qed

lemma DecreaseTokenQuota_took:
  assumes "noLost w" "quota > 0" "tokens (db w) i \<noteq> None"
  shows "wp (DecreaseTokenQuota i key quota) (\<lambda>_ w'. tookToken w w' i quota)
           (\<lambda>_ w'. tookToken w w' i 0) w"
  using assms
  by (auto simp: DecreaseTokenQuota_def goAsync_def decreaseTokenQuota_def updToken_def wp_simps
      tookToken_def userBal_def tokenBal_def fun_eq_iff rowRemain_def fateNow_def noLost_def
      split: fate.split option.split)

lemma TryReserveTokenQuota_took:
  assumes lost: "noLost w" and row: "tokens (db w) i \<noteq> None"
  shows "wp (TryReserveTokenQuota i key quota unlimited)
           (\<lambda>ok w'. tookToken w w' i (if ok then quota else 0)) (\<lambda>_ w'. tookToken w w' i 0) w"
proof (cases "quota > 0")
  case False
  then show ?thesis by (simp add: TryReserveTokenQuota_def wp_simps cacheOnly_took)
next
  case pos: True
  note fallback = took_after_caching(2) [OF _ reserveTokenQuotaDB_took [OF _ pos]]
  note granted = took_after_caching(2) [OF _ persistToken_compensated [OF _ pos]]
  have hydrate: "framed cacheOnly (if first = Inr cacheQuotaMiss
       then bindM (tryM (GetTokenByKey key True)) (\<lambda>h. case h of
              Inl _ \<Rightarrow> retM first | Inr _ \<Rightarrow> tryM (cacheTryReserveTokenQuota i key quota))
       else retM first)" for first
    by (intro caching_intros caching_quota caching_GetTokenByKey)
  show ?thesis
    using pos DecreaseTokenQuota_took [OF lost pos row] unfolding TryReserveTokenQuota_def
    apply (simp add: wp_bindM wp_getsM wp_seqM wp_retM)
    apply (intro conjI impI reserveTokenQuotaDB_took lost pos)
    apply (fold wp_bindM wp_tryM)
    apply (rule wp_bind_try_caching [OF caching_quota(3)])
    apply (rule wp_bind_caching [OF hydrate])
    subgoal for first w1 result w2
      using fallback [of w w2] granted [of w w2] cacheOnly_trans [of w w1 w2] cacheOnly_noLost [OF _ lost]
      by (auto simp: wp_simps cacheOnly_took split: sum.split cacheQuotaResult.split)
    subgoal for first w1 e w2
      by (intro cacheOnly_took) (rule cacheOnly_trans)
    done
qed

text \<open>A world to evaluate the model on: Redis and batching off, no statement fails.\<close>

definition emptyDB :: db where
  "emptyDB = \<lparr>users = Map.empty, tokens = Map.empty, channelsUsed = Map.empty, plans = Map.empty,
     subs = [], preconsumes = Map.empty, recoveries = Map.empty, recoveryIds = [],
     adjustments = Map.empty, tokenKeys = Map.empty, healths = [],
     channels = Map.empty, snapshots = Map.empty, changedRowsOnly = False\<rparr>"

definition emptyRedis :: redis where
  "emptyRedis = \<lparr>userHash = Map.empty, userFence = Map.empty, authFence = Map.empty,
     authVersionKey = Map.empty, tokenHash = Map.empty, tokenFence = Map.empty\<rparr>"

definition newUser :: "int \<Rightarrow> User" where
  "newUser quota = \<lparr>uUsername = ''u'', uRole = 1, uStatus = 1, uEmail = [], uQuota = quota,
     uUsedQuota = 0, uRequestCount = 0, uGroup = ''default'', uSetting = [], uAuthVersion = 1\<rparr>"

definition newToken :: "int \<Rightarrow> int \<Rightarrow> int \<Rightarrow> Token" where
  "newToken i user remain = \<lparr>tId = i, tUserId = user, tKey = ''sk'', tStatus = 1, tAccessedTime = 0,
     tExpiredTime = - 1, tRemainQuota = remain, tUnlimitedQuota = False, tUsedQuota = 0\<rparr>"

definition sampleWorld :: world where
  "sampleWorld = \<lparr>db = emptyDB\<lparr>users := [7 \<mapsto> newUser 100], tokens := [9 \<mapsto> newToken 9 7 50],
       tokenKeys := [''sk'' \<mapsto> 9]\<rparr>,
     rds = emptyRedis, batchUpdateStores = (\<lambda>_. []), async = [], RedisEnabled = False,
     BatchUpdateEnabled = False, RedisKeyCacheSeconds = 60, trustQuota = 0, clock = 1000, ops = 0,
     dbFate = (\<lambda>_. FOk), rops = 0, redisFate = (\<lambda>_. FOk),
     planCache = Map.empty, planInfoCache = Map.empty\<rparr>"

lemma sampleWorld_faults [simp]: "noLost sampleWorld" "noFault sampleWorld"
  by (simp_all add: noLost_def noFault_def sampleWorld_def)

lemma sampleWorld_rows [simp]:
  "users (db sampleWorld) 7 = Some (newUser 100)" "tokens (db sampleWorld) 9 = Some (newToken 9 7 50)"
  "\<not> RedisEnabled sampleWorld" "\<not> BatchUpdateEnabled sampleWorld"
  "batchUpdateStores sampleWorld ty = []"
  by (simp_all add: sampleWorld_def)

text \<open>
  C16. A wallet reservation is atomic: whichever way it goes (database, cache, cache miss and
  refill, a fence, Redis down, batched or direct writes) and whatever statement fails, it takes
  exactly its amount from that user when it reports success and nothing otherwise, and no other
  balance moves.  A reply of the database is assumed not to be lost.
\<close>

theorem TryReserveUserQuota_exact:
  assumes "noLost w" "TryReserveUserQuota i quota w = (r, w')"
  shows "tookUser w w' i (if r = Inr True then quota else 0)"
  using wp_result [OF TryReserveUserQuota_took [OF assms(1)] assms(2)]
  by (simp split: sum.splits if_splits)

theorem TryReserveUserQuota_exact_witness:
  "tookUser sampleWorld (snd (TryReserveUserQuota 7 30 sampleWorld)) 7 30"
proof -
  have "fst (TryReserveUserQuota 7 30 sampleWorld) = Inr True" by code_simp
  then show ?thesis
    using TryReserveUserQuota_exact [of sampleWorld 7 30 "Inr True"
        "snd (TryReserveUserQuota 7 30 sampleWorld)"]
    by (simp add: prod_eq_iff)
qed

text \<open>
  The same for an existing token: the remaining quota falls by exactly the reserved amount
  or not at all, for limited and unlimited tokens alike.
\<close>

theorem TryReserveTokenQuota_exact:
  assumes "noLost w" "tokens (db w) i \<noteq> None"
    and "TryReserveTokenQuota i key quota unlimited w = (r, w')"
  shows "tookToken w w' i (if r = Inr True then quota else 0)"
  using wp_result [OF TryReserveTokenQuota_took [OF assms(1,2)] assms(3)]
  by (simp split: sum.splits if_splits)

theorem TryReserveTokenQuota_exact_witness:
  "tookToken sampleWorld (snd (TryReserveTokenQuota 9 ''sk'' 60 True sampleWorld)) 9 60 \<and>
   tookToken sampleWorld (snd (TryReserveTokenQuota 9 ''sk'' 60 False sampleWorld)) 9 0"
proof -
  have "fst (TryReserveTokenQuota 9 ''sk'' 60 True sampleWorld) = Inr True"
    "fst (TryReserveTokenQuota 9 ''sk'' 60 False sampleWorld) = Inr False" by code_simp+
  then show ?thesis
    using TryReserveTokenQuota_exact [of sampleWorld 9 "''sk''" 60 True "Inr True"
        "snd (TryReserveTokenQuota 9 ''sk'' 60 True sampleWorld)"]
      TryReserveTokenQuota_exact [of sampleWorld 9 "''sk''" 60 False "Inr False"
        "snd (TryReserveTokenQuota 9 ''sk'' 60 False sampleWorld)"]
    by (simp add: prod_eq_iff)
qed

section \<open>No overdraft\<close>

text \<open>
  A sequence of wallet reservations, as concurrent requests issue them: the total granted.
\<close>

fun reserveAll :: "int \<Rightarrow> int list \<Rightarrow> world \<Rightarrow> int \<times> world" where
  "reserveAll i [] w = (0, w)"
| "reserveAll i (q # qs) w =
     (case TryReserveUserQuota i q w of
        (Inr True, w') \<Rightarrow> (q + fst (reserveAll i qs w'), snd (reserveAll i qs w'))
      | (_, w') \<Rightarrow> reserveAll i qs w')"

lemma reserveUserQuotaDB_step:
  assumes "\<not> RedisEnabled w" "TryReserveUserQuota i q w = (r, w')" "0 \<le> rowQuota (db w) i"
  shows "\<not> RedisEnabled w' \<and> 0 \<le> rowQuota (db w') i \<and>
         (if r = Inr True then q else 0) + rowQuota (db w') i \<le> rowQuota (db w) i"
proof -
  have "wp (TryReserveUserQuota i q)
     (\<lambda>ok w'. \<not> RedisEnabled w' \<and> 0 \<le> rowQuota (db w') i \<and>
         (if ok then q else 0) + rowQuota (db w') i \<le> rowQuota (db w) i)
     (\<lambda>_ w'. \<not> RedisEnabled w' \<and> 0 \<le> rowQuota (db w') i \<and> rowQuota (db w') i \<le> rowQuota (db w) i) w"
    using assms(1,3)
    by (auto simp: TryReserveUserQuota_def reserveUserQuotaDB_def updUser_def wp_simps rowQuota_def
        split: fate.split option.splits)
  from wp_result [OF this assms(2)] show ?thesis by (simp split: sum.splits if_splits)
qed

lemma reserveAll_bounded:
  assumes "\<not> RedisEnabled w" "0 \<le> rowQuota (db w) i"
  shows "0 \<le> rowQuota (db (snd (reserveAll i qs w))) i \<and>
         fst (reserveAll i qs w) + rowQuota (db (snd (reserveAll i qs w))) i \<le> rowQuota (db w) i"
  using assms
proof (induction qs arbitrary: w)
  case (Cons q qs)
  obtain r w' where step: "TryReserveUserQuota i q w = (r, w')" by force
  note one = reserveUserQuotaDB_step [OF Cons.prems(1) step Cons.prems(2)]
  with Cons.IH [of w'] show ?case
    by (auto simp: step split: sum.splits if_splits bool.splits)
qed simp

text \<open>
  C17. No overdraft on the database path: whatever sequence of reservations hits a wallet and
  whichever statements fail or lose their reply, the amounts granted never add up to more than
  the balance the wallet had, and the row never goes negative.
\<close>

theorem wallet_reservations_never_overdraw:
  assumes "\<not> RedisEnabled w" "0 \<le> rowQuota (db w) i"
  shows "fst (reserveAll i qs w) \<le> rowQuota (db w) i \<and> 0 \<le> rowQuota (db (snd (reserveAll i qs w))) i"
  using reserveAll_bounded [OF assms, of qs] by simp

theorem wallet_reservations_never_overdraw_witness:
  "fst (reserveAll 7 [60, 30, 50, 10] sampleWorld) = 100 \<and>
   0 \<le> rowQuota (db (snd (reserveAll 7 [60, 30, 50, 10] sampleWorld))) 7"
proof -
  have "fst (reserveAll 7 [60, 30, 50, 10] sampleWorld) = 100" by code_simp
  moreover have "\<not> RedisEnabled sampleWorld" "0 \<le> rowQuota (db sampleWorld) 7"
    by (simp_all add: rowQuota_def newUser_def)
  ultimately show ?thesis
    using wallet_reservations_never_overdraw [of sampleWorld 7 "[60, 30, 50, 10]"] by simp
qed

text \<open>The cached balance under a sequence of reservation scripts at given times.\<close>

fun scriptAll :: "int \<Rightarrow> (int \<times> int) list \<Rightarrow> redis \<Rightarrow> int \<times> redis" where
  "scriptAll i [] r = (0, r)"
| "scriptAll i ((now, a) # xs) r =
     (let (res, r') = userQuotaReserveScript now i a r; (total, r'') = scriptAll i xs r'
      in ((if res = 1 then a else 0) + total, r''))"

definition cachedQuota :: "redis \<Rightarrow> int \<Rightarrow> int" where
  "cachedQuota r i = (case userHash r i of None \<Rightarrow> 0
     | Some (h, _) \<Rightarrow> (case ubQuota h of None \<Rightarrow> 0 | Some q \<Rightarrow> q))"

lemma userQuotaReserveScript_step:
  assumes "userQuotaReserveScript now i a r = (res, r')" "0 \<le> cachedQuota r i"
  shows "0 \<le> cachedQuota r' i \<and> (if res = 1 then a else 0) + cachedQuota r' i = cachedQuota r i"
  using assms
  by (auto simp: userQuotaReserveScript_def cachedQuota_def split: if_splits option.splits prod.splits)

text \<open>
  C18. The reservation script conserves the cached balance: over any sequence of calls the
  granted amounts and what is left add up to the balance at the start, which is never
  overdrawn, whatever fences and expiries come between.
\<close>

theorem userQuotaReserveScript_conserves:
  assumes "0 \<le> cachedQuota r i"
  shows "fst (scriptAll i calls r) + cachedQuota (snd (scriptAll i calls r)) i = cachedQuota r i \<and>
         0 \<le> cachedQuota (snd (scriptAll i calls r)) i"
  using assms
proof (induction calls arbitrary: r)
  case (Cons c calls)
  obtain now a where c: "c = (now, a)" by force
  obtain res r' where step: "userQuotaReserveScript now i a r = (res, r')" by force
  from userQuotaReserveScript_step [OF step Cons.prems] Cons.IH [of r'] show ?case
    by (simp add: c step case_prod_beta)
qed simp

theorem userQuotaReserveScript_conserves_witness:
  "fst (scriptAll 7 [(1, 60), (2, 50), (3, 40)]
      (emptyRedis\<lparr>userHash := [7 \<mapsto> (ToBaseUser 7 (newUser 100), 99)]\<rparr>)) = 100 \<and>
   0 \<le> cachedQuota (snd (scriptAll 7 [(1, 60), (2, 50), (3, 40)]
      (emptyRedis\<lparr>userHash := [7 \<mapsto> (ToBaseUser 7 (newUser 100), 99)]\<rparr>))) 7"
proof -
  let ?r = "emptyRedis\<lparr>userHash := [7 \<mapsto> (ToBaseUser 7 (newUser 100), 99)]\<rparr>"
  have "fst (scriptAll 7 [(1, 60), (2, 50), (3, 40)] ?r) = 100" by code_simp
  moreover have "0 \<le> cachedQuota ?r 7"
    by (simp add: cachedQuota_def ToBaseUser_def newUser_def)
  ultimately show ?thesis
    using userQuotaReserveScript_conserves [of ?r 7 "[(1, 60), (2, 50), (3, 40)]"] by simp
qed

section \<open>The batch flush\<close>

text \<open>Each store has one entry per id, as a Go map does; every operation keeps it so.\<close>

definition storesOk :: "world \<Rightarrow> bool" where
  "storesOk w \<longleftrightarrow> (\<forall>ty. distinct (map fst (batchUpdateStores w ty)))"

lemma storesOk_addNewRecord: "storesOk w \<Longrightarrow> wp (addNewRecord ty i v) (\<lambda>_. storesOk) (\<lambda>_. storesOk) w"
  by (simp add: storesOk_def wp_simps distinct_update)

lemma storesOk_takePendingQuotaDelta:
  "storesOk w \<Longrightarrow> wp (takePendingQuotaDelta ty i) (\<lambda>_. storesOk) (\<lambda>_. storesOk) w"
  by (simp add: storesOk_def wp_simps distinct_delete)

text \<open>The three flush loops with no failing statement.\<close>

definition flushUser :: "(int \<Rightarrow> int) \<Rightarrow> (int \<Rightarrow> int) \<Rightarrow> (int \<Rightarrow> int) \<Rightarrow> int \<Rightarrow> User \<Rightarrow> User" where
  "flushUser a b c i r = r\<lparr>uQuota := uQuota r + a i, uUsedQuota := uUsedQuota r + b i,
                            uRequestCount := uRequestCount r + c i\<rparr>"

lemma wp_updateUserRow:
  assumes "noFault w"
  shows "wp (updateUserQuotaUsedQuotaAndRequestCount k (a k) (b k) (c k))
     (\<lambda>_ w'. sameSettings w w' \<and> batchUpdateStores w' = batchUpdateStores w \<and>
        db w' = (db w)\<lparr>users := (users (db w))(k := map_option (flushUser a b c k) (users (db w) k))\<rparr>)
     (\<lambda>_ _. False) w"
proof (cases "a k = 0 \<and> b k = 0 \<and> c k = 0")
  case True
  then have "flushUser a b c k = (\<lambda>r. r)" by (simp add: flushUser_def fun_eq_iff)
  with True show ?thesis
    by (simp add: updateUserQuotaUsedQuotaAndRequestCount_def wp_retM option.map_ident)
next
  case False
  with assms show ?thesis
    by (auto simp: updateUserQuotaUsedQuotaAndRequestCount_def updUser_def flushUser_def wp_simps
        fun_upd_idem split: option.split)
qed

lemma flush_users:
  assumes "noFault w" "distinct ks"
  shows "wp (foldM (\<lambda>_ k. updateUserQuotaUsedQuotaAndRequestCount k (a k) (b k) (c k)) () ks)
     (\<lambda>_ w'. sameSettings w w' \<and> batchUpdateStores w' = batchUpdateStores w \<and>
        db w' = (db w)\<lparr>users := (\<lambda>i. if i \<in> set ks then map_option (flushUser a b c i) (users (db w) i)
                                        else users (db w) i)\<rparr>)
     (\<lambda>_ _. False) w"
  using assms
proof (induction ks arbitrary: w)
  case Nil
  then show ?case by (simp add: wp_retM)
next
  case (Cons k ks)
  have *: "wp (foldM (\<lambda>_ k. updateUserQuotaUsedQuotaAndRequestCount k (a k) (b k) (c k)) acc ks)
     (\<lambda>_ w'. sameSettings w w' \<and> batchUpdateStores w' = batchUpdateStores w \<and>
        db w' = (db w)\<lparr>users := (\<lambda>i. if i \<in> set (k # ks) then map_option (flushUser a b c i) (users (db w) i)
                                        else users (db w) i)\<rparr>) (\<lambda>_ _. False) w1"
    if w1: "sameSettings w w1 \<and> batchUpdateStores w1 = batchUpdateStores w \<and>
        db w1 = (db w)\<lparr>users := (users (db w))(k := map_option (flushUser a b c k) (users (db w) k))\<rparr>" for w1 acc
  proof -
    have "noFault w1" using w1 Cons.prems(1) sameSettings_faults(2) by blast
    then show ?thesis using Cons.IH [of w1] Cons.prems(2) w1
      by (auto elim!: wp_mono intro: sameSettings_trans simp: fun_eq_iff)
  qed
  show ?case
    unfolding foldM.simps wp_bindM
    by (rule wp_mono [OF wp_updateUserRow [OF Cons.prems(1)]]) (rule *, assumption, simp)
qed

lemma wp_increaseTokenRow:
  assumes "noFault w"
  shows "wp (ignoreM (increaseTokenQuota k v))
     (\<lambda>_ w'. sameSettings w w' \<and> batchUpdateStores w' = batchUpdateStores w \<and>
        db w' = (db w)\<lparr>tokens := (tokens (db w))(k := map_option (addTokenQuota (clock w) v) (tokens (db w) k))\<rparr>)
     (\<lambda>_ _. False) w"
  using assms
  by (auto simp: increaseTokenQuota_def updToken_def wp_simps fun_upd_idem split: option.split)

lemma flush_tokens:
  assumes "noFault w" "distinct (map fst kvs)"
  shows "wp (foldM (\<lambda>_ kv. ignoreM (increaseTokenQuota (fst kv) (snd kv))) () kvs)
     (\<lambda>_ w'. sameSettings w w' \<and> batchUpdateStores w' = batchUpdateStores w \<and>
        db w' = (db w)\<lparr>tokens := (\<lambda>i. case map_of kvs i of
            Some v \<Rightarrow> map_option (addTokenQuota (clock w) v) (tokens (db w) i)
          | None \<Rightarrow> tokens (db w) i)\<rparr>)
     (\<lambda>_ _. False) w"
  using assms
proof (induction kvs arbitrary: w)
  case Nil
  then show ?case by (simp add: wp_retM)
next
  case (Cons kv kvs)
  obtain k v where kv: "kv = (k, v)" by force
  have *: "wp (foldM (\<lambda>_ kv. ignoreM (increaseTokenQuota (fst kv) (snd kv))) acc kvs)
     (\<lambda>_ w'. sameSettings w w' \<and> batchUpdateStores w' = batchUpdateStores w \<and>
        db w' = (db w)\<lparr>tokens := (\<lambda>i. case map_of (kv # kvs) i of
            Some v \<Rightarrow> map_option (addTokenQuota (clock w) v) (tokens (db w) i)
          | None \<Rightarrow> tokens (db w) i)\<rparr>) (\<lambda>_ _. False) w1"
    if w1: "sameSettings w w1 \<and> batchUpdateStores w1 = batchUpdateStores w \<and>
        db w1 = (db w)\<lparr>tokens := (tokens (db w))(k := map_option (addTokenQuota (clock w) v) (tokens (db w) k))\<rparr>" for w1 acc
  proof -
    have "noFault w1" using w1 Cons.prems(1) sameSettings_faults(2) by blast
    moreover have "clock w1 = clock w" using w1 by (simp add: sameSettings_def)
    moreover have "map_of kvs k = None" using Cons.prems(2) by (simp add: kv map_of_eq_None_iff)
    with w1 \<open>clock w1 = clock w\<close> have
      "(\<lambda>i. case map_of kvs i of Some v \<Rightarrow> map_option (addTokenQuota (clock w1) v) (tokens (db w1) i)
          | None \<Rightarrow> tokens (db w1) i) =
       (\<lambda>i. case map_of (kv # kvs) i of Some v \<Rightarrow> map_option (addTokenQuota (clock w) v) (tokens (db w) i)
          | None \<Rightarrow> tokens (db w) i)"
      by (auto simp: fun_eq_iff kv split: option.split)
    ultimately show ?thesis using Cons.IH [of w1] Cons.prems(2) w1
      by (auto elim!: wp_mono intro: sameSettings_trans)
  qed
  show ?case
    unfolding foldM.simps wp_bindM
    by (rule wp_mono [OF wp_increaseTokenRow [OF Cons.prems(1)]]) (rule *, simp_all add: kv)
qed

lemma flush_channels:
  "wp (foldM (\<lambda>_ kv. updateChannelUsedQuota (fst kv) (snd kv)) () kvs)
     (\<lambda>_ w'. sameSettings w w' \<and> batchUpdateStores w' = batchUpdateStores w \<and>
        users (db w') = users (db w) \<and> tokens (db w') = tokens (db w))
     (\<lambda>_ _. False) w"
proof (rule wp_foldM_inv)
  fix acc x s
  assume "sameSettings w s \<and> batchUpdateStores s = batchUpdateStores w \<and>
        users (db s) = users (db w) \<and> tokens (db s) = tokens (db w)"
  then show "wp (updateChannelUsedQuota (fst x) (snd x)) (\<lambda>_ w'. sameSettings w w' \<and>
        batchUpdateStores w' = batchUpdateStores w \<and>
        users (db w') = users (db w) \<and> tokens (db w') = tokens (db w)) (\<lambda>_ _. False) s"
    by (auto simp: updateChannelUsedQuota_def wp_simps split: fate.split option.split)
qed simp

lemma storeDelta_pending: "storeDelta (batchUpdateStores w ty) i = pendingDelta w ty i"
  by (simp add: storeDelta_def pendingDelta_def)

lemma userBal_flushed:
  assumes "users (db w) i \<noteq> None" and "\<And>ty. batchUpdateStores w' ty = []"
    and "users (db w') i = (if i \<in> K then map_option (flushUser (pendingDelta w BatchUpdateTypeUserQuota) b c i)
                               (users (db w) i) else users (db w) i)"
    and "i \<notin> K \<Longrightarrow> pendingDelta w BatchUpdateTypeUserQuota i = 0"
  shows "userBal w' i = userBal w i"
  using assms by (auto simp: userBal_def rowQuota_def flushUser_def pendingDelta_def)

lemma tokenBal_flushed:
  assumes "tokens (db w) i \<noteq> None" and "\<And>ty. batchUpdateStores w' ty = []"
    and "tokens (db w') i = (case map_of (batchUpdateStores w BatchUpdateTypeTokenQuota) i of
            Some v \<Rightarrow> map_option (addTokenQuota now v) (tokens (db w) i) | None \<Rightarrow> tokens (db w) i)"
  shows "tokenBal w' i = tokenBal w i"
  using assms by (auto simp: tokenBal_def rowRemain_def pendingDelta_def split: option.splits)

lemma batchUpdate_flushes:
  assumes fault: "noFault w" and ok: "storesOk w"
  shows "wp batchUpdate (\<lambda>_ w'. (\<forall>ty. batchUpdateStores w' ty = []) \<and>
       (\<forall>i. users (db w) i \<noteq> None \<longrightarrow> userBal w' i = userBal w i) \<and>
       (\<forall>i. tokens (db w) i \<noteq> None \<longrightarrow> tokenBal w' i = tokenBal w i)) (\<lambda>_ _. False) w"
proof -
  let ?K = "remdups (map fst (batchUpdateStores w BatchUpdateTypeUserQuota)
      @ map fst (batchUpdateStores w BatchUpdateTypeUsedQuota)
      @ map fst (batchUpdateStores w BatchUpdateTypeRequestCount))"
  let ?w0 = "w\<lparr>batchUpdateStores := (\<lambda>_. [])\<rparr>"
  have fault0: "noFault ?w0" using fault by (simp add: noFault_def)
  have dist: "distinct (map fst (batchUpdateStores w BatchUpdateTypeTokenQuota))"
    using ok by (simp add: storesOk_def)
  have all: "batchUpdateStores w ty = []" if "\<forall>ty \<in> {BatchUpdateTypeUserQuota, BatchUpdateTypeTokenQuota,
      BatchUpdateTypeUsedQuota, BatchUpdateTypeChannelUsedQuota, BatchUpdateTypeRequestCount}.
      batchUpdateStores w ty = []" for ty
    using that by (cases ty) simp_all
  have notin: "i \<notin> set ?K \<Longrightarrow> pendingDelta w BatchUpdateTypeUserQuota i = 0" for i
    using map_of_eq_None_iff [of "batchUpdateStores w BatchUpdateTypeUserQuota" i]
    by (simp add: pendingDelta_def)
  show ?thesis
    unfolding batchUpdate_def wp_bindM wp_getsM wp_if wp_retM wp_seqM wp_modifyM
    apply (split if_split, rule conjI)
    subgoal by (intro conjI allI impI refl) (rule all)
    subgoal
      apply (rule impI)
      apply (rule wp_mono [OF flush_tokens [OF fault0 dist]])
       prefer 2 apply simp
      apply (rule wp_mono [OF flush_channels])
       prefer 2 apply simp
      subgoal for _ w1 _ w2
        apply (rule wp_mono [OF flush_users])
           prefer 4 apply simp
          prefer 2 apply simp
        subgoal using fault0 sameSettings_faults(2) by blast
        subgoal for _ w3
          apply (intro conjI allI impI)
          subgoal by simp
          subgoal for i
            by (rule userBal_flushed [where K = "set ?K"
                 and b = "storeDelta (batchUpdateStores w BatchUpdateTypeUsedQuota)"
                 and c = "storeDelta (batchUpdateStores w BatchUpdateTypeRequestCount)"])
               (use notin [of i] in \<open>simp_all add: storeDelta_pending [abs_def, symmetric]\<close>)
          subgoal for i
            by (rule tokenBal_flushed [where now = "clock ?w0"]) (simp_all split: option.split)
          done
        done
      done
    done
qed

text \<open>
  C19. When no statement fails, a flush of the batch updater conserves every balance: the stores
  are empty afterwards, and each existing wallet and token has the balance it had with its
  pending delta.
\<close>

theorem batchUpdate_conserves:
  assumes "noFault w" "storesOk w" "batchUpdate w = (r, w')"
  shows "r = Inr () \<and> (\<forall>ty. batchUpdateStores w' ty = []) \<and>
     (\<forall>i. users (db w) i \<noteq> None \<longrightarrow> userBal w' i = userBal w i) \<and>
     (\<forall>i. tokens (db w) i \<noteq> None \<longrightarrow> tokenBal w' i = tokenBal w i)"
  using wp_result [OF batchUpdate_flushes [OF assms(1,2)] assms(3)] by (simp split: sum.splits)

text \<open>
  C20. A failed statement loses the delta it carried: \<open>batchUpdate\<close> empties the stores before it
  writes them, and the error is only logged, so the balance changes by the lost delta.
\<close>

theorem batchUpdate_failure_loses_delta:
  assumes "batchUpdateStores w = (\<lambda>ty. if ty = BatchUpdateTypeUserQuota then [(i, delta)] else [])"
    and "delta \<noteq> 0" "dbFate w (ops w) = FFail" "batchUpdate w = (r, w')"
  shows "r = Inr () \<and> userBal w' i = userBal w i - delta"
proof -
  have "wp batchUpdate (\<lambda>_ w'. userBal w' i = userBal w i - delta) (\<lambda>_ _. False) w"
    using assms(1-3)
    by (simp add: batchUpdate_def wp_simps updateUserQuotaUsedQuotaAndRequestCount_def updUser_def
        storeDelta_def fateNow_def userBal_def pendingDelta_def)
  from wp_result [OF this assms(4)] show ?thesis by (simp split: sum.splits)
qed

theorem batchUpdate_conserves_witness:
  "let w = sampleWorld\<lparr>batchUpdateStores := (\<lambda>ty. if ty = BatchUpdateTypeUserQuota then [(7, - 30)] else [])\<rparr>
   in userBal w 7 = 70 \<and> userBal (snd (batchUpdate w)) 7 = 70 \<and>
      batchUpdateStores (snd (batchUpdate w)) BatchUpdateTypeUserQuota = []"
proof -
  let ?w = "sampleWorld\<lparr>batchUpdateStores := (\<lambda>ty. if ty = BatchUpdateTypeUserQuota then [(7, - 30)] else [])\<rparr>"
  have "userBal ?w 7 = 70" by (simp add: userBal_def rowQuota_def pendingDelta_def newUser_def)
  moreover have "noFault ?w" "storesOk ?w"
    by (simp_all add: noFault_def storesOk_def sampleWorld_def)
  ultimately show ?thesis
    using batchUpdate_conserves [of ?w "fst (batchUpdate ?w)" "snd (batchUpdate ?w)"] by simp
qed

theorem batchUpdate_failure_loses_delta_witness:
  "let w = sampleWorld\<lparr>batchUpdateStores := (\<lambda>ty. if ty = BatchUpdateTypeUserQuota then [(7, 30)] else []),
                       dbFate := (\<lambda>_. FFail)\<rparr>
   in userBal w 7 = 130 \<and> userBal (snd (batchUpdate w)) 7 = 100"
proof -
  let ?w = "sampleWorld\<lparr>batchUpdateStores := (\<lambda>ty. if ty = BatchUpdateTypeUserQuota then [(7, 30)] else []),
                        dbFate := (\<lambda>_. FFail)\<rparr>"
  have "userBal ?w 7 = 130" by (simp add: userBal_def rowQuota_def pendingDelta_def newUser_def)
  then show ?thesis
    using batchUpdate_failure_loses_delta [of ?w 7 30 "fst (batchUpdate ?w)" "snd (batchUpdate ?w)"]
    by simp
qed

section \<open>The mutation fence and the user hash\<close>

text \<open>
  C21. A late cache fill passes the quota fence: once a mutation has raised the fence of a user and
  dropped the cached hash, \<open>writeUserCache\<close> with the user snapshot read before the mutation
  stores the old balance again, and reservations use it as soon as the fence has expired.
  \<open>cacheInitTokenScript\<close> checks the fence of its token; the script of \<open>writeUserCache\<close> does not.
\<close>

theorem writeUserCache_ignores_quota_fence:
  assumes "userHash r i = None" "userFence r i = Some expiry" "now < expiry" "expiry \<le> later"
    and "authFence r i = None" "authVersionKey r i = Some (uAuthVersion old)" "later < now + ttl"
    and "amount \<le> uQuota old" "0 < uAuthVersion old"
  shows "fst (userQuotaReserveScript later i amount
           (snd (writeUserCacheScript now ttl (ToBaseUser i old) True r))) = 1"
  using assms
  by (simp add: writeUserCacheScript_def userQuotaReserveScript_def ToBaseUser_def Let_def)

theorem writeUserCache_ignores_quota_fence_witness:
  "fst (userQuotaReserveScript 1020 7 100 (snd (writeUserCacheScript 1005 60 (ToBaseUser 7 (newUser 100)) True
      (emptyRedis\<lparr>userFence := [7 \<mapsto> 1010], authVersionKey := [7 \<mapsto> 1]\<rparr>)))) = 1"
  by (rule writeUserCache_ignores_quota_fence [where expiry = 1010])
     (simp_all add: emptyRedis_def newUser_def)

end
