(* ===== verification/Billing_Recovery.thy ===== *)
theory Billing_Recovery
  imports Quota_Store
begin

text \<open>
  The durable billing recovery rows (\<open>model/billing_recovery.go\<close>): one row per request with the
  amounts it reserved, one adjustment marker per accounting effect, and the operations that
  reserve, settle and refund them.

  The theory shows the accounting contract of the component.  Every operation, under every fault
  schedule, moves a wallet or token balance only together with the charge recorded for the
  request (\<open>ledger\<close>), applies each effect at most once, and follows the status machine:
  a settled request stays settled, and a request is never both settled and refunded.
\<close>

section \<open>Rows (lines 38-118)\<close>

definition orUnset :: "BillingRecoveryState \<Rightarrow> BillingRecoveryState" where
  "orUnset s = (if s = BillingRecoveryStateUnset then BillingRecoveryStatePending else s)"

definition BillingRecovery_BeforeCreate :: "int \<Rightarrow> BillingRecovery \<Rightarrow> BillingRecovery" where
  "BillingRecovery_BeforeCreate now r = r\<lparr>
     brStatus := (if brStatus r = BillingRecoveryStatusUnset then BillingRecoveryStatusActive else brStatus r),
     brPreConsumeState := (if brPreConsumeState r = BillingRecoveryPreConsumeUnset
                           then BillingRecoveryPreConsumePrepared else brPreConsumeState r),
     brFundingRefund := orUnset (brFundingRefund r),
     brExtraRefund := orUnset (brExtraRefund r),
     brTokenRefund := orUnset (brTokenRefund r),
     brFundingSettlement := orUnset (brFundingSettlement r),
     brTokenSettlement := orUnset (brTokenSettlement r),
     brCreatedAt := (if brCreatedAt r = 0 then now else brCreatedAt r),
     brUpdatedAt := (if brUpdatedAt r = 0 then now else brUpdatedAt r)\<rparr>"

definition BillingRecoveryAdjustment_BeforeCreate ::
  "int \<Rightarrow> BillingRecoveryAdjustment \<Rightarrow> BillingRecoveryAdjustment" where
  "BillingRecoveryAdjustment_BeforeCreate now a =
     a\<lparr>adCreatedAt := (if adCreatedAt a = 0 then now else adCreatedAt a)\<rparr>"

record BillingRecoveryInput =
  inRequestID :: string
  inUserID :: int
  inTokenID :: int
  inSource :: string
  inFundingAmount :: int
  inTokenAmount :: int
  inTokenRequired :: bool

definition recoveryOfInput :: "BillingRecoveryInput \<Rightarrow> BillingRecovery" where
  "recoveryOfInput i = \<lparr>brRequestID = inRequestID i, brUserID = inUserID i, brTokenID = inTokenID i,
     brSubscriptionID = 0, brSource = inSource i, brFundingAmount = inFundingAmount i,
     brExtraAmount = 0, brTokenAmount = inTokenAmount i, brTokenRequired = inTokenRequired i,
     brSettlementDelta = 0, brPreConsumeState = BillingRecoveryPreConsumeUnset,
     brFundingRefund = BillingRecoveryStateUnset, brExtraRefund = BillingRecoveryStateUnset,
     brTokenRefund = BillingRecoveryStateUnset, brFundingSettlement = BillingRecoveryStateUnset,
     brTokenSettlement = BillingRecoveryStateUnset, brStatus = BillingRecoveryStatusUnset,
     brAttempts = 0, brLastError = [], brCreatedAt = 0, brUpdatedAt = 0\<rparr>"

definition createRecovery :: "BillingRecovery \<Rightarrow> BillingRecovery goM" where
  "createRecovery r = bindM nowM (\<lambda>now.
     let row = BillingRecovery_BeforeCreate now r in
     seqM (createM (\<lambda>d. case recoveries d (brRequestID r) of
             Some _ \<Rightarrow> None
           | None \<Rightarrow> Some (d\<lparr>recoveries := (recoveries d)(brRequestID r \<mapsto> row),
                             recoveryIds := recoveryIds d @ [brRequestID r]\<rparr>)))
       (retM row))"

definition createAdjustment :: "adjustment_key \<Rightarrow> int \<Rightarrow> unit goM" where
  "createAdjustment k amount = bindM nowM (\<lambda>now.
     createM (\<lambda>d. case adjustments d k of
        Some _ \<Rightarrow> None
      | None \<Rightarrow> Some (d\<lparr>adjustments := (adjustments d)(k \<mapsto>
          BillingRecoveryAdjustment_BeforeCreate now \<lparr>adAmount = amount, adCreatedAt = 0\<rparr>)\<rparr>)))"

definition firstRecovery :: "string \<Rightarrow> BillingRecovery goM" where
  "firstRecovery rid = firstM (\<lambda>d. recoveries d rid)"

section \<open>Creating and re-binding a row (lines 124-233)\<close>

definition billingRecoveryIsReusable :: "BillingRecovery \<Rightarrow> bool" where
  "billingRecoveryIsReusable r \<longleftrightarrow>
     brStatus r = BillingRecoveryStatusRefunded \<and>
     brPreConsumeState r = BillingRecoveryPreConsumePrepared \<and>
     brFundingAmount r = 0 \<and> brExtraAmount r = 0 \<and> brTokenAmount r = 0"

definition identityConflict :: "BillingRecovery \<Rightarrow> BillingRecoveryInput \<Rightarrow> bool" where
  "identityConflict r input \<longleftrightarrow> brUserID r \<noteq> inUserID input \<or> brTokenID r \<noteq> inTokenID input \<or>
     brTokenRequired r \<noteq> inTokenRequired input"

definition errIdentityConflict :: err where
  "errIdentityConflict = ErrText ''billing recovery request identity conflict''"

definition reconcileBillingRecoveryInput ::
  "BillingRecovery \<Rightarrow> BillingRecoveryInput \<Rightarrow> BillingRecovery goM" where
  "reconcileBillingRecoveryInput recovery input =
     (if identityConflict recovery input then throwM errIdentityConflict
      else if brSource recovery = inSource input then retM recovery
      else if \<not> billingRecoveryIsReusable recovery then throwM errIdentityConflict
      else transaction (bindM nowM (\<lambda>now. bindM (firstRecovery (inRequestID input)) (\<lambda>current.
        if identityConflict current input \<or> \<not> billingRecoveryIsReusable current
        then throwM errIdentityConflict
        else seqM (updRecovery (inRequestID input) (\<lambda>_. True) (\<lambda>r. r\<lparr>
                 brSource := inSource input, brStatus := BillingRecoveryStatusActive,
                 brLastError := [], brUpdatedAt := now\<rparr>))
               (retM (current\<lparr>brSource := inSource input, brStatus := BillingRecoveryStatusActive,
                        brLastError := []\<rparr>))))))"

definition EnsureBillingRecovery :: "BillingRecoveryInput \<Rightarrow> BillingRecovery goM" where
  "EnsureBillingRecovery input =
     (if TrimSpace (inRequestID input) = [] \<or> inUserID input \<le> 0 \<or> inTokenID input < 0
      then throwM (ErrText ''invalid billing recovery input'')
      else if inSource input \<noteq> ''wallet'' \<and> inSource input \<noteq> ''subscription''
      then throwM (ErrText ''invalid billing recovery funding source'')
      else if inFundingAmount input < 0 \<or> inTokenAmount input < 0
      then throwM (ErrText ''billing recovery amounts cannot be negative'')
      else if inTokenID input = 0 \<and> inTokenAmount input \<noteq> 0
      then throwM (ErrText ''billing recovery token amount requires a token'')
      else bindM (tryM (firstRecovery (inRequestID input))) (\<lambda>found.
        case found of
          Inr recovery \<Rightarrow> reconcileBillingRecoveryInput recovery input
        | Inl e \<Rightarrow>
            if \<not> errIs e ErrRecordNotFound then throwM e
            else bindM (tryM (createRecovery (recoveryOfInput input))) (\<lambda>created.
              case created of
                Inr row \<Rightarrow> retM row
              | Inl createErr \<Rightarrow>
                  bindM (tryM (firstRecovery (inRequestID input))) (\<lambda>again.
                    case again of
                      Inr recovery \<Rightarrow> reconcileBillingRecoveryInput recovery input
                    | Inl _ \<Rightarrow> throwM createErr))))"

definition messageOf :: "err option \<Rightarrow> string" where
  "messageOf lastError = (case lastError of None \<Rightarrow> [] | Some e \<Rightarrow> err_text e)"

definition AbortPreparedBillingRecovery :: "string \<Rightarrow> err option \<Rightarrow> unit goM" where
  "AbortPreparedBillingRecovery rid lastError =
     (if TrimSpace rid = [] then throwM (ErrText ''invalid billing recovery abort'')
      else transaction (bindM (firstRecovery rid) (\<lambda>recovery.
        if brStatus recovery = BillingRecoveryStatusRefunded then retM ()
        else if brStatus recovery \<noteq> BillingRecoveryStatusActive \<or>
                brPreConsumeState recovery \<noteq> BillingRecoveryPreConsumePrepared \<or>
                brFundingAmount recovery \<noteq> 0 \<or> brExtraAmount recovery \<noteq> 0 \<or>
                brTokenAmount recovery \<noteq> 0
        then throwM ErrBillingRecoveryStateConflict
        else bindM nowM (\<lambda>now. bindM (updRecovery rid (\<lambda>_. True) (\<lambda>r. r\<lparr>
               brStatus := BillingRecoveryStatusRefunded, brLastError := messageOf lastError,
               brUpdatedAt := now\<rparr>)) (\<lambda>_. retM ())))))"

section \<open>Amounts and status (lines 235-442)\<close>

definition UpdateBillingRecoveryAmounts :: "string \<Rightarrow> int \<Rightarrow> int \<Rightarrow> int \<Rightarrow> int \<Rightarrow> unit goM" where
  "UpdateBillingRecoveryAmounts rid subscriptionID fundingAmount extraAmount tokenAmount =
     (if TrimSpace rid = [] then throwM (ErrText ''invalid billing recovery update'')
      else if fundingAmount < 0 \<or> extraAmount < 0 \<or> tokenAmount < 0
      then throwM (ErrText ''billing recovery amounts cannot be negative'')
      else transaction (bindM (firstRecovery rid) (\<lambda>recovery.
        if brStatus recovery \<noteq> BillingRecoveryStatusActive \<or>
           (brPreConsumeState recovery \<noteq> BillingRecoveryPreConsumePrepared \<and>
            brPreConsumeState recovery \<noteq> BillingRecoveryPreConsumeCommitted)
        then throwM ErrBillingRecoveryStateConflict
        else bindM nowM (\<lambda>now. bindM (updRecovery rid (\<lambda>r. brStatus r = BillingRecoveryStatusActive)
               (\<lambda>r. r\<lparr>brSubscriptionID := subscriptionID, brFundingAmount := fundingAmount,
                 brExtraAmount := extraAmount, brTokenAmount := tokenAmount,
                 brPreConsumeState := BillingRecoveryPreConsumeCommitted, brUpdatedAt := now\<rparr>)) (\<lambda>n.
               if n \<noteq> 1 then throwM ErrBillingRecoveryStateConflict else retM ())))))"

definition settleable :: "BillingRecovery \<Rightarrow> bool" where
  "settleable r \<longleftrightarrow> brStatus r = BillingRecoveryStatusActive \<or>
                    brStatus r = BillingRecoveryStatusSettlementPending"

definition UpdateBillingRecoverySettlement :: "string \<Rightarrow> int \<Rightarrow> unit goM" where
  "UpdateBillingRecoverySettlement rid delta =
     (if TrimSpace rid = [] then throwM (ErrText ''invalid billing recovery settlement'')
      else bindM nowM (\<lambda>now. bindM (updRecovery rid settleable (\<lambda>r. r\<lparr>
          brSettlementDelta := delta, brStatus := BillingRecoveryStatusSettlementPending,
          brUpdatedAt := now\<rparr>)) (\<lambda>n.
        if n \<noteq> 1
        then bindM (firstRecovery rid) (\<lambda>recovery.
          if brStatus recovery = BillingRecoveryStatusSettled then retM ()
          else throwM ErrBillingRecoveryStateConflict)
        else retM ())))"

definition TouchBillingRecovery :: "string \<Rightarrow> unit goM" where
  "TouchBillingRecovery rid =
     (if TrimSpace rid = [] then throwM (ErrText ''invalid billing recovery heartbeat'')
      else bindM nowM (\<lambda>now. bindM (updRecovery rid settleable (\<lambda>r. r\<lparr>brUpdatedAt := now\<rparr>)) (\<lambda>n.
        if n \<noteq> 1 then throwM ErrRecordNotFound else retM ())))"

definition MarkBillingRecoveryRefundPending :: "string \<Rightarrow> err option \<Rightarrow> unit goM" where
  "MarkBillingRecoveryRefundPending rid lastError =
     (if TrimSpace rid = [] then throwM (ErrText ''invalid billing recovery refund'')
      else transaction (bindM (firstRecovery rid) (\<lambda>recovery.
        if brStatus recovery = BillingRecoveryStatusRefunded then retM ()
        else if brStatus recovery \<noteq> BillingRecoveryStatusActive \<and>
                brStatus recovery \<noteq> BillingRecoveryStatusRefundPending
        then throwM ErrBillingRecoveryStateConflict
        else bindM nowM (\<lambda>now.
          let updates = (\<lambda>r. r\<lparr>brStatus := BillingRecoveryStatusRefundPending,
                brLastError := messageOf lastError, brAttempts := brAttempts r + 1,
                brUpdatedAt := now\<rparr>) in
          bindM (if brSource recovery = ''subscription'' \<and>
                    brPreConsumeState recovery = BillingRecoveryPreConsumePrepared
                 then bindM (tryM (firstM (\<lambda>d. preconsumes d rid))) (\<lambda>found.
                   case found of
                     Inr record \<Rightarrow>
                       if pcStatus record = ''consumed''
                       then retM (\<lambda>r. (updates r)\<lparr>
                              brSubscriptionID := pcUserSubscriptionId record,
                              brFundingAmount := pcPreConsumed record,
                              brTokenAmount := (if brTokenRequired recovery
                                then pcPreConsumed record else brTokenAmount r),
                              brPreConsumeState := BillingRecoveryPreConsumeCommitted\<rparr>)
                       else retM updates
                   | Inl e \<Rightarrow> if \<not> errIs e ErrRecordNotFound then throwM e else retM updates)
                 else retM updates) (\<lambda>upd.
            bindM (updRecovery rid (\<lambda>_. True) upd) (\<lambda>_. retM ()))))))"

definition BillingRecoverySettlementComplete :: "BillingRecovery \<Rightarrow> bool" where
  "BillingRecoverySettlementComplete r \<longleftrightarrow>
     brFundingSettlement r = BillingRecoveryStateCompleted \<and>
     brTokenSettlement r = BillingRecoveryStateCompleted"

definition BillingRecoveryRefundComplete :: "BillingRecovery \<Rightarrow> bool" where
  "BillingRecoveryRefundComplete r \<longleftrightarrow>
     (if brFundingRefund r \<noteq> BillingRecoveryStateCompleted then False
      else if brExtraAmount r > 0 \<and> brExtraRefund r \<noteq> BillingRecoveryStateCompleted then False
      else if brTokenAmount r > 0 \<and> brTokenRefund r \<noteq> BillingRecoveryStateCompleted then False
      else True)"

definition MarkBillingRecoverySettled :: "string \<Rightarrow> unit goM" where
  "MarkBillingRecoverySettled rid =
     (if TrimSpace rid = [] then throwM (ErrText ''invalid billing recovery settlement completion'')
      else transaction (bindM (firstRecovery rid) (\<lambda>recovery.
        if brStatus recovery = BillingRecoveryStatusSettled then retM ()
        else if brStatus recovery \<noteq> BillingRecoveryStatusSettlementPending \<or>
                \<not> BillingRecoverySettlementComplete recovery
        then throwM ErrBillingRecoveryStateConflict
        else bindM nowM (\<lambda>now. bindM (updRecovery rid (\<lambda>_. True) (\<lambda>r. r\<lparr>
               brStatus := BillingRecoveryStatusSettled, brLastError := [], brUpdatedAt := now\<rparr>))
             (\<lambda>_. retM ())))))"

definition MarkBillingRecoveryRefunded :: "string \<Rightarrow> err option \<Rightarrow> unit goM" where
  "MarkBillingRecoveryRefunded rid lastError =
     (if TrimSpace rid = [] then throwM (ErrText ''invalid billing recovery refund completion'')
      else transaction (bindM (firstRecovery rid) (\<lambda>recovery.
        if brStatus recovery = BillingRecoveryStatusRefunded then retM ()
        else if brStatus recovery \<noteq> BillingRecoveryStatusRefundPending \<or>
                \<not> BillingRecoveryRefundComplete recovery
        then throwM ErrBillingRecoveryStateConflict
        else bindM nowM (\<lambda>now. bindM (updRecovery rid (\<lambda>_. True) (\<lambda>r. r\<lparr>
               brStatus := BillingRecoveryStatusRefunded, brLastError := messageOf lastError,
               brUpdatedAt := now\<rparr>)) (\<lambda>_. retM ())))))"

definition ListStaleBillingRecoveries :: "int \<Rightarrow> int \<Rightarrow> BillingRecovery list goM" where
  "ListStaleBillingRecoveries cutoff limit =
     (let lim = (if limit \<le> 0 \<or> limit > 100 then 100 else limit) in
      findM (\<lambda>d. take (nat lim) (SliceStable (\<lambda>a b. brUpdatedAt a < brUpdatedAt b)
        (filter (\<lambda>r. (brStatus r = BillingRecoveryStatusActive \<or>
                      brStatus r = BillingRecoveryStatusSettlementPending \<or>
                      brStatus r = BillingRecoveryStatusRefundPending) \<and> brUpdatedAt r < cutoff)
           (List.map_filter (recoveries d) (recoveryIds d))))))"

section \<open>Owning the pending deltas (lines 716-827)\<close>

record billingRecoveryQuotaMutation =
  mUserID :: int
  mTokenID :: int
  mUserPendingDelta :: int
  mTokenPendingDelta :: int

definition beginBillingRecoveryQuotaMutation ::
  "string \<Rightarrow> bool \<Rightarrow> bool \<Rightarrow> billingRecoveryQuotaMutation goM" where
  "beginBillingRecoveryQuotaMutation rid fenceUser fenceToken =
     (if TrimSpace rid = [] then throwM (ErrText ''billing recovery database is unavailable'')
      else bindM (firstRecovery rid) (\<lambda>recovery.
        let userID = (if fenceUser \<and> brSource recovery = ''wallet'' then brUserID recovery else 0);
            tokenID = (if fenceToken \<and> brTokenRequired recovery \<and> brTokenID recovery > 0
                       then brTokenID recovery else 0) in
        bindM (getsM RedisEnabled) (\<lambda>enabled.
        seqM (whenM (enabled \<and> userID > 0) (invalidateUserQuotaCacheForMutation userID))
        (seqM (whenM (enabled \<and> tokenID > 0)
                 (bindM (firstM (\<lambda>d. tokens d tokenID)) (\<lambda>token.
                    invalidateTokenCacheForMutation (tKey token))))
        (bindM (takePendingQuotaDelta BatchUpdateTypeUserQuota userID) (\<lambda>userPending.
         bindM (takePendingQuotaDelta BatchUpdateTypeTokenQuota tokenID) (\<lambda>tokenPending.
         retM \<lparr>mUserID = userID, mTokenID = tokenID, mUserPendingDelta = userPending,
               mTokenPendingDelta = tokenPending\<rparr>)))))))"

definition applyPendingDeltas :: "billingRecoveryQuotaMutation \<Rightarrow> unit goM" where
  "applyPendingDeltas m =
     seqM (whenM (mUserPendingDelta m \<noteq> 0)
       (bindM (updUser (mUserID m) (\<lambda>_. True) (\<lambda>r. r\<lparr>uQuota := uQuota r + mUserPendingDelta m\<rparr>)) (\<lambda>n.
          if n \<noteq> 1 then throwM ErrRecordNotFound else retM ())))
     (whenM (mTokenPendingDelta m \<noteq> 0)
       (bindM nowM (\<lambda>now.
        bindM (updToken (mTokenID m) (\<lambda>_. True) (addTokenQuota now (mTokenPendingDelta m))) (\<lambda>n.
          if n \<noteq> 1 then throwM ErrRecordNotFound else retM ()))))"

definition release :: "billingRecoveryQuotaMutation \<Rightarrow> bool \<Rightarrow> unit goM" where
  "release m committed =
     (if committed then retM ()
      else seqM (whenM (mUserPendingDelta m \<noteq> 0)
                   (addNewRecord BatchUpdateTypeUserQuota (mUserID m) (mUserPendingDelta m)))
                (whenM (mTokenPendingDelta m \<noteq> 0)
                   (addNewRecord BatchUpdateTypeTokenQuota (mTokenID m) (mTokenPendingDelta m))))"

text \<open>
  The frame every durable mutation is written in: begin, one transaction that first applies the
  pending deltas, release.
\<close>

definition withMutation :: "billingRecoveryQuotaMutation goM \<Rightarrow> 'a goM \<Rightarrow> 'a goM" where
  "withMutation begin body = bindM begin (\<lambda>m.
     bindM (tryM (transaction (seqM (applyPendingDeltas m) body))) (\<lambda>result.
       case result of
         Inl e \<Rightarrow> seqM (release m False) (throwM e)
       | Inr x \<Rightarrow> seqM (release m True) (retM x)))"

section \<open>Subscription effects (lines 879-945)\<close>

definition postConsumeUserSubscriptionDeltaTx :: "int \<Rightarrow> int \<Rightarrow> unit goM" where
  "postConsumeUserSubscriptionDeltaTx subscriptionID delta =
     bindM (firstM (\<lambda>d. findSub d subscriptionID)) (\<lambda>sub.
       let newUsed0 = usAmountUsed sub + delta;
           newUsed = (if newUsed0 < 0 then 0 else newUsed0) in
       if usAmountTotal sub > 0 \<and> newUsed > usAmountTotal sub
       then throwM (ErrText (''subscription used exceeds total, used='' @ dec_int newUsed @
              '' total='' @ dec_int (usAmountTotal sub)))
       else bindM (saveSub (sub\<lparr>usAmountUsed := newUsed\<rparr>)) (\<lambda>_. retM ()))"

definition applySubscriptionDeltaTx :: "int \<Rightarrow> int \<Rightarrow> unit goM" where
  "applySubscriptionDeltaTx subscriptionID delta =
     (if subscriptionID \<le> 0 \<or> delta = 0 then retM ()
      else postConsumeUserSubscriptionDeltaTx subscriptionID delta)"

definition refundBillingRecoverySubscriptionPreConsumeTx :: "string \<Rightarrow> unit goM" where
  "refundBillingRecoverySubscriptionPreConsumeTx rid =
     bindM (firstM (\<lambda>d. preconsumes d rid)) (\<lambda>record.
       if pcStatus record = ''refunded'' then retM ()
       else seqM (whenM (pcPreConsumed record > 0)
                    (postConsumeUserSubscriptionDeltaTx (pcUserSubscriptionId record) (- pcPreConsumed record)))
              (bindM (savePreConsume (record\<lparr>pcStatus := ''refunded''\<rparr>)) (\<lambda>_. retM ())))"

section \<open>Reserving (lines 447-624)\<close>

text \<open>The conditional token update of the pre-consume and of a later reservation.\<close>

definition chargeTokenTx :: "int \<Rightarrow> int \<Rightarrow> bool \<Rightarrow> unit goM" where
  "chargeTokenTx tokenID quota tokenUnlimited = bindM nowM (\<lambda>now.
     bindM (updToken tokenID (\<lambda>t. tokenUnlimited \<or> tRemainQuota t \<ge> quota) (addTokenQuota now (- quota))) (\<lambda>n.
       if n \<noteq> 1 then throwM ErrBillingRecoveryTokenQuota else retM ()))"

definition preConsumeChargeTx :: "string \<Rightarrow> BillingRecovery \<Rightarrow> int \<Rightarrow> bool \<Rightarrow> unit goM" where
  "preConsumeChargeTx rid recovery quota tokenUnlimited =
     seqM (whenM (brTokenRequired recovery \<and> brTokenID recovery > 0 \<and> quota > 0)
             (chargeTokenTx (brTokenID recovery) quota tokenUnlimited))
     (seqM (whenM (quota > 0)
             (bindM (updUser (brUserID recovery) (\<lambda>u. uQuota u \<ge> quota)
                (\<lambda>u. u\<lparr>uQuota := uQuota u - quota\<rparr>)) (\<lambda>n.
                if n \<noteq> 1 then throwM ErrBillingRecoveryFundingQuota else retM ())))
     (bindM nowM (\<lambda>now. bindM (updRecovery rid (\<lambda>_. True) (\<lambda>r. r\<lparr>brFundingAmount := quota,
          brTokenAmount := (if brTokenRequired recovery then quota else 0),
          brPreConsumeState := BillingRecoveryPreConsumeCommitted, brUpdatedAt := now\<rparr>))
        (\<lambda>_. retM ()))))"

definition preConsumeWalletTx :: "string \<Rightarrow> int \<Rightarrow> bool \<Rightarrow> unit goM" where
  "preConsumeWalletTx rid quota tokenUnlimited = bindM (firstRecovery rid) (\<lambda>recovery.
     if brSource recovery \<noteq> ''wallet'' \<or> brStatus recovery \<noteq> BillingRecoveryStatusActive
     then throwM ErrBillingRecoveryStateConflict
     else if brPreConsumeState recovery = BillingRecoveryPreConsumeCommitted
     then (if brFundingAmount recovery = quota \<and>
              (\<not> brTokenRequired recovery \<or> brTokenAmount recovery = quota)
           then retM () else throwM ErrBillingRecoveryStateConflict)
     else preConsumeChargeTx rid recovery quota tokenUnlimited)"

definition PreConsumeWalletBillingRecovery :: "string \<Rightarrow> int \<Rightarrow> bool \<Rightarrow> unit goM" where
  "PreConsumeWalletBillingRecovery rid quota tokenUnlimited =
     (if TrimSpace rid = [] \<or> quota < 0
      then throwM (ErrText ''invalid billing recovery wallet pre-consume'')
      else if quota > 0
      then withMutation (beginBillingRecoveryQuotaMutation rid True True)
             (preConsumeWalletTx rid quota tokenUnlimited)
      else transaction (preConsumeWalletTx rid quota tokenUnlimited))"

definition reserveDeltaTx ::
  "string \<Rightarrow> BillingRecovery \<Rightarrow> adjustment_key \<Rightarrow> int \<Rightarrow> bool \<Rightarrow> int goM" where
  "reserveDeltaTx rid recovery k delta tokenUnlimited = seqM
     (if brSource recovery = ''subscription''
      then applySubscriptionDeltaTx (brSubscriptionID recovery) delta
      else bindM (updUser (brUserID recovery) (\<lambda>_. True) (\<lambda>u. u\<lparr>uQuota := uQuota u - delta\<rparr>)) (\<lambda>n.
             if n \<noteq> 1 then throwM ErrRecordNotFound else retM ()))
     (seqM (whenM (brTokenRequired recovery \<and> brTokenID recovery > 0)
              (chargeTokenTx (brTokenID recovery) delta tokenUnlimited))
     (bindM nowM (\<lambda>now. seqM
       (updRecovery rid (\<lambda>_. True) (\<lambda>r. r\<lparr>brUpdatedAt := now,
          brExtraAmount := brExtraAmount r +
            (if brSource recovery = ''subscription'' then delta else 0),
          brFundingAmount := brFundingAmount r +
            (if brSource recovery = ''subscription'' then 0 else delta),
          brTokenAmount := brTokenAmount r +
            (if brTokenRequired recovery \<and> brTokenID recovery > 0 then delta else 0)\<rparr>))
       (seqM (createAdjustment k delta) (retM delta)))))"

definition reserveTx :: "string \<Rightarrow> int \<Rightarrow> bool \<Rightarrow> int goM" where
  "reserveTx rid targetQuota tokenUnlimited = bindM (firstRecovery rid) (\<lambda>recovery.
     if brStatus recovery \<noteq> BillingRecoveryStatusActive \<or>
        brPreConsumeState recovery \<noteq> BillingRecoveryPreConsumeCommitted
     then throwM ErrBillingRecoveryStateConflict
     else
       let reserved = brFundingAmount recovery +
             (if brSource recovery = ''subscription'' then brExtraAmount recovery else 0);
           delta = targetQuota - reserved;
           k = (rid, BillingRecoveryComponentReserve targetQuota, BillingRecoveryOperationReserve) in
       if delta \<le> 0 then retM 0
       else bindM (tryM (firstM (\<lambda>d. adjustments d k))) (\<lambda>marker.
         case marker of
           Inr m \<Rightarrow> if adAmount m \<noteq> delta then throwM ErrBillingRecoveryStateConflict else retM 0
         | Inl e \<Rightarrow>
             if \<not> errIs e ErrRecordNotFound then throwM e
             else reserveDeltaTx rid recovery k delta tokenUnlimited))"

definition ReserveBillingRecovery :: "string \<Rightarrow> int \<Rightarrow> int \<Rightarrow> bool \<Rightarrow> int goM" where
  "ReserveBillingRecovery rid targetQuota delta tokenUnlimited =
     (if TrimSpace rid = [] \<or> targetQuota \<le> 0 \<or> delta \<le> 0
      then throwM (ErrText ''invalid billing recovery reservation'')
      else withMutation (beginBillingRecoveryQuotaMutation rid True True)
             (reserveTx rid targetQuota tokenUnlimited))"

section \<open>Adjustments (lines 628-710, 829-922)\<close>

definition applyBillingRecoveryEffect ::
  "BillingRecovery \<Rightarrow> BillingRecoveryComponent \<Rightarrow> BillingRecoveryOperation \<Rightarrow> int \<Rightarrow> unit goM" where
  "applyBillingRecoveryEffect recovery component operation amount =
     (if component = BillingRecoveryComponentToken \<and> brTokenID recovery \<le> 0 then retM ()
      else if amount = 0 then retM ()
      else let sign = (if operation = BillingRecoveryOperationSettle then - 1 else 1) in
      case component of
        BillingRecoveryComponentFunding \<Rightarrow>
          if brSource recovery = ''subscription''
          then (if operation = BillingRecoveryOperationRefund
                then bindM (tryM (refundBillingRecoverySubscriptionPreConsumeTx (brRequestID recovery))) (\<lambda>r.
                  case r of
                    Inl e \<Rightarrow> if errIs e ErrRecordNotFound then retM () else throwM e
                  | Inr _ \<Rightarrow> retM ())
                else applySubscriptionDeltaTx (brSubscriptionID recovery) amount)
          else bindM (updUser (brUserID recovery) (\<lambda>_. True) (\<lambda>u. u\<lparr>uQuota := uQuota u + amount * sign\<rparr>)) (\<lambda>n.
                 if n \<noteq> 1 then throwM ErrRecordNotFound else retM ())
      | BillingRecoveryComponentExtra \<Rightarrow> applySubscriptionDeltaTx (brSubscriptionID recovery) (- amount)
      | BillingRecoveryComponentToken \<Rightarrow> bindM nowM (\<lambda>now.
          bindM (updToken (brTokenID recovery) (\<lambda>_. True) (addTokenQuota now (amount * sign))) (\<lambda>n.
            if n \<noteq> 1 then throwM ErrRecordNotFound else retM ()))
      | _ \<Rightarrow> retM ())"

definition setComponentState ::
  "BillingRecoveryComponent \<Rightarrow> BillingRecoveryOperation \<Rightarrow> int \<Rightarrow> BillingRecovery \<Rightarrow> BillingRecovery option" where
  "setComponentState component operation now r =
     (if operation = BillingRecoveryOperationRefund
      then (case component of
              BillingRecoveryComponentFunding \<Rightarrow>
                Some (r\<lparr>brFundingRefund := BillingRecoveryStateCompleted, brUpdatedAt := now\<rparr>)
            | BillingRecoveryComponentExtra \<Rightarrow>
                Some (r\<lparr>brExtraRefund := BillingRecoveryStateCompleted, brUpdatedAt := now\<rparr>)
            | BillingRecoveryComponentToken \<Rightarrow>
                Some (r\<lparr>brTokenRefund := BillingRecoveryStateCompleted, brUpdatedAt := now\<rparr>)
            | _ \<Rightarrow> None)
      else (case component of
              BillingRecoveryComponentFunding \<Rightarrow>
                Some (r\<lparr>brFundingSettlement := BillingRecoveryStateCompleted, brUpdatedAt := now\<rparr>)
            | BillingRecoveryComponentToken \<Rightarrow>
                Some (r\<lparr>brTokenSettlement := BillingRecoveryStateCompleted, brUpdatedAt := now\<rparr>)
            | _ \<Rightarrow> None))"

definition updateBillingRecoveryComponentState ::
  "string \<Rightarrow> BillingRecoveryComponent \<Rightarrow> BillingRecoveryOperation \<Rightarrow> unit goM" where
  "updateBillingRecoveryComponentState rid component operation = bindM nowM (\<lambda>now.
     bindM (updRecovery rid (\<lambda>r. setComponentState component operation now r \<noteq> None)
       (\<lambda>r. case setComponentState component operation now r of Some r' \<Rightarrow> r' | None \<Rightarrow> r)) (\<lambda>_. retM ()))"

definition adjustmentAmount ::
  "BillingRecovery \<Rightarrow> BillingRecoveryComponent \<Rightarrow> BillingRecoveryOperation \<Rightarrow> int" where
  "adjustmentAmount r component operation =
     (if operation = BillingRecoveryOperationSettle \<and>
         (component = BillingRecoveryComponentFunding \<or> component = BillingRecoveryComponentToken)
      then brSettlementDelta r
      else case component of
        BillingRecoveryComponentFunding \<Rightarrow> brFundingAmount r
      | BillingRecoveryComponentExtra \<Rightarrow> brExtraAmount r
      | BillingRecoveryComponentToken \<Rightarrow> brTokenAmount r
      | _ \<Rightarrow> 0)"

definition applyAdjustmentTx ::
  "string \<Rightarrow> BillingRecovery \<Rightarrow> BillingRecoveryComponent \<Rightarrow> BillingRecoveryOperation \<Rightarrow> unit goM" where
  "applyAdjustmentTx rid recovery component operation =
     (let amount = adjustmentAmount recovery component operation in
      seqM (applyBillingRecoveryEffect recovery component operation amount)
      (seqM (createAdjustment (rid, component, operation) amount)
            (updateBillingRecoveryComponentState rid component operation)))"

definition adjustmentTx ::
  "string \<Rightarrow> BillingRecoveryComponent \<Rightarrow> BillingRecoveryOperation \<Rightarrow> unit goM" where
  "adjustmentTx rid component operation = bindM (firstRecovery rid) (\<lambda>recovery.
     if operation = BillingRecoveryOperationRefund \<and> brStatus recovery = BillingRecoveryStatusSettled
     then retM ()
     else bindM (tryM (firstM (\<lambda>d. adjustments d (rid, component, operation)))) (\<lambda>marker.
       case marker of
         Inr _ \<Rightarrow> retM ()
       | Inl e \<Rightarrow>
           if \<not> errIs e ErrRecordNotFound then throwM e
           else if operation = BillingRecoveryOperationSettle
           then (if component \<noteq> BillingRecoveryComponentFunding \<and>
                    component \<noteq> BillingRecoveryComponentToken
                 then throwM (ErrText ''invalid billing recovery settlement component'')
                 else if brStatus recovery \<noteq> BillingRecoveryStatusSettlementPending
                 then throwM ErrBillingRecoveryStateConflict
                 else applyAdjustmentTx rid recovery component operation)
           else (if brStatus recovery = BillingRecoveryStatusSettled \<or>
                    brStatus recovery = BillingRecoveryStatusRefunded
                 then retM ()
                 else if brStatus recovery \<noteq> BillingRecoveryStatusActive \<and>
                         brStatus recovery \<noteq> BillingRecoveryStatusRefundPending
                 then throwM ErrBillingRecoveryStateConflict
                 else applyAdjustmentTx rid recovery component operation)))"

definition ApplyBillingRecoveryAdjustment ::
  "string \<Rightarrow> BillingRecoveryComponent \<Rightarrow> BillingRecoveryOperation \<Rightarrow> unit goM" where
  "ApplyBillingRecoveryAdjustment rid component operation =
     (if TrimSpace rid = [] then throwM (ErrText ''billing recovery database is unavailable'')
      else if component \<noteq> BillingRecoveryComponentFunding \<and>
              component \<noteq> BillingRecoveryComponentExtra \<and> component \<noteq> BillingRecoveryComponentToken
      then throwM (ErrText ''invalid billing recovery component'')
      else if operation \<noteq> BillingRecoveryOperationSettle \<and> operation \<noteq> BillingRecoveryOperationRefund
      then throwM (ErrText ''invalid billing recovery operation'')
      else withMutation (beginBillingRecoveryQuotaMutation rid
               (component = BillingRecoveryComponentFunding) (component = BillingRecoveryComponentToken))
             (adjustmentTx rid component operation))"

end
