(* ===== verification/Recovery_Ledger.thy ===== *)
theory Recovery_Ledger
  imports Billing_Recovery
begin

text \<open>
  What the billing recovery component promises, as an abstract machine.

  A \<open>ledger\<close> holds the wallet and token balances, the subscription usage, the recovery rows
  without their bookkeeping columns and the adjustment markers; \<open>absL\<close> reads it off a world,
  counting a pending batch delta as part of its balance.  \<open>astep rid\<close> has one rule per
  committed effect of an operation on request \<open>rid\<close>.  The theory proves the invariant \<open>awf\<close>
  of the machine and its accounting facts: a wallet's balance and the charges recorded against
  it always add up to the same amount, a settled request stays settled, and settle and refund
  markers exclude each other.  The refinement theory shows that the operations of
  \<open>model/billing_recovery.go\<close> implement these steps.
\<close>

section \<open>The ledger\<close>

record ledger =
  lBal :: "int \<Rightarrow> int"
  lTok :: "int \<Rightarrow> int"
  lSub :: "int \<Rightarrow> (int \<times> int) option"
  lPre :: "string \<Rightarrow> (int \<times> int \<times> string) option"
  lRec :: "string \<Rightarrow> BillingRecovery option"
  lIds :: "string list"
  lAdj :: "adjustment_key \<Rightarrow> int option"

text \<open>A row without its bookkeeping columns.\<close>

definition core :: "BillingRecovery \<Rightarrow> BillingRecovery" where
  "core r = r\<lparr>brAttempts := 0, brLastError := [], brCreatedAt := 0, brUpdatedAt := 0\<rparr>"

definition dbL :: "db \<Rightarrow> ledger" where
  "dbL d = \<lparr>lBal = rowQuota d, lTok = rowRemain d,
     lSub = (\<lambda>i. map_option (\<lambda>u. (usAmountUsed u, usAmountTotal u)) (findSub d i)),
     lPre = (\<lambda>q. map_option (\<lambda>p. (pcUserSubscriptionId p, pcPreConsumed p, pcStatus p)) (preconsumes d q)),
     lRec = (\<lambda>q. map_option core (recoveries d q)), lIds = recoveryIds d,
     lAdj = (\<lambda>k. map_option adAmount (adjustments d k))\<rparr>"

text \<open>Balances raised by pending deltas.\<close>

definition shift :: "(int \<Rightarrow> int) \<Rightarrow> (int \<Rightarrow> int) \<Rightarrow> ledger \<Rightarrow> ledger" where
  "shift p q s = s\<lparr>lBal := (\<lambda>i. lBal s i + p i), lTok := (\<lambda>i. lTok s i + q i)\<rparr>"

definition absL :: "world \<Rightarrow> ledger" where
  "absL w = shift (pendingDelta w BatchUpdateTypeUserQuota) (pendingDelta w BatchUpdateTypeTokenQuota)
              (dbL (db w))"

section \<open>Steps\<close>

definition setRow :: "string \<Rightarrow> BillingRecovery \<Rightarrow> ledger \<Rightarrow> ledger" where
  "setRow rid r s = s\<lparr>lRec := (lRec s)(rid \<mapsto> r)\<rparr>"

definition addBal :: "int \<Rightarrow> int \<Rightarrow> ledger \<Rightarrow> ledger" where
  "addBal u x s = s\<lparr>lBal := (lBal s)(u := lBal s u + x)\<rparr>"

definition addTok :: "int \<Rightarrow> int \<Rightarrow> ledger \<Rightarrow> ledger" where
  "addTok t x s = s\<lparr>lTok := (lTok s)(t := lTok s t + x)\<rparr>"

definition setAdj :: "adjustment_key \<Rightarrow> int \<Rightarrow> ledger \<Rightarrow> ledger" where
  "setAdj k a s = s\<lparr>lAdj := (lAdj s)(k \<mapsto> a)\<rparr>"

text \<open>Subscription usage moved by \<open>x\<close>: never below zero, never above a positive total.\<close>

type_synonym usage = "int \<Rightarrow> (int \<times> int) option"
type_synonym precharges = "string \<Rightarrow> (int \<times> int \<times> string) option"

definition subRoom :: "int \<Rightarrow> int \<Rightarrow> usage \<Rightarrow> bool" where
  "subRoom i x f = (case f i of None \<Rightarrow> False | Some (u, t) \<Rightarrow> t > 0 \<longrightarrow> max 0 (u + x) \<le> t)"

definition addSub :: "int \<Rightarrow> int \<Rightarrow> usage \<Rightarrow> usage" where
  "addSub i x f = f(i := map_option (\<lambda>(u, t). (max 0 (u + x), t)) (f i))"

text \<open>\<open>applySubscriptionDeltaTx\<close>: nothing to do, or a move there is room for.\<close>

inductive subMove :: "int \<Rightarrow> int \<Rightarrow> usage \<Rightarrow> usage \<Rightarrow> bool" where
  none: "i \<le> 0 \<or> x = 0 \<Longrightarrow> subMove i x f f"
| move: "subRoom i x f \<Longrightarrow> subMove i x f (addSub i x f)"

text \<open>
  Undoing a subscription pre-consume: once, and not at all when its record or its subscription
  is gone.
\<close>

inductive preRefund :: "string \<Rightarrow> usage \<Rightarrow> precharges \<Rightarrow> usage \<Rightarrow> precharges \<Rightarrow> bool" where
  skip: "preRefund rid f g f g"
| zero: "g rid = Some (i, a, st) \<Longrightarrow> st \<noteq> ''refunded'' \<Longrightarrow> a \<le> 0 \<Longrightarrow>
     preRefund rid f g f (g(rid \<mapsto> (i, a, ''refunded'')))"
| undo: "g rid = Some (i, a, st) \<Longrightarrow> st \<noteq> ''refunded'' \<Longrightarrow> a > 0 \<Longrightarrow> subRoom i (- a) f \<Longrightarrow>
     preRefund rid f g (addSub i (- a) f) (g(rid \<mapsto> (i, a, ''refunded'')))"

definition freshRow :: "string \<Rightarrow> BillingRecovery \<Rightarrow> bool" where
  "freshRow rid r \<longleftrightarrow> brRequestID r = rid \<and> brSource r \<in> {''wallet'', ''subscription''} \<and>
     brFundingAmount r = 0 \<and> brExtraAmount r = 0 \<and> brTokenAmount r = 0 \<and>
     brPreConsumeState r = BillingRecoveryPreConsumePrepared \<and>
     brFundingRefund r = BillingRecoveryStatePending \<and> brExtraRefund r = BillingRecoveryStatePending \<and>
     brTokenRefund r = BillingRecoveryStatePending \<and>
     brFundingSettlement r = BillingRecoveryStatePending \<and>
     brTokenSettlement r = BillingRecoveryStatePending \<and> brStatus r = BillingRecoveryStatusActive"

definition noRefundMarkers :: "ledger \<Rightarrow> string \<Rightarrow> bool" where
  "noRefundMarkers s rid \<longleftrightarrow> (\<forall>c. lAdj s (rid, c, BillingRecoveryOperationRefund) = None)"

definition chargesToken :: "BillingRecovery \<Rightarrow> bool" where
  "chargesToken r \<longleftrightarrow> brTokenRequired r \<and> brTokenID r > 0"

text \<open>
  A row is re-bound to another funding source only if no refund was ever applied to it, and
  refunds are applied to rows already marked for refund; this is how the session and the worker
  call the component.
\<close>

inductive astep :: "string \<Rightarrow> ledger \<Rightarrow> ledger \<Rightarrow> bool" for rid where
  create: "lRec s rid = None \<Longrightarrow> freshRow rid r \<Longrightarrow>
     astep rid s (setRow rid r (s\<lparr>lIds := lIds s @ [rid]\<rparr>))"
| rebind: "lRec s rid = Some r \<Longrightarrow> billingRecoveryIsReusable r \<Longrightarrow> noRefundMarkers s rid \<Longrightarrow>
     src \<in> {''wallet'', ''subscription''} \<Longrightarrow>
     astep rid s (setRow rid (r\<lparr>brSource := src, brStatus := BillingRecoveryStatusActive\<rparr>) s)"
| abort: "lRec s rid = Some r \<Longrightarrow> brStatus r = BillingRecoveryStatusActive \<Longrightarrow>
     brPreConsumeState r = BillingRecoveryPreConsumePrepared \<Longrightarrow>
     brFundingAmount r = 0 \<Longrightarrow> brExtraAmount r = 0 \<Longrightarrow> brTokenAmount r = 0 \<Longrightarrow>
     astep rid s (setRow rid (r\<lparr>brStatus := BillingRecoveryStatusRefunded\<rparr>) s)"
| preconsume: "lRec s rid = Some r \<Longrightarrow> brSource r = ''wallet'' \<Longrightarrow>
     brStatus r = BillingRecoveryStatusActive \<Longrightarrow>
     brPreConsumeState r \<noteq> BillingRecoveryPreConsumeCommitted \<Longrightarrow> 0 \<le> q \<Longrightarrow>
     astep rid s (setRow rid (r\<lparr>brFundingAmount := q, brTokenAmount := (if brTokenRequired r then q else 0),
         brPreConsumeState := BillingRecoveryPreConsumeCommitted\<rparr>)
       (addBal (brUserID r) (- q) (if chargesToken r then addTok (brTokenID r) (- q) s else s)))"
| reserveWallet: "lRec s rid = Some r \<Longrightarrow> brSource r = ''wallet'' \<Longrightarrow>
     brStatus r = BillingRecoveryStatusActive \<Longrightarrow>
     brPreConsumeState r = BillingRecoveryPreConsumeCommitted \<Longrightarrow> 0 < x \<Longrightarrow>
     lAdj s (rid, BillingRecoveryComponentReserve n, BillingRecoveryOperationReserve) = None \<Longrightarrow>
     astep rid s (setAdj (rid, BillingRecoveryComponentReserve n, BillingRecoveryOperationReserve) x
       (setRow rid (r\<lparr>brFundingAmount := brFundingAmount r + x,
           brTokenAmount := brTokenAmount r + (if chargesToken r then x else 0)\<rparr>)
         (addBal (brUserID r) (- x) (if chargesToken r then addTok (brTokenID r) (- x) s else s))))"
| reserveSub: "lRec s rid = Some r \<Longrightarrow> brSource r = ''subscription'' \<Longrightarrow>
     brStatus r = BillingRecoveryStatusActive \<Longrightarrow>
     brPreConsumeState r = BillingRecoveryPreConsumeCommitted \<Longrightarrow> 0 < x \<Longrightarrow>
     lAdj s (rid, BillingRecoveryComponentReserve n, BillingRecoveryOperationReserve) = None \<Longrightarrow>
     subMove (brSubscriptionID r) x (lSub s) f \<Longrightarrow>
     astep rid s (setAdj (rid, BillingRecoveryComponentReserve n, BillingRecoveryOperationReserve) x
       (setRow rid (r\<lparr>brExtraAmount := brExtraAmount r + x,
           brTokenAmount := brTokenAmount r + (if chargesToken r then x else 0)\<rparr>)
         (if chargesToken r then addTok (brTokenID r) (- x) (s\<lparr>lSub := f\<rparr>) else s\<lparr>lSub := f\<rparr>)))"
| sync: "lRec s rid = Some r \<Longrightarrow> brStatus r = BillingRecoveryStatusActive \<Longrightarrow>
     0 \<le> f \<Longrightarrow> 0 \<le> e \<Longrightarrow> 0 \<le> n \<Longrightarrow> (brSource r = ''wallet'' \<longrightarrow> f = brFundingAmount r) \<Longrightarrow>
     astep rid s (setRow rid (r\<lparr>brSubscriptionID := i, brFundingAmount := f, brExtraAmount := e,
         brTokenAmount := n, brPreConsumeState := BillingRecoveryPreConsumeCommitted\<rparr>) s)"
| intent: "lRec s rid = Some r \<Longrightarrow> settleable r \<Longrightarrow>
     astep rid s (setRow rid (r\<lparr>brSettlementDelta := x,
         brStatus := BillingRecoveryStatusSettlementPending\<rparr>) s)"
| refundPending: "lRec s rid = Some r \<Longrightarrow>
     brStatus r = BillingRecoveryStatusActive \<or> brStatus r = BillingRecoveryStatusRefundPending \<Longrightarrow>
     astep rid s (setRow rid (r\<lparr>brStatus := BillingRecoveryStatusRefundPending\<rparr>) s)"
| refundPendingSub: "lRec s rid = Some r \<Longrightarrow>
     brStatus r = BillingRecoveryStatusActive \<or> brStatus r = BillingRecoveryStatusRefundPending \<Longrightarrow>
     brSource r = ''subscription'' \<Longrightarrow> brPreConsumeState r = BillingRecoveryPreConsumePrepared \<Longrightarrow>
     lPre s rid = Some (i, a, ''consumed'') \<Longrightarrow>
     astep rid s (setRow rid (r\<lparr>brStatus := BillingRecoveryStatusRefundPending,
         brSubscriptionID := i, brFundingAmount := a,
         brTokenAmount := (if brTokenRequired r then a else brTokenAmount r),
         brPreConsumeState := BillingRecoveryPreConsumeCommitted\<rparr>) s)"
| settleWallet: "lRec s rid = Some r \<Longrightarrow> brStatus r = BillingRecoveryStatusSettlementPending \<Longrightarrow>
     lAdj s (rid, BillingRecoveryComponentFunding, BillingRecoveryOperationSettle) = None \<Longrightarrow>
     brSource r = ''wallet'' \<Longrightarrow>
     astep rid s (setRow rid (r\<lparr>brFundingSettlement := BillingRecoveryStateCompleted\<rparr>)
       (setAdj (rid, BillingRecoveryComponentFunding, BillingRecoveryOperationSettle) (brSettlementDelta r)
         (addBal (brUserID r) (- brSettlementDelta r) s)))"
| settleSub: "lRec s rid = Some r \<Longrightarrow> brStatus r = BillingRecoveryStatusSettlementPending \<Longrightarrow>
     lAdj s (rid, BillingRecoveryComponentFunding, BillingRecoveryOperationSettle) = None \<Longrightarrow>
     brSource r = ''subscription'' \<Longrightarrow> subMove (brSubscriptionID r) (brSettlementDelta r) (lSub s) f \<Longrightarrow>
     astep rid s (setRow rid (r\<lparr>brFundingSettlement := BillingRecoveryStateCompleted\<rparr>)
       (setAdj (rid, BillingRecoveryComponentFunding, BillingRecoveryOperationSettle) (brSettlementDelta r)
         (s\<lparr>lSub := f\<rparr>)))"
| settleToken: "lRec s rid = Some r \<Longrightarrow> brStatus r = BillingRecoveryStatusSettlementPending \<Longrightarrow>
     lAdj s (rid, BillingRecoveryComponentToken, BillingRecoveryOperationSettle) = None \<Longrightarrow>
     astep rid s (setRow rid (r\<lparr>brTokenSettlement := BillingRecoveryStateCompleted\<rparr>)
       (setAdj (rid, BillingRecoveryComponentToken, BillingRecoveryOperationSettle) (brSettlementDelta r)
         (if brTokenID r > 0 then addTok (brTokenID r) (- brSettlementDelta r) s else s)))"
| refundWallet: "lRec s rid = Some r \<Longrightarrow> brStatus r = BillingRecoveryStatusRefundPending \<Longrightarrow>
     lAdj s (rid, BillingRecoveryComponentFunding, BillingRecoveryOperationRefund) = None \<Longrightarrow>
     brSource r = ''wallet'' \<Longrightarrow>
     astep rid s (setRow rid (r\<lparr>brFundingRefund := BillingRecoveryStateCompleted\<rparr>)
       (setAdj (rid, BillingRecoveryComponentFunding, BillingRecoveryOperationRefund) (brFundingAmount r)
         (addBal (brUserID r) (brFundingAmount r) s)))"
| refundSub: "lRec s rid = Some r \<Longrightarrow> brStatus r = BillingRecoveryStatusRefundPending \<Longrightarrow>
     lAdj s (rid, BillingRecoveryComponentFunding, BillingRecoveryOperationRefund) = None \<Longrightarrow>
     brSource r = ''subscription'' \<Longrightarrow> preRefund rid (lSub s) (lPre s) f g \<Longrightarrow>
     astep rid s (setRow rid (r\<lparr>brFundingRefund := BillingRecoveryStateCompleted\<rparr>)
       (setAdj (rid, BillingRecoveryComponentFunding, BillingRecoveryOperationRefund) (brFundingAmount r)
         (s\<lparr>lSub := f, lPre := g\<rparr>)))"
| refundExtra: "lRec s rid = Some r \<Longrightarrow> brStatus r = BillingRecoveryStatusRefundPending \<Longrightarrow>
     lAdj s (rid, BillingRecoveryComponentExtra, BillingRecoveryOperationRefund) = None \<Longrightarrow>
     subMove (brSubscriptionID r) (- brExtraAmount r) (lSub s) f \<Longrightarrow>
     astep rid s (setRow rid (r\<lparr>brExtraRefund := BillingRecoveryStateCompleted\<rparr>)
       (setAdj (rid, BillingRecoveryComponentExtra, BillingRecoveryOperationRefund) (brExtraAmount r)
         (s\<lparr>lSub := f\<rparr>)))"
| refundToken: "lRec s rid = Some r \<Longrightarrow> brStatus r = BillingRecoveryStatusRefundPending \<Longrightarrow>
     lAdj s (rid, BillingRecoveryComponentToken, BillingRecoveryOperationRefund) = None \<Longrightarrow>
     astep rid s (setRow rid (r\<lparr>brTokenRefund := BillingRecoveryStateCompleted\<rparr>)
       (setAdj (rid, BillingRecoveryComponentToken, BillingRecoveryOperationRefund) (brTokenAmount r)
         (if brTokenID r > 0 then addTok (brTokenID r) (brTokenAmount r) s else s)))"
| settled: "lRec s rid = Some r \<Longrightarrow> brStatus r = BillingRecoveryStatusSettlementPending \<Longrightarrow>
     BillingRecoverySettlementComplete r \<Longrightarrow>
     astep rid s (setRow rid (r\<lparr>brStatus := BillingRecoveryStatusSettled\<rparr>) s)"
| refunded: "lRec s rid = Some r \<Longrightarrow> brStatus r = BillingRecoveryStatusRefundPending \<Longrightarrow>
     BillingRecoveryRefundComplete r \<Longrightarrow>
     astep rid s (setRow rid (r\<lparr>brStatus := BillingRecoveryStatusRefunded\<rparr>) s)"

inductive ledger_step :: "ledger \<Rightarrow> ledger \<Rightarrow> bool" where
  "astep rid s t \<Longrightarrow> ledger_step s t"

section \<open>The invariant\<close>

definition settleMarked :: "ledger \<Rightarrow> string \<Rightarrow> bool" where
  "settleMarked s rid \<longleftrightarrow> (\<exists>c. lAdj s (rid, c, BillingRecoveryOperationSettle) \<noteq> None)"

definition refundMarked :: "ledger \<Rightarrow> string \<Rightarrow> bool" where
  "refundMarked s rid \<longleftrightarrow> (\<exists>c. lAdj s (rid, c, BillingRecoveryOperationRefund) \<noteq> None)"

definition marked :: "ledger \<Rightarrow> string \<Rightarrow> BillingRecoveryComponent \<Rightarrow> BillingRecoveryOperation \<Rightarrow> bool" where
  "marked s rid c x \<longleftrightarrow> lAdj s (rid, c, x) \<noteq> None"

text \<open>
  A row and its markers agree: the component columns say which markers exist, settle markers
  occur only on the settlement side of the status machine and refund markers only on the refund
  side, a closed row is complete, and a wallet refund marker carries the reserved amount.
\<close>

definition rowOk :: "ledger \<Rightarrow> string \<Rightarrow> BillingRecovery \<Rightarrow> bool" where
  "rowOk s rid r \<longleftrightarrow> brRequestID r = rid \<and> brSource r \<in> {''wallet'', ''subscription''} \<and>
     brStatus r \<noteq> BillingRecoveryStatusUnset \<and>
     (brPreConsumeState r \<noteq> BillingRecoveryPreConsumeCommitted \<longrightarrow>
        brPreConsumeState r = BillingRecoveryPreConsumePrepared \<and>
        brFundingAmount r = 0 \<and> brExtraAmount r = 0 \<and> brTokenAmount r = 0) \<and>
     (settleMarked s rid \<longrightarrow> brStatus r \<in> {BillingRecoveryStatusSettlementPending, BillingRecoveryStatusSettled}) \<and>
     (refundMarked s rid \<longrightarrow> brStatus r \<in> {BillingRecoveryStatusRefundPending, BillingRecoveryStatusRefunded}) \<and>
     (brFundingSettlement r = BillingRecoveryStateCompleted \<longleftrightarrow>
        marked s rid BillingRecoveryComponentFunding BillingRecoveryOperationSettle) \<and>
     (brTokenSettlement r = BillingRecoveryStateCompleted \<longleftrightarrow>
        marked s rid BillingRecoveryComponentToken BillingRecoveryOperationSettle) \<and>
     (brFundingRefund r = BillingRecoveryStateCompleted \<longleftrightarrow>
        marked s rid BillingRecoveryComponentFunding BillingRecoveryOperationRefund) \<and>
     (brExtraRefund r = BillingRecoveryStateCompleted \<longleftrightarrow>
        marked s rid BillingRecoveryComponentExtra BillingRecoveryOperationRefund) \<and>
     (brTokenRefund r = BillingRecoveryStateCompleted \<longleftrightarrow>
        marked s rid BillingRecoveryComponentToken BillingRecoveryOperationRefund) \<and>
     (brStatus r = BillingRecoveryStatusSettled \<longrightarrow> BillingRecoverySettlementComplete r) \<and>
     (brStatus r = BillingRecoveryStatusRefunded \<longrightarrow>
        billingRecoveryIsReusable r \<or> BillingRecoveryRefundComplete r) \<and>
     (brSource r = ''wallet'' \<longrightarrow>
        lAdj s (rid, BillingRecoveryComponentFunding, BillingRecoveryOperationRefund) \<in> {None, Some (brFundingAmount r)})"

definition awf :: "ledger \<Rightarrow> bool" where
  "awf s \<longleftrightarrow> distinct (lIds s) \<and> set (lIds s) = dom (lRec s) \<and>
     (\<forall>rid c x. lAdj s (rid, c, x) \<noteq> None \<longrightarrow> lRec s rid \<noteq> None) \<and>
     (\<forall>rid r. lRec s rid = Some r \<longrightarrow> rowOk s rid r)"

lemmas ledger_upd_defs = setRow_def addBal_def addTok_def setAdj_def

lemma ledger_upd_simps [simp]:
  "lRec (setRow rid r s) = (lRec s)(rid \<mapsto> r)" "lRec (addBal u x s) = lRec s"
  "lRec (addTok t x s) = lRec s" "lRec (setAdj k a s) = lRec s"
  "lAdj (setRow rid r s) = lAdj s" "lAdj (addBal u x s) = lAdj s" "lAdj (addTok t x s) = lAdj s"
  "lAdj (setAdj k a s) = (lAdj s)(k \<mapsto> a)"
  "lIds (setRow rid r s) = lIds s" "lIds (addBal u x s) = lIds s" "lIds (addTok t x s) = lIds s"
  "lIds (setAdj k a s) = lIds s"
  "lBal (setRow rid r s) = lBal s" "lBal (addBal u x s) = (lBal s)(u := lBal s u + x)"
  "lBal (addTok t x s) = lBal s" "lBal (setAdj k a s) = lBal s"
  "lTok (setRow rid r s) = lTok s" "lTok (addBal u x s) = lTok s"
  "lTok (addTok t x s) = (lTok s)(t := lTok s t + x)" "lTok (setAdj k a s) = lTok s"
  "lPre (setRow rid r s) = lPre s" "lPre (addBal u x s) = lPre s"
  "lPre (addTok t x s) = lPre s" "lPre (setAdj k a s) = lPre s"
  "lSub (setRow rid r s) = lSub s" "lSub (addBal u x s) = lSub s"
  "lSub (addTok t x s) = lSub s" "lSub (setAdj k a s) = lSub s"
  by (simp_all add: ledger_upd_defs)

text \<open>A step touches the row and the markers of its own request only.\<close>

lemma astep_frame:
  assumes "astep rid s t" "rid' \<noteq> rid"
  shows "lRec t rid' = lRec s rid'" "lAdj t (rid', c, x) = lAdj s (rid', c, x)"
  using assms by (cases; simp split: if_split)+

lemma astep_markers_grow:
  assumes "astep rid s t" "lAdj s k = Some a"
  shows "lAdj t k = Some a"
  using assms by cases (auto split: if_split)

lemma astep_ids_cases:
  assumes "astep rid s t"
  shows "(lRec s rid = None \<and> lIds t = lIds s @ [rid]) \<or> (lRec s rid \<noteq> None \<and> lIds t = lIds s)"
  using assms by cases (simp_all split: if_split)

lemma astep_dom:
  assumes "astep rid s t"
  shows "dom (lRec t) = insert rid (dom (lRec s))"
  using assms by cases (simp_all split: if_split)

lemma astep_ids:
  assumes "astep rid s t" "distinct (lIds s)" "set (lIds s) = dom (lRec s)"
  shows "distinct (lIds t) \<and> set (lIds t) = dom (lRec t)"
  using astep_ids_cases [OF assms(1)] astep_dom [OF assms(1)] assms(2,3) by auto

lemma rowOk_cong:
  assumes "\<And>c x. lAdj t (rid, c, x) = lAdj s (rid, c, x)"
  shows "rowOk t rid r = rowOk s rid r"
  using assms by (simp add: rowOk_def settleMarked_def refundMarked_def marked_def)

lemma marks_upd [simp]:
  "settleMarked (setRow rid' r s) rid = settleMarked s rid"
  "refundMarked (setRow rid' r s) rid = refundMarked s rid"
  "marked (setRow rid' r s) rid c x = marked s rid c x"
  "settleMarked (addBal u y s) rid = settleMarked s rid" "refundMarked (addBal u y s) rid = refundMarked s rid"
  "marked (addBal u y s) rid c x = marked s rid c x"
  "settleMarked (addTok u y s) rid = settleMarked s rid" "refundMarked (addTok u y s) rid = refundMarked s rid"
  "marked (addTok u y s) rid c x = marked s rid c x"
  "settleMarked (s\<lparr>lIds := ids\<rparr>) rid = settleMarked s rid" "refundMarked (s\<lparr>lIds := ids\<rparr>) rid = refundMarked s rid"
  "marked (s\<lparr>lIds := ids\<rparr>) rid c x = marked s rid c x"
  "settleMarked (s\<lparr>lSub := f\<rparr>) rid = settleMarked s rid" "refundMarked (s\<lparr>lSub := f\<rparr>) rid = refundMarked s rid"
  "marked (s\<lparr>lSub := f\<rparr>) rid c x = marked s rid c x"
  "settleMarked (s\<lparr>lPre := g\<rparr>) rid = settleMarked s rid" "refundMarked (s\<lparr>lPre := g\<rparr>) rid = refundMarked s rid"
  "marked (s\<lparr>lPre := g\<rparr>) rid c x = marked s rid c x"
  by (simp_all add: settleMarked_def refundMarked_def marked_def)

lemma marks_setAdj [simp]:
  "settleMarked (setAdj (rid, c, x) a s) rid \<longleftrightarrow> x = BillingRecoveryOperationSettle \<or> settleMarked s rid"
  "refundMarked (setAdj (rid, c, x) a s) rid \<longleftrightarrow> x = BillingRecoveryOperationRefund \<or> refundMarked s rid"
  "marked (setAdj (rid, c, x) a s) rid c' x' \<longleftrightarrow> (c' = c \<and> x' = x) \<or> marked s rid c' x'"
  by (auto simp: settleMarked_def refundMarked_def marked_def)

lemma noRefundMarkers_marked: "noRefundMarkers s rid \<longleftrightarrow> \<not> refundMarked s rid"
  by (simp add: noRefundMarkers_def refundMarked_def)

lemma unmarked_funding_refund:
  "\<not> refundMarked s rid \<Longrightarrow> lAdj s (rid, c, BillingRecoveryOperationRefund) = None"
  by (simp add: refundMarked_def)

lemmas row_defs = rowOk_def billingRecoveryIsReusable_def BillingRecoverySettlementComplete_def
  BillingRecoveryRefundComplete_def settleable_def freshRow_def chargesToken_def

lemma complete_status [simp]:
  "BillingRecoveryRefundComplete (r\<lparr>brStatus := x\<rparr>) = BillingRecoveryRefundComplete r"
  "BillingRecoverySettlementComplete (r\<lparr>brStatus := x\<rparr>) = BillingRecoverySettlementComplete r"
  by (simp_all add: BillingRecoveryRefundComplete_def BillingRecoverySettlementComplete_def)

lemma astep_rowOk:
  assumes "astep rid s t" "awf s"
  shows "\<forall>r'. lRec t rid = Some r' \<longrightarrow> rowOk t rid r'"
proof -
  have row: "rowOk s rid r" if "lRec s rid = Some r" for r
    using assms(2) that by (simp add: awf_def)
  have "lAdj s (rid, c, x) = None" if "lRec s rid = None" for c x
    using assms(2) that unfolding awf_def by (metis option.exhaust)
  then have fresh: "\<not> settleMarked s rid" "\<not> refundMarked s rid" "\<not> marked s rid c x"
    if "lRec s rid = None" for c x
    using that by (simp_all add: settleMarked_def refundMarked_def marked_def)
  from assms(1) show ?thesis
  proof cases
    case (create r)
    with fresh show ?thesis by (auto simp: row_defs unmarked_funding_refund)
  next
    case (rebind r src)
    with row [of r] show ?thesis by (auto simp: row_defs noRefundMarkers_marked unmarked_funding_refund)
  next
    case (preconsume r q)
    with row [of r] show ?thesis by (auto simp: row_defs unmarked_funding_refund)
  next
    case (reserveWallet r x n)
    with row [of r] show ?thesis by (auto simp: row_defs unmarked_funding_refund)
  next
    case (intent r x)
    with row [of r] show ?thesis by (cases "brStatus r") (simp_all add: row_defs split: if_splits)
  next
    case (refundPending r)
    with row [of r] show ?thesis by (cases "brStatus r") (simp_all add: row_defs split: if_splits)
  next
    case (refundPendingSub r i a)
    with row [of r] show ?thesis by (cases "brStatus r") (simp_all add: row_defs split: if_splits)
  next
    case (refunded r)
    with row [of r] show ?thesis by (simp add: rowOk_def)
  qed (use row in \<open>simp add: row_defs split: if_splits\<close>)+
qed

lemma astep_awf:
  assumes step: "astep rid s t" and wf: "awf s"
  shows "awf t"
proof -
  have "rowOk t rid' r" if "lRec t rid' = Some r" for rid' r
  proof (cases "rid' = rid")
    case True
    with astep_rowOk [OF step wf] that show ?thesis by simp
  next
    case False
    with astep_frame [OF step False] that wf show ?thesis
      using rowOk_cong [of t rid' s r] by (simp add: awf_def)
  qed
  moreover have "lRec t rid' \<noteq> None" if "lAdj t (rid', c, x) \<noteq> None" for rid' c x
  proof (cases "rid' = rid")
    case True
    from step have "lRec t rid \<noteq> None" by (auto elim!: astep.cases)
    with True show ?thesis by simp
  next
    case False
    have "lAdj s (rid', c, x) \<noteq> None" using astep_frame(2) [OF step False] that by simp
    then have "lRec s rid' \<noteq> None" using wf unfolding awf_def by blast
    then show ?thesis using astep_frame(1) [OF step False] by simp
  qed
  ultimately show ?thesis
    using astep_ids [OF step] wf by (simp add: awf_def)
qed

interpretation ledger: step_system ledger_step awf
  by unfold_locales (auto elim!: ledger_step.cases intro: astep_awf)

section \<open>Charges\<close>

definition adjv :: "ledger \<Rightarrow> adjustment_key \<Rightarrow> int" where
  "adjv s k = (case lAdj s k of None \<Rightarrow> 0 | Some a \<Rightarrow> a)"

text \<open>What a request currently costs the wallet of its user.\<close>

definition walletCharge :: "ledger \<Rightarrow> string \<Rightarrow> int" where
  "walletCharge s rid = (case lRec s rid of None \<Rightarrow> 0 | Some r \<Rightarrow>
     if brSource r = ''wallet''
     then brFundingAmount r
        + adjv s (rid, BillingRecoveryComponentFunding, BillingRecoveryOperationSettle)
        - adjv s (rid, BillingRecoveryComponentFunding, BillingRecoveryOperationRefund)
     else 0)"

definition ownerIs :: "ledger \<Rightarrow> string \<Rightarrow> int \<Rightarrow> bool" where
  "ownerIs s rid u = (case lRec s rid of None \<Rightarrow> False | Some r \<Rightarrow> brUserID r = u)"

lemma ownerIs_iff: "ownerIs s rid u \<longleftrightarrow> (\<exists>r. lRec s rid = Some r \<and> brUserID r = u)"
  by (simp add: ownerIs_def split: option.split)

definition userCharges :: "ledger \<Rightarrow> int \<Rightarrow> int" where
  "userCharges s u = (\<Sum>rid\<leftarrow>lIds s. if ownerIs s rid u then walletCharge s rid else 0)"

lemma adjv_upd [simp]:
  "adjv (setRow rid r s) k = adjv s k" "adjv (addBal u x s) k = adjv s k" "adjv (addTok t x s) k = adjv s k"
  "adjv (setAdj k' a s) k = (if k = k' then a else adjv s k)" "adjv (s\<lparr>lIds := ids\<rparr>) k = adjv s k"
  "adjv (s\<lparr>lSub := f\<rparr>) k = adjv s k" "adjv (s\<lparr>lPre := g\<rparr>) k = adjv s k"
  by (simp_all add: adjv_def)

lemma awf_row: "awf s \<Longrightarrow> lRec s rid = Some r \<Longrightarrow> rowOk s rid r"
  by (simp add: awf_def)

lemma unmarked_adjv:
  assumes "rowOk s rid r"
  shows "brStatus r \<in> {BillingRecoveryStatusActive, BillingRecoveryStatusRefundPending, BillingRecoveryStatusRefunded}
           \<Longrightarrow> adjv s (rid, c, BillingRecoveryOperationSettle) = 0"
    and "brStatus r \<in> {BillingRecoveryStatusActive, BillingRecoveryStatusSettlementPending, BillingRecoveryStatusSettled}
           \<Longrightarrow> adjv s (rid, c, BillingRecoveryOperationRefund) = 0"
proof -
  assume st: "brStatus r \<in> {BillingRecoveryStatusActive, BillingRecoveryStatusRefundPending, BillingRecoveryStatusRefunded}"
  have "\<not> settleMarked s rid"
  proof
    assume "settleMarked s rid"
    with assms have "brStatus r \<in> {BillingRecoveryStatusSettlementPending, BillingRecoveryStatusSettled}"
      unfolding rowOk_def by blast
    with st show False by auto
  qed
  then show "adjv s (rid, c, BillingRecoveryOperationSettle) = 0" by (simp add: settleMarked_def adjv_def)
next
  assume st: "brStatus r \<in> {BillingRecoveryStatusActive, BillingRecoveryStatusSettlementPending, BillingRecoveryStatusSettled}"
  have "\<not> refundMarked s rid"
  proof
    assume "refundMarked s rid"
    with assms have "brStatus r \<in> {BillingRecoveryStatusRefundPending, BillingRecoveryStatusRefunded}"
      unfolding rowOk_def by blast
    with st show False by auto
  qed
  then show "adjv s (rid, c, BillingRecoveryOperationRefund) = 0" by (simp add: refundMarked_def adjv_def)
qed

text \<open>
  The balance of a user moves exactly against the charge of the request stepped on, and every
  other balance and charge stays.
\<close>

lemma astep_charge:
  assumes step: "astep rid s t" and wf: "awf s"
  shows "lBal t u - lBal s u =
     (if ownerIs t rid u then walletCharge s rid - walletCharge t rid else 0)"
proof -
  have row: "rowOk s rid r" if "lRec s rid = Some r" for r
    using wf that by (rule awf_row)
  have none: "adjv s (rid, c, x) = 0" if "lRec s rid = None" for c x
    using wf that unfolding awf_def adjv_def by (metis option.case_eq_if)
  from step show ?thesis
  proof cases
    case (create r)
    with none show ?thesis by (simp add: walletCharge_def freshRow_def)
  next
    case (rebind r src)
    with row [of r] unmarked_adjv(1) [OF row, of r BillingRecoveryComponentFunding] show ?thesis
      by (simp add: walletCharge_def ownerIs_iff billingRecoveryIsReusable_def adjv_def noRefundMarkers_def)
  next
    case (preconsume r q)
    with row [of r] show ?thesis by (auto simp: walletCharge_def ownerIs_iff rowOk_def)
  next
    case (settleWallet r)
    then show ?thesis by (auto simp: walletCharge_def ownerIs_iff adjv_def)
  next
    case (refundWallet r)
    then show ?thesis by (auto simp: walletCharge_def ownerIs_iff adjv_def)
  qed (auto simp: walletCharge_def ownerIs_iff)
qed

lemma sum_list_one:
  fixes f g :: "'a \<Rightarrow> int"
  assumes "distinct xs" "\<And>x. x \<in> set xs \<Longrightarrow> x \<noteq> a \<Longrightarrow> g x = f x"
  shows "(\<Sum>x\<leftarrow>xs. g x) = (\<Sum>x\<leftarrow>xs. f x) + (if a \<in> set xs then g a - f a else 0)"
  using assms
proof (induction xs)
  case (Cons y ys)
  then show ?case by (cases "y = a") auto
qed simp

lemma astep_owner:
  assumes "astep rid s t" "lRec s rid = Some r"
  shows "ownerIs t rid u = ownerIs s rid u"
  using assms by cases (simp_all add: ownerIs_iff split: if_split)

lemma astep_charge_other:
  assumes "astep rid s t" "rid' \<noteq> rid"
  shows "walletCharge t rid' = walletCharge s rid'" "ownerIs t rid' u = ownerIs s rid' u"
  using astep_frame [OF assms]
  by (simp_all add: walletCharge_def ownerIs_iff adjv_def split: option.split)

lemma astep_conserves:
  assumes step: "astep rid s t" and wf: "awf s"
  shows "lBal t u + userCharges t u = lBal s u + userCharges s u"
proof -
  let ?f = "\<lambda>v rid. if ownerIs v rid u then walletCharge v rid else 0"
  have other: "?f t x = ?f s x" if "x \<noteq> rid" for x
    using astep_charge_other [OF step that] by simp
  have bal: "lBal t u - lBal s u = (if ownerIs t rid u then walletCharge s rid - walletCharge t rid else 0)"
    by (rule astep_charge [OF step wf])
  consider "lRec s rid = None" "lIds t = lIds s @ [rid]" | "lRec s rid \<noteq> None" "lIds t = lIds s"
    using astep_ids_cases [OF step] by (elim disjE conjE)
  then show ?thesis
  proof cases
    case 1
    then have "rid \<notin> set (lIds s)" using wf by (auto simp: awf_def)
    then have "(\<Sum>x\<leftarrow>lIds s. ?f t x) = (\<Sum>x\<leftarrow>lIds s. ?f s x)"
      by (intro arg_cong [where f = sum_list] map_cong refl) (metis other)
    moreover have "walletCharge s rid = 0" using 1(1) by (simp add: walletCharge_def)
    ultimately show ?thesis using bal 1(2) by (auto simp: userCharges_def split: if_splits)
  next
    case 2
    then have "rid \<in> set (lIds s)" "distinct (lIds s)" using wf by (auto simp: awf_def)
    moreover have "ownerIs t rid u = ownerIs s rid u" using astep_owner [OF step] 2(1) by auto
    ultimately show ?thesis
      using sum_list_one [of "lIds s" rid "?f t" "?f s"] other bal 2(2)
      by (auto simp: userCharges_def split: if_splits)
  qed
qed

lemma ledger_conserves:
  assumes "ledger_step\<^sup>*\<^sup>* s t" "awf s"
  shows "lBal t u + userCharges t u = lBal s u + userCharges s u"
  using assms
proof (induction rule: rtranclp_induct)
  case (step t v)
  from step.IH [OF step.prems] ledger.inv_run [OF step.hyps(1) step.prems] step.hyps(2) show ?case
    by (auto elim!: ledger_step.cases simp: astep_conserves)
qed simp

section \<open>Closed requests\<close>

lemma awf_exclusive: "awf s \<Longrightarrow> \<not> (settleMarked s rid \<and> refundMarked s rid)"
proof
  assume wf: "awf s" and both: "settleMarked s rid \<and> refundMarked s rid"
  then obtain r where r: "lRec s rid = Some r"
    unfolding awf_def settleMarked_def by (metis option.exhaust)
  from awf_row [OF wf r] both
  have "brStatus r \<in> {BillingRecoveryStatusSettlementPending, BillingRecoveryStatusSettled}"
    "brStatus r \<in> {BillingRecoveryStatusRefundPending, BillingRecoveryStatusRefunded}"
    unfolding rowOk_def by blast+
  then show False by auto
qed

lemma astep_settled:
  assumes "astep rid s t" "lRec s rid' = Some r" "brStatus r = BillingRecoveryStatusSettled"
  shows "lRec t rid' = Some r \<and> (\<forall>c x. lAdj t (rid', c, x) = lAdj s (rid', c, x))"
proof (cases "rid' = rid")
  case True
  from assms(1) show ?thesis
    using assms(2,3) True by cases (simp_all add: settleable_def billingRecoveryIsReusable_def)
next
  case False
  with astep_frame [OF assms(1) False] assms(2) show ?thesis by simp
qed

lemma settled_forever:
  assumes "ledger_step\<^sup>*\<^sup>* s t" "lRec s rid = Some r" "brStatus r = BillingRecoveryStatusSettled"
  shows "lRec t rid = Some r \<and> (\<forall>c x. lAdj t (rid, c, x) = lAdj s (rid, c, x))"
  using assms(1)
proof (induction rule: rtranclp_induct)
  case base
  with assms(2) show ?case by simp
next
  case (step t v)
  from step.hyps(2) show ?case
    using step.IH astep_settled [of _ t v rid r] assms(3) by (auto elim!: ledger_step.cases)
qed

lemma settled_charge:
  assumes "awf s" "lRec s rid = Some r" "brStatus r = BillingRecoveryStatusSettled" "brSource r = ''wallet''"
  shows "\<exists>x. lAdj s (rid, BillingRecoveryComponentFunding, BillingRecoveryOperationSettle) = Some x \<and>
             walletCharge s rid = brFundingAmount r + x"
proof -
  have ok: "rowOk s rid r" using assms(1,2) by (rule awf_row)
  then have "BillingRecoverySettlementComplete r"
    using assms(3) unfolding rowOk_def by blast
  then have "brFundingSettlement r = BillingRecoveryStateCompleted"
    by (simp add: BillingRecoverySettlementComplete_def)
  then have "marked s rid BillingRecoveryComponentFunding BillingRecoveryOperationSettle"
    using ok unfolding rowOk_def by blast
  moreover have "adjv s (rid, BillingRecoveryComponentFunding, BillingRecoveryOperationRefund) = 0"
    using unmarked_adjv(2) [OF ok] assms(3) by simp
  ultimately show ?thesis using assms(2,4) by (auto simp: walletCharge_def marked_def adjv_def)
qed

lemma refunded_charge:
  assumes "awf s" "lRec s rid = Some r" "brStatus r = BillingRecoveryStatusRefunded"
  shows "walletCharge s rid = 0"
proof (cases "brSource r = ''wallet''")
  case True
  have ok: "rowOk s rid r" using assms(1,2) by (rule awf_row)
  have st: "adjv s (rid, BillingRecoveryComponentFunding, BillingRecoveryOperationSettle) = 0"
    using unmarked_adjv(1) [OF ok] assms(3) by simp
  have "billingRecoveryIsReusable r \<or> BillingRecoveryRefundComplete r"
    using ok assms(3) by (simp add: rowOk_def)
  moreover have "lAdj s (rid, BillingRecoveryComponentFunding, BillingRecoveryOperationRefund)
      \<in> {None, Some (brFundingAmount r)}" using ok True by (simp add: rowOk_def)
  moreover have "BillingRecoveryRefundComplete r \<Longrightarrow>
      marked s rid BillingRecoveryComponentFunding BillingRecoveryOperationRefund"
    using ok unfolding rowOk_def BillingRecoveryRefundComplete_def by (metis (full_types))
  ultimately show ?thesis using st assms(2) True
    by (auto simp: walletCharge_def adjv_def billingRecoveryIsReusable_def marked_def)
qed (simp add: walletCharge_def assms(2))

end
