(* ===== verification/Recovery_Refinement.thy ===== *)
theory Recovery_Refinement
  imports Recovery_Ledger
begin

text \<open>
  The operations of \<open>model/billing_recovery.go\<close> implement the steps of the abstract ledger.

  For every operation and every fault schedule the ledger read off the world before and after a
  call is the same or related by one step of the operation's request.  A durable mutation takes
  the pending batch deltas of its wallet and token with it, so the statements assume either that
  no reply of the database is lost or that nothing is pending; a lost commit with pending deltas
  counts them twice, which is shown as well.
\<close>

section \<open>The ledger of an updated database\<close>

lemma shift_simps [simp]:
  "lRec (shift p q s) = lRec s" "lAdj (shift p q s) = lAdj s" "lIds (shift p q s) = lIds s"
  "lSub (shift p q s) = lSub s" "lPre (shift p q s) = lPre s"
  "lBal (shift p q s) = (\<lambda>i. lBal s i + p i)" "lTok (shift p q s) = (\<lambda>i. lTok s i + q i)"
  by (simp_all add: shift_def)

lemma shift_upd:
  "shift p q (setRow rid r s) = setRow rid r (shift p q s)"
  "shift p q (setAdj k a s) = setAdj k a (shift p q s)"
  "shift p q (addBal u x s) = addBal u x (shift p q s)"
  "shift p q (addTok t x s) = addTok t x (shift p q s)"
  "shift p q (s\<lparr>lIds := ids\<rparr>) = (shift p q s)\<lparr>lIds := ids\<rparr>"
  "shift p q (s\<lparr>lSub := f\<rparr>) = (shift p q s)\<lparr>lSub := f\<rparr>"
  "shift p q (s\<lparr>lPre := g\<rparr>) = (shift p q s)\<lparr>lPre := g\<rparr>"
  by (simp_all add: shift_def ledger_upd_defs fun_eq_iff)

lemma shift_if:
  "shift p q (if b then addTok t x s else s) = (if b then addTok t x (shift p q s) else shift p q s)"
  by (simp add: shift_upd)

lemma noRefundMarkers_shift [simp]: "noRefundMarkers (shift p q s) rid = noRefundMarkers s rid"
  by (simp add: noRefundMarkers_def)

text \<open>Steps do not look at balances, so they survive adding pending deltas.\<close>

lemma astep_shift:
  assumes "astep rid s t"
  shows "astep rid (shift p q s) (shift p q t)"
  using assms
proof cases
  case (create r)
  then show ?thesis using astep.create [of "shift p q s" rid r] by (simp add: shift_upd)
next
  case (reserveSub r x n f)
  then show ?thesis using astep.reserveSub [of "shift p q s" rid r x n f]
    by (cases "chargesToken r") (simp_all add: shift_upd)
qed (simp_all add: shift_upd shift_if astep.intros split del: if_split)

lemma awf_shift [simp]: "awf (shift p q s) = awf s"
  by (simp add: awf_def rowOk_def settleMarked_def refundMarked_def marked_def)

lemma addTok_addBal: "addTok t x (addBal u y s) = addBal u y (addTok t x s)"
  by (simp add: ledger_upd_defs)

lemma add_zero [simp]: "addBal u 0 s = s" "addTok t 0 s = s"
  by (simp_all add: ledger_upd_defs)

lemma dbL_users:
  "users d i = Some r \<Longrightarrow> dbL (d\<lparr>users := (users d)(i \<mapsto> r\<lparr>uQuota := n\<rparr>)\<rparr>) = addBal i (n - uQuota r) (dbL d)"
  by (simp add: dbL_def addBal_def fun_eq_iff rowQuota_def rowRemain_def findSub_def)

lemma dbL_tokens:
  "tokens d i = Some t \<Longrightarrow> dbL (d\<lparr>tokens := (tokens d)(i \<mapsto> addTokenQuota now x t)\<rparr>) = addTok i x (dbL d)"
  by (simp add: dbL_def addTok_def fun_eq_iff rowQuota_def rowRemain_def findSub_def)

lemma dbL_recoveries:
  "dbL (d\<lparr>recoveries := (recoveries d)(rid \<mapsto> r)\<rparr>) = setRow rid (core r) (dbL d)"
  by (simp add: dbL_def setRow_def fun_eq_iff rowQuota_def rowRemain_def findSub_def)

lemma dbL_adjustments:
  "dbL (d\<lparr>adjustments := (adjustments d)(k \<mapsto> a)\<rparr>) = setAdj k (adAmount a) (dbL d)"
  by (simp add: dbL_def setAdj_def fun_eq_iff rowQuota_def rowRemain_def findSub_def)

lemma dbL_putSub:
  assumes "findSub d (usId u) = Some u0" "usAmountTotal u = usAmountTotal u0"
    "usAmountUsed u = max 0 (usAmountUsed u0 + x)"
  shows "dbL (putSub u d) = (dbL d)\<lparr>lSub := addSub (usId u) x (lSub (dbL d))\<rparr>"
proof -
  have "find (\<lambda>s. usId s = i) (map (\<lambda>t. if usId t = usId u then u else t) xs) =
      (if i = usId u then map_option (\<lambda>_. u) (find (\<lambda>s. usId s = usId u) xs)
       else find (\<lambda>s. usId s = i) xs)" for i xs
    by (induction xs) auto
  then show ?thesis using assms
    by (simp add: dbL_def putSub_def findSub_def addSub_def fun_eq_iff rowQuota_def rowRemain_def)
qed

lemma dbL_preconsumes:
  "dbL (d\<lparr>preconsumes := (preconsumes d)(rid \<mapsto> r)\<rparr>) =
     (dbL d)\<lparr>lPre := (lPre (dbL d))(rid \<mapsto> (pcUserSubscriptionId r, pcPreConsumed r, pcStatus r))\<rparr>"
  by (simp add: dbL_def fun_eq_iff rowQuota_def rowRemain_def findSub_def)

lemma core_simps [simp]:
  "brRequestID (core r) = brRequestID r" "brUserID (core r) = brUserID r" "brTokenID (core r) = brTokenID r"
  "brSubscriptionID (core r) = brSubscriptionID r" "brSource (core r) = brSource r"
  "brFundingAmount (core r) = brFundingAmount r" "brExtraAmount (core r) = brExtraAmount r"
  "brTokenAmount (core r) = brTokenAmount r" "brTokenRequired (core r) = brTokenRequired r"
  "brSettlementDelta (core r) = brSettlementDelta r" "brPreConsumeState (core r) = brPreConsumeState r"
  "brFundingRefund (core r) = brFundingRefund r" "brExtraRefund (core r) = brExtraRefund r"
  "brTokenRefund (core r) = brTokenRefund r" "brFundingSettlement (core r) = brFundingSettlement r"
  "brTokenSettlement (core r) = brTokenSettlement r" "brStatus (core r) = brStatus r"
  by (simp_all add: core_def)

lemma core_preds [simp]:
  "billingRecoveryIsReusable (core r) = billingRecoveryIsReusable r" "settleable (core r) = settleable r"
  "BillingRecoverySettlementComplete (core r) = BillingRecoverySettlementComplete r"
  "BillingRecoveryRefundComplete (core r) = BillingRecoveryRefundComplete r"
  "chargesToken (core r) = chargesToken r"
  by (simp_all add: billingRecoveryIsReusable_def settleable_def BillingRecoverySettlementComplete_def
      BillingRecoveryRefundComplete_def chargesToken_def)

lemma dbL_simps [simp]:
  "lRec (dbL d) rid = map_option core (recoveries d rid)" "lIds (dbL d) = recoveryIds d"
  "lAdj (dbL d) k = map_option adAmount (adjustments d k)"
  "lPre (dbL d) rid = map_option (\<lambda>p. (pcUserSubscriptionId p, pcPreConsumed p, pcStatus p)) (preconsumes d rid)"
  "lSub (dbL d) i = map_option (\<lambda>u. (usAmountUsed u, usAmountTotal u)) (findSub d i)"
  "lBal (dbL d) = rowQuota d" "lTok (dbL d) = rowRemain d"
  by (simp_all add: dbL_def)

section \<open>Bodies of the transactions\<close>

definition dbStep :: "string \<Rightarrow> db \<Rightarrow> db \<Rightarrow> bool" where
  "dbStep rid d d' \<longleftrightarrow> dbL d' = dbL d \<or> astep rid (dbL d) (dbL d')"

text \<open>A body of a transaction changes the database and nothing else.\<close>

definition dbOnly :: "world \<Rightarrow> world \<Rightarrow> bool" where
  "dbOnly w w' \<longleftrightarrow> sameSettings w w' \<and> batchUpdateStores w' = batchUpdateStores w \<and> async w' = async w"

interpretation dbonly: frame_rel dbOnly
  by unfold_locales (auto simp: dbOnly_def intro: sameSettings_trans)

lemma dbonly_caching: "framed cacheOnly m \<Longrightarrow> framed dbOnly m"
  by (simp add: framed_def cacheOnly_def dbOnly_def)

lemma dbonly_dbM: "framed dbOnly (dbM f)"
  by (simp add: framed_def dbM_def dbOnly_def split: fate.split)

lemma dbonly_statements:
  "framed dbOnly (execM f)" "framed dbOnly (createM g)" "framed dbOnly (updUser i P1 f1)"
  "framed dbOnly (updToken j P2 f2)" "framed dbOnly (updRecovery rid P3 f3)"
  unfolding execM_def createM_def updUser_def updToken_def updRecovery_def by (rule dbonly_dbM)+

lemma dbonly_saves: "framed dbOnly (saveSub s)" "framed dbOnly (savePreConsume r)"
  using dbonly_statements(1) by (auto simp: framed_def saveSub_def savePreConsume_def)

lemma dbonly_transaction: "framed dbOnly m \<Longrightarrow> framed dbOnly (transaction m)"
  unfolding framed_wp wp_transaction
  by (auto simp: wp_iff dbOnly_def sameSettings_def split: fate.split)

lemmas dbonly_intros =
  dbonly.framed_intros dbonly_statements dbonly_saves dbonly_transaction dbonly_caching [OF caching_firstM]
  dbonly_caching [OF caching_findM] dbonly_caching [OF caching_nowM]

lemma dbonly_helpers:
  "framed dbOnly (firstRecovery rid)" "framed dbOnly (createAdjustment k a)"
  "framed dbOnly (chargeTokenTx t q unl)" "framed dbOnly (postConsumeUserSubscriptionDeltaTx i x)"
  unfolding firstRecovery_def createAdjustment_def chargeTokenTx_def postConsumeUserSubscriptionDeltaTx_def
  by (intro dbonly_intros)+

lemma dbonly_subscription:
  "framed dbOnly (applySubscriptionDeltaTx i x)"
  "framed dbOnly (refundBillingRecoverySubscriptionPreConsumeTx rid)"
  unfolding applySubscriptionDeltaTx_def refundBillingRecoverySubscriptionPreConsumeTx_def
  by (intro dbonly_intros dbonly_helpers)+

lemma dbonly_effect: "framed dbOnly (applyBillingRecoveryEffect r c x a)"
  unfolding applyBillingRecoveryEffect_def
  by (cases c; simp only: BillingRecoveryComponent.case;
      intro dbonly_intros dbonly_helpers dbonly_subscription)

lemma dbonly_bodies:
  "framed dbOnly (applyPendingDeltas m)" "framed dbOnly (preConsumeWalletTx rid q unl)"
  "framed dbOnly (reserveTx rid n unl)" "framed dbOnly (adjustmentTx rid c x)"
  unfolding applyPendingDeltas_def preConsumeWalletTx_def preConsumeChargeTx_def reserveTx_def
    reserveDeltaTx_def adjustmentTx_def applyAdjustmentTx_def updateBillingRecoveryComponentState_def
  by (intro dbonly_intros dbonly_helpers dbonly_subscription dbonly_effect)+

text \<open>Only what a successful body leaves behind matters: an error rolls it back.\<close>

abbreviation wpOk :: "'a goM \<Rightarrow> ('a \<Rightarrow> world \<Rightarrow> bool) \<Rightarrow> world \<Rightarrow> bool" where
  "wpOk m Q \<equiv> wp m Q (\<lambda>_ _. True)"

lemmas statement_defs = updUser_def updToken_def updRecovery_def firstRecovery_def chargeTokenTx_def

lemma core_upd:
  "core (r\<lparr>brUpdatedAt := x0\<rparr>) = core r" "core (r\<lparr>brLastError := x1\<rparr>) = core r"
  "core (r\<lparr>brAttempts := x2\<rparr>) = core r"
  "core (r\<lparr>brFundingAmount := a\<rparr>) = (core r)\<lparr>brFundingAmount := a\<rparr>"
  "core (r\<lparr>brExtraAmount := a\<rparr>) = (core r)\<lparr>brExtraAmount := a\<rparr>"
  "core (r\<lparr>brTokenAmount := a\<rparr>) = (core r)\<lparr>brTokenAmount := a\<rparr>"
  "core (r\<lparr>brSubscriptionID := a\<rparr>) = (core r)\<lparr>brSubscriptionID := a\<rparr>"
  "core (r\<lparr>brSource := src\<rparr>) = (core r)\<lparr>brSource := src\<rparr>"
  "core (r\<lparr>brPreConsumeState := p\<rparr>) = (core r)\<lparr>brPreConsumeState := p\<rparr>"
  "core (r\<lparr>brStatus := st\<rparr>) = (core r)\<lparr>brStatus := st\<rparr>"
  "core (r\<lparr>brSettlementDelta := a\<rparr>) = (core r)\<lparr>brSettlementDelta := a\<rparr>"
  "core (r\<lparr>brFundingRefund := c\<rparr>) = (core r)\<lparr>brFundingRefund := c\<rparr>"
  "core (r\<lparr>brExtraRefund := c\<rparr>) = (core r)\<lparr>brExtraRefund := c\<rparr>"
  "core (r\<lparr>brTokenRefund := c\<rparr>) = (core r)\<lparr>brTokenRefund := c\<rparr>"
  "core (r\<lparr>brFundingSettlement := c\<rparr>) = (core r)\<lparr>brFundingSettlement := c\<rparr>"
  "core (r\<lparr>brTokenSettlement := c\<rparr>) = (core r)\<lparr>brTokenSettlement := c\<rparr>"
  by (simp_all add: core_def)

lemma wpOk_bind:
  assumes "wpOk m R w" "\<And>x w1. R x w1 \<Longrightarrow> wpOk (f x) Q w1"
  shows "wpOk (bindM m f) Q w"
  unfolding wp_bindM by (rule wp_mono [OF assms(1)]) (simp_all add: assms(2))

lemma wpOk_seq:
  assumes "wpOk m (\<lambda>_. R) w" "\<And>w1. R w1 \<Longrightarrow> wpOk n Q w1"
  shows "wpOk (seqM m n) Q w"
  unfolding seqM_def by (rule wpOk_bind [OF assms(1)]) (rule assms(2))

lemma wpOk_first:
  "(\<And>x. f (db w) = Some x \<Longrightarrow> wpOk (g x) Q (tick w)) \<Longrightarrow> wpOk (bindM (firstM f) g) Q w"
  by (simp add: wp_bindM wp_firstM split: option.split)

definition sameRows :: "db \<Rightarrow> db \<Rightarrow> bool" where
  "sameRows d d' \<longleftrightarrow> recoveries d' = recoveries d \<and> adjustments d' = adjustments d"

lemma block_token:
  "wpOk (chargeTokenTx t q unl)
     (\<lambda>_ w1. sameRows (db w) (db w1) \<and> dbL (db w1) = addTok t (- q) (dbL (db w))) w"
  by (simp add: chargeTokenTx_def updToken_def wp_simps sameRows_def dbL_tokens affected_def
      split: fate.split option.split)

lemma block_tokenAdd:
  "wpOk (bindM nowM (\<lambda>now. bindM (updToken t (\<lambda>_. True) (addTokenQuota now x)) (\<lambda>n.
       if n \<noteq> 1 then throwM e else retM ())))
     (\<lambda>_ w1. sameRows (db w) (db w1) \<and> dbL (db w1) = addTok t x (dbL (db w))) w"
  by (simp add: updToken_def wp_simps sameRows_def dbL_tokens affected_def
      split: fate.split option.split)

lemma block_user:
  assumes "\<And>r. f r = r\<lparr>uQuota := uQuota r + x\<rparr>"
  shows "wpOk (bindM (updUser u P f) (\<lambda>n. if n \<noteq> 1 then throwM e else retM ()))
     (\<lambda>_ w1. sameRows (db w) (db w1) \<and> dbL (db w1) = addBal u x (dbL (db w))) w"
  by (simp add: updUser_def wp_simps sameRows_def assms dbL_users affected_def
      split: fate.split option.split)

lemma block_whenToken:
  "wpOk (whenM b (chargeTokenTx t q unl))
     (\<lambda>_ w1. sameRows (db w) (db w1) \<and>
        dbL (db w1) = (if b then addTok t (- q) (dbL (db w)) else dbL (db w))) w"
proof (cases b)
  case True
  then show ?thesis using block_token [of t q unl w] by (simp add: whenM_def)
qed (simp add: whenM_def wp_retM sameRows_def)

lemma block_whenUser:
  assumes "\<And>r. f r = r\<lparr>uQuota := uQuota r + x\<rparr>"
  shows "wpOk (whenM b (bindM (updUser u P f) (\<lambda>n. if n \<noteq> 1 then throwM e else retM ())))
     (\<lambda>_ w1. sameRows (db w) (db w1) \<and>
        dbL (db w1) = (if b then addBal u x (dbL (db w)) else dbL (db w))) w"
proof (cases b)
  case True
  then show ?thesis using block_user [of f x u P e w] assms by (simp add: whenM_def)
qed (simp add: whenM_def wp_retM sameRows_def)

lemma block_row:
  assumes "recoveries (db w) rid = Some r"
  shows "wpOk (updRecovery rid (\<lambda>_. True) f)
     (\<lambda>_ w1. adjustments (db w1) = adjustments (db w) \<and>
        dbL (db w1) = setRow rid (core (f r)) (dbL (db w))) w"
  using assms by (simp add: updRecovery_def wp_simps dbL_recoveries split: fate.split)

lemma block_adj:
  "wpOk (createAdjustment k a)
     (\<lambda>_ w1. adjustments (db w) k = None \<and> recoveries (db w1) = recoveries (db w) \<and>
        dbL (db w1) = setAdj k a (dbL (db w))) w"
  by (simp add: createAdjustment_def BillingRecoveryAdjustment_BeforeCreate_def wp_simps dbL_adjustments
      split: fate.split option.split)

lemma findSub_id: "findSub d i = Some u \<Longrightarrow> usId u = i"
  by (auto simp: findSub_def find_Some_iff)

lemma putSub_simps [simp]:
  "recoveries (putSub u d) = recoveries d" "adjustments (putSub u d) = adjustments d"
  "preconsumes (putSub u d) = preconsumes d" "users (putSub u d) = users d" "tokens (putSub u d) = tokens d"
  by (simp_all add: putSub_def)

lemma dbL_postConsume:
  assumes "findSub d i = Some u"
  shows "usAmountUsed u + x < 0 \<Longrightarrow> dbL (putSub (u\<lparr>usAmountUsed := 0, usUpdatedAt := now\<rparr>) d) =
      (dbL d)\<lparr>lSub := addSub i x (lSub (dbL d))\<rparr>"
    and "\<not> usAmountUsed u + x < 0 \<Longrightarrow>
      dbL (putSub (u\<lparr>usAmountUsed := usAmountUsed u + x, usUpdatedAt := now\<rparr>) d) =
      (dbL d)\<lparr>lSub := addSub i x (lSub (dbL d))\<rparr>"
  using dbL_putSub [of d "u\<lparr>usAmountUsed := 0, usUpdatedAt := now\<rparr>" u x]
    dbL_putSub [of d "u\<lparr>usAmountUsed := usAmountUsed u + x, usUpdatedAt := now\<rparr>" u x]
    assms findSub_id [OF assms] by simp_all

lemma block_post:
  "wpOk (postConsumeUserSubscriptionDeltaTx i x)
     (\<lambda>_ w1. sameRows (db w) (db w1) \<and> preconsumes (db w1) = preconsumes (db w) \<and>
        subRoom i x (lSub (dbL (db w))) \<and>
        dbL (db w1) = (dbL (db w))\<lparr>lSub := addSub i x (lSub (dbL (db w)))\<rparr>) w"
  by (auto simp: postConsumeUserSubscriptionDeltaTx_def wp_simps sameRows_def subRoom_def dbL_postConsume
      max_def split: fate.split option.split)

lemma block_sub:
  "wpOk (applySubscriptionDeltaTx i x)
     (\<lambda>_ w1. sameRows (db w) (db w1) \<and>
        (\<exists>f. subMove i x (lSub (dbL (db w))) f \<and> dbL (db w1) = (dbL (db w))\<lparr>lSub := f\<rparr>)) w"
proof (cases "i \<le> 0 \<or> x = 0")
  case True
  then show ?thesis
    by (auto simp: applySubscriptionDeltaTx_def wp_simps sameRows_def intro!: exI [of _ "lSub (dbL (db w))"] subMove.none)
next
  case False
  then have eq: "applySubscriptionDeltaTx i x = postConsumeUserSubscriptionDeltaTx i x"
    by (simp add: applySubscriptionDeltaTx_def)
  show ?thesis unfolding eq
    by (rule wp_mono [OF block_post]) (auto intro: subMove.move)
qed

lemma block_savePre:
  "wpOk (bindM (savePreConsume r) (\<lambda>_. retM ()))
     (\<lambda>_ w1. sameRows (db w) (db w1) \<and> dbL (db w1) = (dbL (db w))\<lparr>lPre := (lPre (dbL (db w)))
        (pcRequestId r \<mapsto> (pcUserSubscriptionId r, pcPreConsumed r, pcStatus r))\<rparr>) w"
  by (simp add: wp_simps sameRows_def dbL_preconsumes split: fate.split)

text \<open>
  The refund of a subscription pre-consume inside the adjustment: \<open>ErrRecordNotFound\<close> can only
  come from a lookup that precedes every write.
\<close>

definition refundFound :: "string \<Rightarrow> unit goM" where
  "refundFound rid = bindM (tryM (refundBillingRecoverySubscriptionPreConsumeTx rid)) (\<lambda>r.
     case r of Inl e \<Rightarrow> if errIs e ErrRecordNotFound then retM () else throwM e | Inr _ \<Rightarrow> retM ())"

definition preRefunded :: "string \<Rightarrow> db \<Rightarrow> db \<Rightarrow> bool" where
  "preRefunded rid d d' \<longleftrightarrow> sameRows d d' \<and> (\<exists>f g. preRefund rid (lSub (dbL d)) (lPre (dbL d)) f g \<and>
     dbL d' = (dbL d)\<lparr>lSub := f, lPre := g\<rparr>)"

lemma preRefunded_refl: "preRefunded rid d d"
  unfolding preRefunded_def sameRows_def
  by (intro conjI exI [of _ "lSub (dbL d)"] exI [of _ "lPre (dbL d)"]) (simp_all add: preRefund.skip)

definition idsOk :: "db \<Rightarrow> bool" where
  "idsOk d \<longleftrightarrow> (\<forall>rid r. preconsumes d rid = Some r \<longrightarrow> pcRequestId r = rid)"

lemma post_error:
  "wp (postConsumeUserSubscriptionDeltaTx i x) (\<lambda>_ _. True)
     (\<lambda>e w1. errIs e ErrRecordNotFound \<longrightarrow> db w1 = db w) w"
  by (simp add: postConsumeUserSubscriptionDeltaTx_def wp_simps split: fate.split option.split)

lemma savePre_error:
  "wp (bindM (savePreConsume r) (\<lambda>_. retM ())) (\<lambda>_ _. True) (\<lambda>e _. \<not> errIs e ErrRecordNotFound) w"
  by (simp add: wp_simps split: fate.split)

lemma refundFound_block:
  assumes ids: "idsOk (db w)"
  shows "wpOk (refundFound rid) (\<lambda>_ w1. preRefunded rid (db w) (db w1)) w"
proof -
  let ?E = "\<lambda>e w1. errIs e ErrRecordNotFound \<longrightarrow> preRefunded rid (db w) (db w1)"
  have "wp (refundBillingRecoverySubscriptionPreConsumeTx rid) (\<lambda>_ w1. preRefunded rid (db w) (db w1)) ?E w"
    (is "wp ?m ?Q ?E w")
  proof (cases "preconsumes (db w) rid")
    case None
    then show ?thesis
      by (simp add: refundBillingRecoverySubscriptionPreConsumeTx_def wp_bindM wp_firstM preRefunded_refl)
  next
    case (Some r)
    have rid: "pcRequestId r = rid" using ids Some by (simp add: idsOk_def)
    let ?save = "bindM (savePreConsume (r\<lparr>pcStatus := ''refunded''\<rparr>)) (\<lambda>_. retM ())"
    have "wp (if pcStatus r = ''refunded'' then retM ()
       else seqM (whenM (pcPreConsumed r > 0)
          (postConsumeUserSubscriptionDeltaTx (pcUserSubscriptionId r) (- pcPreConsumed r))) ?save)
       ?Q ?E (tick w)"
    proof -
      have zero: "wp ?save ?Q ?E (tick w)" if "\<not> pcPreConsumed r > 0" "pcStatus r \<noteq> ''refunded''"
      proof (rule wp_mono [OF wp_conj [OF block_savePre savePre_error]], elim conjE)
        fix w1
        assume "sameRows (db (tick w)) (db w1)" and
          "dbL (db w1) = (dbL (db (tick w)))\<lparr>lPre := (lPre (dbL (db (tick w))))
             (pcRequestId (r\<lparr>pcStatus := ''refunded''\<rparr>) \<mapsto> (pcUserSubscriptionId (r\<lparr>pcStatus := ''refunded''\<rparr>),
                pcPreConsumed (r\<lparr>pcStatus := ''refunded''\<rparr>), pcStatus (r\<lparr>pcStatus := ''refunded''\<rparr>)))\<rparr>"
        with that rid Some show "preRefunded rid (db w) (db w1)"
          unfolding preRefunded_def
          by (intro conjI exI [of _ "lSub (dbL (db w))"] exI
              [of _ "(lPre (dbL (db w)))(rid \<mapsto> (pcUserSubscriptionId r, pcPreConsumed r, ''refunded''))"]
              preRefund.zero [where st = "pcStatus r"]) simp_all
      qed simp
      have undo: "wp (postConsumeUserSubscriptionDeltaTx (pcUserSubscriptionId r) (- pcPreConsumed r))
          (\<lambda>_. wp ?save ?Q ?E) ?E (tick w)" if "pcPreConsumed r > 0" "pcStatus r \<noteq> ''refunded''"
      proof (rule wp_mono [OF wp_conj [OF block_post post_error]], goal_cases)
        case (1 x w1)
        show ?case
        proof (rule wp_mono [OF wp_conj [OF block_savePre savePre_error]], elim conjE)
          fix w2
          assume "sameRows (db w1) (db w2)" and
            "dbL (db w2) = (dbL (db w1))\<lparr>lPre := (lPre (dbL (db w1)))
             (pcRequestId (r\<lparr>pcStatus := ''refunded''\<rparr>) \<mapsto> (pcUserSubscriptionId (r\<lparr>pcStatus := ''refunded''\<rparr>),
                pcPreConsumed (r\<lparr>pcStatus := ''refunded''\<rparr>), pcStatus (r\<lparr>pcStatus := ''refunded''\<rparr>)))\<rparr>"
          with 1 that rid Some show "preRefunded rid (db w) (db w2)"
            unfolding preRefunded_def
            by (intro conjI exI [of _ "addSub (pcUserSubscriptionId r) (- pcPreConsumed r) (lSub (dbL (db w)))"] exI
                [of _ "(lPre (dbL (db w)))(rid \<mapsto> (pcUserSubscriptionId r, pcPreConsumed r, ''refunded''))"]
                preRefund.undo [where st = "pcStatus r"]) (simp_all add: sameRows_def)
        qed simp
      next
        case (2 e w1)
        then show ?case by (simp add: preRefunded_refl)
      qed
      show ?thesis
        using zero undo by (simp add: wp_if wp_seqM wp_whenM wp_retM preRefunded_refl)
    qed
    with Some show ?thesis
      by (simp add: refundBillingRecoverySubscriptionPreConsumeTx_def wp_bindM wp_firstM)
  qed
  then show ?thesis
    unfolding refundFound_def wp_bindM wp_tryM
    by (rule wp_mono) (auto simp: wp_simps)
qed

lemma preConsumeChargeTx_step:
  assumes "0 \<le> q" and r: "recoveries (db w) rid = Some r"
    and c: "brSource r = ''wallet''" "brStatus r = BillingRecoveryStatusActive"
      "brPreConsumeState r \<noteq> BillingRecoveryPreConsumeCommitted"
  shows "wpOk (preConsumeChargeTx rid r q unl) (\<lambda>_ w'. dbStep rid (db w) (db w')) w"
  unfolding preConsumeChargeTx_def
proof (rule wpOk_seq [OF block_whenToken],
    rule wpOk_seq [OF block_whenUser [where x = "- q"]], simp, elim conjE)
  let ?tok = "brTokenRequired r \<and> brTokenID r > 0 \<and> q > 0"
  let ?row = "\<lambda>now r0. r0\<lparr>brFundingAmount := q, brTokenAmount := (if brTokenRequired r then q else 0),
              brPreConsumeState := BillingRecoveryPreConsumeCommitted, brUpdatedAt := now\<rparr>"
  fix w1 w2 :: world
  assume rows: "sameRows (db w) (db w1)" "sameRows (db w1) (db w2)"
    and L: "dbL (db w1) = (if ?tok then addTok (brTokenID r) (- q) (dbL (db w)) else dbL (db w))"
      "dbL (db w2) = (if q > 0 then addBal (brUserID r) (- q) (dbL (db w1)) else dbL (db w1))"
  have r2: "recoveries (db w2) rid = Some r" using rows r by (simp add: sameRows_def)
  have L2: "dbL (db w2) = addBal (brUserID r) (- q)
      (if chargesToken r then addTok (brTokenID r) (- q) (dbL (db w)) else dbL (db w))"
    using L assms(1) by (cases "q = 0") (auto simp: chargesToken_def)
  have "lRec (dbL (db w)) rid = Some (core r)" using r by simp
  from astep.preconsume [OF this _ _ _ assms(1)] c
  have "astep rid (dbL (db w)) (setRow rid (core (?row (clock w2) r)) (dbL (db w2)))"
    unfolding L2 core_upd by (simp cong: if_cong split del: if_split)
  then show "wpOk (bindM nowM (\<lambda>now. bindM (updRecovery rid (\<lambda>_. True) (?row now)) (\<lambda>_. retM ())))
     (\<lambda>_ w'. dbStep rid (db w) (db w')) w2"
    unfolding wp_bindM wp_nowM wp_retM
    by (intro wp_mono [OF block_row [OF r2]]) (simp_all add: dbStep_def)
qed

lemma preConsumeWalletTx_step:
  assumes "0 \<le> q"
  shows "wpOk (preConsumeWalletTx rid q unl) (\<lambda>_ w'. dbStep rid (db w) (db w')) w"
  unfolding preConsumeWalletTx_def firstRecovery_def
proof (rule wpOk_first)
  fix r
  assume "recoveries (db w) rid = Some r"
  then show "wpOk (if brSource r \<noteq> ''wallet'' \<or> brStatus r \<noteq> BillingRecoveryStatusActive
     then throwM ErrBillingRecoveryStateConflict
     else if brPreConsumeState r = BillingRecoveryPreConsumeCommitted
     then (if brFundingAmount r = q \<and> (\<not> brTokenRequired r \<or> brTokenAmount r = q)
           then retM () else throwM ErrBillingRecoveryStateConflict)
     else preConsumeChargeTx rid r q unl) (\<lambda>_ w'. dbStep rid (db w) (db w')) (tick w)"
    using preConsumeChargeTx_step [OF assms, of "tick w" rid r unl]
    by (auto simp: wp_if wp_throwM wp_retM dbStep_def)
qed

end
