(* ===== verification/Recovery_Ops.thy ===== *)
theory Recovery_Ops
  imports Recovery_Refinement
begin

text \<open>
  The operations of \<open>model/billing_recovery.go\<close> as a whole: every call, successful or not, leaves
  the ledger unchanged or takes one step of the abstract machine.  On top of the refinement the
  theory states the accounting contract over sequences of calls: wallet balances and recorded
  charges add up, an adjustment is applied once, settled requests stay settled.
\<close>

section \<open>The reservation body\<close>

lemma wpOk_marker:
  assumes "\<And>m. adjustments (db w) k = Some m \<Longrightarrow> wpOk (f (Inr m)) Q (tick w)"
    and "adjustments (db w) k = None \<Longrightarrow> wpOk (f (Inl ErrRecordNotFound)) Q (tick w)"
    and "wpOk (f (Inl ErrDB)) Q (tick w)"
  shows "wpOk (bindM (tryM (firstM (\<lambda>d. adjustments d k))) f) Q w"
  using assms by (simp add: wp_bindM wp_tryM wp_firstM split: option.split)

lemma wpOk_now: "wpOk (f (clock w)) Q w \<Longrightarrow> wpOk (bindM nowM f) Q w"
  by (simp add: wp_bindM wp_nowM)

lemma wpOk_weaken: "wpOk m R w \<Longrightarrow> (\<And>x w1. R x w1 \<Longrightarrow> Q x w1) \<Longrightarrow> wpOk m Q w"
  by (erule wp_mono) simp_all

lemma reserve_finish:
  assumes row: "recoveries (db w) rid = Some r" and adj: "adjustments (db w) = adjustments d"
    and step: "adjustments d k = None \<Longrightarrow> astep rid (dbL d) (setAdj k a (setRow rid (core (f r)) (dbL (db w))))"
  shows "wpOk (seqM (updRecovery rid (\<lambda>_. True) f) (seqM (createAdjustment k a) (retM y)))
     (\<lambda>_ w'. dbStep rid d (db w')) w"
proof (rule wpOk_seq [OF block_row [OF row]], elim conjE)
  fix w1 :: world
  assume w1: "adjustments (db w1) = adjustments (db w)" "dbL (db w1) = setRow rid (core (f r)) (dbL (db w))"
  show "wpOk (seqM (createAdjustment k a) (retM y)) (\<lambda>_ w'. dbStep rid d (db w')) w1"
    unfolding wp_seqM wp_retM
    by (rule wpOk_weaken [OF block_adj]) (use w1 adj step in \<open>simp add: dbStep_def\<close>)
qed

lemma addTok_addBal_if:
  "(if b then addTok t x (addBal u y s) else addBal u y s) = addBal u y (if b then addTok t x s else s)"
  by (simp add: ledger_upd_defs)

lemma reserveDeltaTx_step:
  assumes r: "recoveries (db w) rid = Some r" "brSource r \<in> {''wallet'', ''subscription''}"
    and c: "brStatus r = BillingRecoveryStatusActive" "brPreConsumeState r = BillingRecoveryPreConsumeCommitted"
      "0 < delta" and k: "k = (rid, BillingRecoveryComponentReserve n, BillingRecoveryOperationReserve)"
    and free: "adjustments (db w) k = None"
  shows "wpOk (reserveDeltaTx rid r k delta unl) (\<lambda>_ w'. dbStep rid (db w) (db w')) w"
proof (cases "brSource r = ''subscription''")
  case True
  have lr: "lRec (dbL (db w)) rid = Some (core r)" using r by simp
  show ?thesis unfolding reserveDeltaTx_def if_P [OF True]
  proof (rule wpOk_seq [OF block_sub], rule wpOk_seq [OF block_whenToken], rule wpOk_now, elim conjE exE)
    fix w1 w2 :: world and f
    assume rows: "sameRows (db w) (db w1)" "sameRows (db w1) (db w2)"
      and mv: "subMove (brSubscriptionID r) delta (lSub (dbL (db w))) f"
      and L: "dbL (db w1) = (dbL (db w))\<lparr>lSub := f\<rparr>"
        "dbL (db w2) = (if brTokenRequired r \<and> brTokenID r > 0
           then addTok (brTokenID r) (- delta) (dbL (db w1)) else dbL (db w1))"
    show "wpOk (seqM (updRecovery rid (\<lambda>_. True) (\<lambda>r0. r0\<lparr>brUpdatedAt := clock w2,
          brExtraAmount := brExtraAmount r0 + delta, brFundingAmount := brFundingAmount r0 + 0,
          brTokenAmount := brTokenAmount r0 + (if brTokenRequired r \<and> brTokenID r > 0 then delta else 0)\<rparr>))
       (seqM (createAdjustment k delta) (retM delta))) (\<lambda>_ w'. dbStep rid (db w) (db w')) w2"
      using astep.reserveSub [OF lr, of delta n f] rows r c free mv True
      by (intro reserve_finish)
        (simp_all add: sameRows_def L k core_upd chargesToken_def cong: if_cong split del: if_split)
  qed
next
  case False
  have lr: "lRec (dbL (db w)) rid = Some (core r)" using r by simp
  show ?thesis unfolding reserveDeltaTx_def if_not_P [OF False]
  proof (rule wpOk_seq [OF block_user [where x = "- delta"]], simp, rule wpOk_seq [OF block_whenToken],
      rule wpOk_now, elim conjE)
    fix w1 w2 :: world
    assume rows: "sameRows (db w) (db w1)" "sameRows (db w1) (db w2)"
      and L: "dbL (db w1) = addBal (brUserID r) (- delta) (dbL (db w))"
        "dbL (db w2) = (if brTokenRequired r \<and> brTokenID r > 0
           then addTok (brTokenID r) (- delta) (dbL (db w1)) else dbL (db w1))"
    show "wpOk (seqM (updRecovery rid (\<lambda>_. True) (\<lambda>r0. r0\<lparr>brUpdatedAt := clock w2,
          brExtraAmount := brExtraAmount r0 + 0, brFundingAmount := brFundingAmount r0 + delta,
          brTokenAmount := brTokenAmount r0 + (if brTokenRequired r \<and> brTokenID r > 0 then delta else 0)\<rparr>))
       (seqM (createAdjustment k delta) (retM delta))) (\<lambda>_ w'. dbStep rid (db w) (db w')) w2"
      using astep.reserveWallet [OF lr, of delta n] rows r c free False
      by (intro reserve_finish)
        (simp_all add: sameRows_def L k core_upd chargesToken_def addTok_addBal_if cong: if_cong split del: if_split)
  qed
qed

lemma reserveTx_step:
  assumes src: "\<And>r. recoveries (db w) rid = Some r \<Longrightarrow> brSource r \<in> {''wallet'', ''subscription''}"
  shows "wpOk (reserveTx rid n unl) (\<lambda>_ w'. dbStep rid (db w) (db w')) w"
  unfolding reserveTx_def firstRecovery_def
proof (rule wpOk_first, goal_cases)
  case (1 r)
  note go = reserveDeltaTx_step [OF _ src [OF 1], of "tick (tick w)"]
  show ?case
    unfolding Let_def wp_if wp_throwM wp_retM
    using go 1 by (auto intro!: wpOk_marker simp: wp_if wp_throwM wp_retM dbStep_def simp del: split_paired_All)
qed

section \<open>The adjustment body\<close>

text \<open>What each effect does to the ledger.\<close>

lemma effect_wallet:
  assumes "brSource r = ''wallet''" "x \<in> {BillingRecoveryOperationSettle, BillingRecoveryOperationRefund}"
  shows "wpOk (applyBillingRecoveryEffect r BillingRecoveryComponentFunding x a)
     (\<lambda>_ w1. sameRows (db w) (db w1) \<and> dbL (db w1) =
        addBal (brUserID r) (if x = BillingRecoveryOperationSettle then - a else a) (dbL (db w))) w"
proof (cases "a = 0")
  case True
  then show ?thesis by (simp add: applyBillingRecoveryEffect_def wp_retM sameRows_def)
next
  case False
  let ?y = "if x = BillingRecoveryOperationSettle then - a else a"
  have "applyBillingRecoveryEffect r BillingRecoveryComponentFunding x a =
      bindM (updUser (brUserID r) (\<lambda>_. True) (\<lambda>u. u\<lparr>uQuota := uQuota u + ?y\<rparr>)) (\<lambda>n.
        if n \<noteq> 1 then throwM ErrRecordNotFound else retM ())"
    using assms False by (auto simp: applyBillingRecoveryEffect_def Let_def)
  with block_user [of "\<lambda>u. u\<lparr>uQuota := uQuota u + ?y\<rparr>" ?y] show ?thesis by simp
qed

lemma effect_sub_settle:
  assumes "brSource r = ''subscription''"
  shows "wpOk (applyBillingRecoveryEffect r BillingRecoveryComponentFunding BillingRecoveryOperationSettle a)
     (\<lambda>_ w1. sameRows (db w) (db w1) \<and>
        (\<exists>f. subMove (brSubscriptionID r) a (lSub (dbL (db w))) f \<and> dbL (db w1) = (dbL (db w))\<lparr>lSub := f\<rparr>)) w"
proof (cases "a = 0")
  case True
  then show ?thesis
    by (auto simp: applyBillingRecoveryEffect_def wp_retM sameRows_def
        intro!: exI [of _ "lSub (dbL (db w))"] subMove.none)
next
  case False
  then have "applyBillingRecoveryEffect r BillingRecoveryComponentFunding BillingRecoveryOperationSettle a =
      applySubscriptionDeltaTx (brSubscriptionID r) a"
    using assms by (simp add: applyBillingRecoveryEffect_def)
  with block_sub show ?thesis by simp
qed

lemma effect_sub_refund:
  assumes "brSource r = ''subscription''" "brRequestID r = rid" "idsOk (db w)"
  shows "wpOk (applyBillingRecoveryEffect r BillingRecoveryComponentFunding BillingRecoveryOperationRefund a)
     (\<lambda>_ w1. preRefunded rid (db w) (db w1)) w"
proof (cases "a = 0")
  case True
  then show ?thesis by (simp add: applyBillingRecoveryEffect_def wp_retM preRefunded_refl)
next
  case False
  then have "applyBillingRecoveryEffect r BillingRecoveryComponentFunding BillingRecoveryOperationRefund a =
      refundFound rid"
    using assms(1,2) unfolding applyBillingRecoveryEffect_def refundFound_def by simp
  with refundFound_block [OF assms(3)] show ?thesis by simp
qed

lemma effect_extra:
  "wpOk (applyBillingRecoveryEffect r BillingRecoveryComponentExtra x a)
     (\<lambda>_ w1. sameRows (db w) (db w1) \<and>
        (\<exists>f. subMove (brSubscriptionID r) (- a) (lSub (dbL (db w))) f \<and> dbL (db w1) = (dbL (db w))\<lparr>lSub := f\<rparr>)) w"
proof (cases "a = 0")
  case True
  then show ?thesis
    by (auto simp: applyBillingRecoveryEffect_def wp_retM sameRows_def
        intro!: exI [of _ "lSub (dbL (db w))"] subMove.none)
next
  case False
  then have "applyBillingRecoveryEffect r BillingRecoveryComponentExtra x a =
      applySubscriptionDeltaTx (brSubscriptionID r) (- a)"
    by (simp add: applyBillingRecoveryEffect_def)
  with block_sub show ?thesis by simp
qed

lemma effect_token:
  assumes "x \<in> {BillingRecoveryOperationSettle, BillingRecoveryOperationRefund}"
  shows "wpOk (applyBillingRecoveryEffect r BillingRecoveryComponentToken x a)
     (\<lambda>_ w1. sameRows (db w) (db w1) \<and> dbL (db w1) = (if brTokenID r > 0
        then addTok (brTokenID r) (if x = BillingRecoveryOperationSettle then - a else a) (dbL (db w))
        else dbL (db w))) w"
proof (cases "a = 0 \<or> brTokenID r \<le> 0")
  case True
  then show ?thesis by (auto simp: applyBillingRecoveryEffect_def wp_retM sameRows_def)
next
  case False
  let ?y = "if x = BillingRecoveryOperationSettle then - a else a"
  have "applyBillingRecoveryEffect r BillingRecoveryComponentToken x a =
      bindM nowM (\<lambda>now. bindM (updToken (brTokenID r) (\<lambda>_. True) (addTokenQuota now ?y)) (\<lambda>n.
        if n \<noteq> 1 then throwM ErrRecordNotFound else retM ()))"
    using assms False by (auto simp: applyBillingRecoveryEffect_def Let_def)
  with block_tokenAdd [of "brTokenID r" ?y] False show ?thesis by simp
qed

lemma adjustment_finish:
  assumes row: "recoveries d rid = Some r" and same: "sameRows d (db w)"
    and upd: "\<And>now. \<exists>r'. setComponentState c x now r = Some r' \<and>
      (adjustments d (rid, c, x) = None \<longrightarrow>
         astep rid (dbL d) (setRow rid (core r') (setAdj (rid, c, x) a (dbL (db w)))))"
  shows "wpOk (seqM (createAdjustment (rid, c, x) a) (updateBillingRecoveryComponentState rid c x))
     (\<lambda>_ w'. dbStep rid d (db w')) w"
proof (rule wpOk_seq [OF block_adj], elim conjE)
  fix w1 :: world
  assume w1: "adjustments (db w) (rid, c, x) = None" "recoveries (db w1) = recoveries (db w)"
    "dbL (db w1) = setAdj (rid, c, x) a (dbL (db w))"
  obtain r' where r': "setComponentState c x (clock w1) r = Some r'"
    "astep rid (dbL d) (setRow rid (core r') (setAdj (rid, c, x) a (dbL (db w))))"
    using upd [of "clock w1"] w1(1) same by (auto simp: sameRows_def)
  moreover have "recoveries (db w1) rid = Some r" using w1(2) row same by (simp add: sameRows_def)
  ultimately show "wpOk (updateBillingRecoveryComponentState rid c x) (\<lambda>_ w'. dbStep rid d (db w')) w1"
    using w1(3) unfolding updateBillingRecoveryComponentState_def
    by (simp add: updRecovery_def wp_simps dbL_recoveries dbStep_def split: fate.split)
qed

lemma applyAdjustment_settle:
  assumes r: "recoveries (db w) rid = Some r" "brSource r \<in> {''wallet'', ''subscription''}"
    and c: "brStatus r = BillingRecoveryStatusSettlementPending"
      "c \<in> {BillingRecoveryComponentFunding, BillingRecoveryComponentToken}"
  shows "wpOk (applyAdjustmentTx rid r c BillingRecoveryOperationSettle) (\<lambda>_ w'. dbStep rid (db w) (db w')) w"
proof -
  note defs = applyAdjustmentTx_def Let_def
  note fin = adjustment_finish [OF r(1)]
  note rules = setComponentState_def core_upd adjustmentAmount_def
  consider "c = BillingRecoveryComponentFunding" "brSource r = ''wallet''"
    | "c = BillingRecoveryComponentFunding" "brSource r = ''subscription''" | "c = BillingRecoveryComponentToken"
    using r c by auto
  then show ?thesis
  proof cases
    case 1
    show ?thesis unfolding 1(1) defs
      by (rule wpOk_seq [OF effect_wallet], rule 1, simp, elim conjE, rule fin, assumption)
        (use r c 1 astep.settleWallet [of "dbL (db w)" rid "core r"] in \<open>simp add: rules\<close>)
  next
    case 2
    show ?thesis unfolding 2(1) defs
      by (rule wpOk_seq [OF effect_sub_settle], rule 2, elim conjE exE, rule fin, assumption)
        (use r c 2 astep.settleSub [of "dbL (db w)" rid "core r"] in \<open>simp add: rules\<close>)
  next
    case 3
    show ?thesis unfolding 3 defs
      by (rule wpOk_seq [OF effect_token], simp, elim conjE, rule fin, assumption)
        (use r c astep.settleToken [of "dbL (db w)" rid "core r"] in
          \<open>simp add: rules cong: if_cong split del: if_split\<close>)
  qed
qed

lemma applyAdjustment_refund:
  assumes r: "recoveries (db w) rid = Some r" "brSource r \<in> {''wallet'', ''subscription''}" "brRequestID r = rid"
    and ids: "idsOk (db w)"
    and c: "brStatus r = BillingRecoveryStatusRefundPending"
      "c \<in> {BillingRecoveryComponentFunding, BillingRecoveryComponentExtra, BillingRecoveryComponentToken}"
  shows "wpOk (applyAdjustmentTx rid r c BillingRecoveryOperationRefund) (\<lambda>_ w'. dbStep rid (db w) (db w')) w"
proof -
  note defs = applyAdjustmentTx_def Let_def
  note fin = adjustment_finish [OF r(1)]
  note rules = setComponentState_def core_upd adjustmentAmount_def
  consider "c = BillingRecoveryComponentFunding" "brSource r = ''wallet''"
    | "c = BillingRecoveryComponentFunding" "brSource r = ''subscription''"
    | "c = BillingRecoveryComponentExtra" | "c = BillingRecoveryComponentToken"
    using r c by auto
  then show ?thesis
  proof cases
    case 1
    show ?thesis unfolding 1(1) defs
      by (rule wpOk_seq [OF effect_wallet], rule 1, simp, elim conjE, rule fin, assumption)
        (use r c 1 astep.refundWallet [of "dbL (db w)" rid "core r"] in \<open>simp add: rules\<close>)
  next
    case 2
    show ?thesis unfolding 2(1) defs
      by (rule wpOk_seq [OF effect_sub_refund [where rid = rid]], rule 2, rule r, rule ids,
          unfold preRefunded_def, elim conjE exE, rule fin, assumption)
        (use r c 2 astep.refundSub [of "dbL (db w)" rid "core r"] in \<open>simp add: rules\<close>)
  next
    case 3
    show ?thesis unfolding 3 defs
      by (rule wpOk_seq [OF effect_extra], elim conjE exE, rule fin, assumption)
        (use r c astep.refundExtra [of "dbL (db w)" rid "core r"] in \<open>simp add: rules\<close>)
  next
    case 4
    show ?thesis unfolding 4 defs
      by (rule wpOk_seq [OF effect_token], simp, elim conjE, rule fin, assumption)
        (use r c astep.refundToken [of "dbL (db w)" rid "core r"] in
          \<open>simp add: rules cong: if_cong split del: if_split\<close>)
  qed
qed

definition sourceOk :: "string \<Rightarrow> db \<Rightarrow> bool" where
  "sourceOk rid d \<longleftrightarrow> (\<forall>r. recoveries d rid = Some r \<longrightarrow>
     brSource r \<in> {''wallet'', ''subscription''} \<and> brRequestID r = rid)"

lemma awf_sourceOk: "awf (dbL d) \<Longrightarrow> sourceOk rid d"
proof -
  assume "awf (dbL d)"
  then have "rowOk (dbL d) rid (core r)" if "recoveries d rid = Some r" for r
    using that by (simp add: awf_def)
  then have "brRequestID r = rid \<and> brSource r \<in> {''wallet'', ''subscription''}"
    if "recoveries d rid = Some r" for r
    using that unfolding rowOk_def core_simps by blast
  then show ?thesis unfolding sourceOk_def by blast
qed

text \<open>
  Refunds are only requested for rows already marked for refund (or closed): the worker and the
  session mark first.
\<close>

definition mayRefund :: "string \<Rightarrow> db \<Rightarrow> bool" where
  "mayRefund rid d \<longleftrightarrow> (\<forall>r. recoveries d rid = Some r \<longrightarrow> brStatus r \<noteq> BillingRecoveryStatusActive)"

lemma adjustmentTx_step:
  assumes "sourceOk rid (db w)" "idsOk (db w)"
    and "c \<in> {BillingRecoveryComponentFunding, BillingRecoveryComponentExtra, BillingRecoveryComponentToken}"
    and "x = BillingRecoveryOperationSettle \<or> x = BillingRecoveryOperationRefund \<and> mayRefund rid (db w)"
  shows "wpOk (adjustmentTx rid c x) (\<lambda>_ w'. dbStep rid (db w) (db w')) w"
  unfolding adjustmentTx_def firstRecovery_def
proof (rule wpOk_first, goal_cases)
  case (1 r)
  note r = 1 assms(1) [unfolded sourceOk_def, rule_format, OF 1]
  have st: "wpOk (applyAdjustmentTx rid r c x) (\<lambda>_ w'. dbStep rid (db w) (db w')) (tick (tick w))"
    if "x = BillingRecoveryOperationSettle" "brStatus r = BillingRecoveryStatusSettlementPending"
      "c \<in> {BillingRecoveryComponentFunding, BillingRecoveryComponentToken}"
    using applyAdjustment_settle [of "tick (tick w)" rid r c] r that by simp
  have rf: "wpOk (applyAdjustmentTx rid r c x) (\<lambda>_ w'. dbStep rid (db w) (db w')) (tick (tick w))"
    if "x = BillingRecoveryOperationRefund" "brStatus r = BillingRecoveryStatusRefundPending"
    using applyAdjustment_refund [of "tick (tick w)" rid r c] r that assms(2,3) by simp
  have "brStatus r \<noteq> BillingRecoveryStatusActive" if "x = BillingRecoveryOperationRefund"
    using assms(4) that 1 by (auto simp: mayRefund_def)
  with st rf assms(4) show ?case
    unfolding wp_if wp_throwM wp_retM
    by (auto intro!: wpOk_marker simp: wp_if wp_throwM wp_retM dbStep_def simp del: split_paired_All)
qed

section \<open>Transactions and pending deltas\<close>

definition absStep :: "string \<Rightarrow> world \<Rightarrow> world \<Rightarrow> bool" where
  "absStep rid w w' \<longleftrightarrow> absL w' = absL w \<or> astep rid (absL w) (absL w')"

definition nothingPending :: "world \<Rightarrow> bool" where
  "nothingPending w \<longleftrightarrow> (\<forall>i. pendingDelta w BatchUpdateTypeUserQuota i = 0 \<and>
     pendingDelta w BatchUpdateTypeTokenQuota i = 0)"

lemma absStep_refl: "absL w' = absL w \<Longrightarrow> absStep rid w w'"
  by (simp add: absStep_def)

lemma pending_stores: "batchUpdateStores w' = batchUpdateStores w \<Longrightarrow> pendingDelta w' = pendingDelta w"
  by (simp add: pendingDelta_def fun_eq_iff)

lemma dbStep_absStep: "dbOnly w w' \<Longrightarrow> dbStep rid (db w) (db w') \<Longrightarrow> absStep rid w w'"
  using astep_shift pending_stores [of w' w] by (auto simp: dbOnly_def dbStep_def absStep_def absL_def)

lemma transaction_step:
  assumes frame: "framed dbOnly m" and body: "wpOk m (\<lambda>_ w'. S (db w) (db w')) (tick w)"
  shows "wp (transaction m) (\<lambda>_ w'. dbOnly w w' \<and> S (db w) (db w'))
     (\<lambda>_ w'. dbOnly w w' \<and> (db w' = db w \<or> \<not> noLost w \<and> S (db w) (db w'))) w"
proof -
  have "wp m (\<lambda>_ w'. dbOnly w w' \<and> S (db w) (db w')) (\<lambda>_ w'. dbOnly w w') (tick w)"
    using wp_conj [OF body frame [unfolded framed_wp, rule_format]]
    by (rule wp_mono) (simp_all add: dbOnly_def sameSettings_def)
  moreover have "fateNow w' \<noteq> FLost" if "dbOnly w w'" "noLost w" for w'
    using that sameSettings_faults(1) [of w w'] by (simp add: dbOnly_def)
  ultimately show ?thesis
    unfolding wp_transaction
    by (auto elim!: wp_mono simp: dbOnly_def split: fate.split)
qed

text \<open>A transaction without pending deltas.\<close>

lemma transaction_absStep:
  assumes "framed dbOnly m" "wpOk m (\<lambda>_ w'. dbStep rid (db w) (db w')) (tick w)"
  shows "wp (transaction m) (\<lambda>_. absStep rid w) (\<lambda>_. absStep rid w) w"
  by (rule wp_mono [OF transaction_step [where S = "dbStep rid", OF assms]])
    (auto intro: dbStep_absStep simp: dbStep_def)

text \<open>What \<open>begin\<close> takes out of the batch stores.\<close>

definition tookPending :: "billingRecoveryQuotaMutation \<Rightarrow> world \<Rightarrow> world \<Rightarrow> bool" where
  "tookPending m w w1 \<longleftrightarrow> sameSettings w w1 \<and> db w1 = db w \<and>
     (\<forall>i. pendingDelta w BatchUpdateTypeUserQuota i = pendingDelta w1 BatchUpdateTypeUserQuota i +
        (if i = mUserID m then mUserPendingDelta m else 0)) \<and>
     (\<forall>i. pendingDelta w BatchUpdateTypeTokenQuota i = pendingDelta w1 BatchUpdateTypeTokenQuota i +
        (if i = mTokenID m then mTokenPendingDelta m else 0)) \<and>
     mUserPendingDelta m \<in> {0, pendingDelta w BatchUpdateTypeUserQuota (mUserID m)} \<and>
     mTokenPendingDelta m \<in> {0, pendingDelta w BatchUpdateTypeTokenQuota (mTokenID m)}"

lemma cacheOnly_absL: "cacheOnly w w' \<Longrightarrow> absL w' = absL w"
  using pending_stores [of w' w] by (simp add: cacheOnly_def absL_def)

lemma caching_invalidate:
  "framed cacheOnly (invalidateUserQuotaCacheForMutation i)" "framed cacheOnly (invalidateTokenCacheForMutation k)"
  unfolding invalidateUserQuotaCacheForMutation_def invalidateTokenCacheForMutation_def
  by (intro caching_intros)+

lemma wp_bind_caching_from:
  assumes "framed cacheOnly m" "cacheOnly w w0"
    and "\<And>x w1. cacheOnly w w1 \<Longrightarrow> wp (f x) Q (\<lambda>_. cacheOnly w) w1"
  shows "wp (bindM m f) Q (\<lambda>_. cacheOnly w) w0"
  using assms(2) by (intro wp_bind_caching [OF assms(1)] assms(3)) (blast intro: cacheOnly_trans)+

lemma begin_took:
  "wp (beginBillingRecoveryQuotaMutation rid a b) (\<lambda>m w1. tookPending m w w1) (\<lambda>_. cacheOnly w) w"
proof -
  have take: "wp (bindM (takePendingQuotaDelta BatchUpdateTypeUserQuota u) (\<lambda>up.
      bindM (takePendingQuotaDelta BatchUpdateTypeTokenQuota t) (\<lambda>tp.
        retM \<lparr>mUserID = u, mTokenID = t, mUserPendingDelta = up, mTokenPendingDelta = tp\<rparr>)))
      (\<lambda>m w1. tookPending m w w1) (\<lambda>_. cacheOnly w) w0" if "cacheOnly w w0" for w0 u t
    using that by (auto simp: wp_simps tookPending_def cacheOnly_def pendingDelta_def delete_conv')
  have fr: "framed cacheOnly (bindM (firstM (\<lambda>d. tokens d t)) (\<lambda>token.
       invalidateTokenCacheForMutation (tKey token)))" for t
    by (intro caching_intros caching_invalidate)
  show ?thesis
    unfolding beginBillingRecoveryQuotaMutation_def firstRecovery_def Let_def seqM_def wp_if wp_throwM
    by (intro if_bool_eq_conj [THEN iffD2] conjI impI cacheOnly_refl
        wp_bind_caching_from [OF caching_firstM] wp_bind_caching_from [OF caching.framed_getsM]
        wp_bind_caching_from [OF caching.framed_whenM [OF caching_invalidate(1)]]
        wp_bind_caching_from [OF caching.framed_whenM [OF fr]] take)
qed

lemma apply_pending_block:
  "wpOk (applyPendingDeltas m) (\<lambda>_ w1. sameRows (db w) (db w1) \<and> preconsumes (db w1) = preconsumes (db w) \<and>
     dbL (db w1) = addTok (mTokenID m) (mTokenPendingDelta m)
        (addBal (mUserID m) (mUserPendingDelta m) (dbL (db w)))) w"
  by (auto simp: applyPendingDeltas_def updUser_def updToken_def wp_simps sameRows_def dbL_users dbL_tokens
      affected_def split: fate.split option.split)

text \<open>
  Every durable mutation: begin, one transaction over the pending deltas and the body, release.
\<close>

lemma mutation_shift:
  assumes "tookPending m w w1"
  shows "absL w = shift (pendingDelta w1 BatchUpdateTypeUserQuota) (pendingDelta w1 BatchUpdateTypeTokenQuota)
     (addTok (mTokenID m) (mTokenPendingDelta m) (addBal (mUserID m) (mUserPendingDelta m) (dbL (db w))))"
  using assms by (simp add: absL_def shift_def ledger_upd_defs tookPending_def fun_eq_iff)

lemma release_pending:
  "wp (release m False) (\<lambda>_ w3. db w3 = db w2 \<and>
     (\<forall>i. pendingDelta w3 BatchUpdateTypeUserQuota i = pendingDelta w2 BatchUpdateTypeUserQuota i +
        (if i = mUserID m then mUserPendingDelta m else 0)) \<and>
     (\<forall>i. pendingDelta w3 BatchUpdateTypeTokenQuota i = pendingDelta w2 BatchUpdateTypeTokenQuota i +
        (if i = mTokenID m then mTokenPendingDelta m else 0))) E w2"
  by (simp add: release_def wp_simps pendingDelta_def update_conv')

lemma release_absL:
  assumes "tookPending m w w1" "batchUpdateStores w2 = batchUpdateStores w1" "db w2 = db w"
  shows "wp (release m False) (\<lambda>_ w3. absL w3 = absL w) E w2"
  using pending_stores [OF assms(2)] assms(1,3)
  by (intro wp_mono [OF release_pending [where E = E]]) (simp_all add: absL_def tookPending_def)

lemma nothing_took:
  "tookPending m w w1 \<Longrightarrow> nothingPending w \<Longrightarrow> mUserPendingDelta m = 0 \<and> mTokenPendingDelta m = 0"
  by (auto simp: tookPending_def nothingPending_def)

definition appliedPending :: "billingRecoveryQuotaMutation \<Rightarrow> ledger \<Rightarrow> ledger" where
  "appliedPending m s = addTok (mTokenID m) (mTokenPendingDelta m) (addBal (mUserID m) (mUserPendingDelta m) s)"

text \<open>
  Relations of ledgers that do not depend on the balances.  A body within such a relation, run
  as a durable mutation, keeps the ledgers of the worlds within it.
\<close>

locale balance_free =
  fixes T :: "ledger \<Rightarrow> ledger \<Rightarrow> bool"
  assumes refl: "T s s"
    and shift: "T s t \<Longrightarrow> T (shift p q s) (shift p q t)"
begin

lemma committed:
  assumes took: "tookPending m w w1" and "dbOnly w1 w2" and T: "T (appliedPending m (dbL (db w1))) (dbL (db w2))"
  shows "T (absL w) (absL w2)"
proof -
  let ?p = "pendingDelta w1 BatchUpdateTypeUserQuota" and ?q = "pendingDelta w1 BatchUpdateTypeTokenQuota"
  have "db w1 = db w" using took unfolding tookPending_def by blast
  with mutation_shift [OF took] have "absL w = shift ?p ?q (appliedPending m (dbL (db w1)))"
    by (simp add: appliedPending_def)
  moreover have "absL w2 = shift ?p ?q (dbL (db w2))"
    using assms(2) pending_stores [of w2 w1] by (simp add: dbOnly_def absL_def)
  ultimately show ?thesis using shift [OF T] by simp
qed

lemma after_failure:
  assumes took: "tookPending m w w1" and safe: "noLost w \<or> nothingPending w"
    and err: "dbOnly w1 w2" "db w2 = db w1 \<or> \<not> noLost w1 \<and> T (appliedPending m (dbL (db w1))) (dbL (db w2))"
  shows "wp (seqM (release m False) (throwM e)) Q (\<lambda>_ w3. T (absL w) (absL w3)) w2"
proof (cases "db w2 = db w1")
  case True
  then have "wp (release m False) (\<lambda>_ w3. absL w3 = absL w) (\<lambda>_ w3. T (absL w) (absL w3)) w2"
    using err took by (intro release_absL [OF took]) (auto simp: dbOnly_def tookPending_def)
  then show ?thesis unfolding wp_seqM wp_throwM by (rule wp_mono) (simp_all add: refl)
next
  case False
  then have "\<not> noLost w" using err took sameSettings_faults(1) [of w w1] by (auto simp: tookPending_def)
  then have "mUserPendingDelta m = 0 \<and> mTokenPendingDelta m = 0"
    using safe nothing_took [OF took] by blast
  then show ?thesis using False err committed [OF took, of w2] by (simp add: release_def wp_simps)
qed

lemma pending_body:
  assumes took: "tookPending m w w1"
    and step: "\<And>w1. sameRows (db w) (db w1) \<Longrightarrow> preconsumes (db w1) = preconsumes (db w) \<Longrightarrow>
      wpOk body (\<lambda>_ w'. T (dbL (db w1)) (dbL (db w'))) w1"
  shows "wpOk (seqM (applyPendingDeltas m) body)
     (\<lambda>_ w'. T (appliedPending m (dbL (db w1))) (dbL (db w'))) (tick w1)"
proof (rule wpOk_seq [OF apply_pending_block], elim conjE)
  fix w2 :: world
  assume "sameRows (db (tick w1)) (db w2)" "preconsumes (db w2) = preconsumes (db (tick w1))"
    "dbL (db w2) = addTok (mTokenID m) (mTokenPendingDelta m)
       (addBal (mUserID m) (mUserPendingDelta m) (dbL (db (tick w1))))"
  with took show "wpOk body (\<lambda>_ w'. T (appliedPending m (dbL (db w1))) (dbL (db w'))) w2"
    by (intro wpOk_weaken [OF step [of w2]]) (auto simp: sameRows_def tookPending_def appliedPending_def)
qed

lemma withMutation:
  assumes frame: "framed dbOnly body"
    and step: "\<And>w1. sameRows (db w) (db w1) \<Longrightarrow> preconsumes (db w1) = preconsumes (db w) \<Longrightarrow>
      wpOk body (\<lambda>_ w'. T (dbL (db w1)) (dbL (db w'))) w1"
    and safe: "noLost w \<or> nothingPending w"
  shows "wp (withMutation (beginBillingRecoveryQuotaMutation rid a b) body)
     (\<lambda>_ w'. T (absL w) (absL w')) (\<lambda>_ w'. T (absL w) (absL w')) w"
  unfolding withMutation_def wp_bindM wp_tryM
proof (rule wp_mono [OF begin_took])
  fix e w1
  assume "cacheOnly w w1"
  then show "T (absL w) (absL w1)" by (simp add: cacheOnly_absL refl)
next
  fix m w1
  assume took: "tookPending m w w1"
  let ?S = "\<lambda>d d'. T (appliedPending m (dbL d)) (dbL d')"
  have frame2: "framed dbOnly (seqM (applyPendingDeltas m) body)"
    by (intro dbonly.framed_intros dbonly_bodies frame)
  show "wp (transaction (seqM (applyPendingDeltas m) body))
      (\<lambda>x. wp (case Inr x of Inl e \<Rightarrow> seqM (release m False) (throwM e) | Inr x \<Rightarrow> seqM (release m True) (retM x))
         (\<lambda>_ w'. T (absL w) (absL w')) (\<lambda>_ w'. T (absL w) (absL w')))
      (\<lambda>e. wp (case Inl e of Inl e \<Rightarrow> seqM (release m False) (throwM e) | Inr x \<Rightarrow> seqM (release m True) (retM x))
         (\<lambda>_ w'. T (absL w) (absL w')) (\<lambda>_ w'. T (absL w) (absL w'))) w1"
  proof (rule wp_mono [OF transaction_step [where S = ?S, OF frame2 pending_body [OF took step]]], goal_cases)
    case (3 x w2)
    then show ?case using committed [OF took, of w2] by (simp add: release_def wp_simps)
  next
    case (4 e w2)
    then show ?case unfolding sum.case by (intro after_failure [OF took safe]) simp_all
  qed
qed

end

interpretation stepping: balance_free "\<lambda>s t. t = s \<or> astep rid s t" for rid
  by unfold_locales (auto intro: astep_shift)

interpretation still: balance_free "\<lambda>s t. t = s"
  by unfold_locales auto

lemma withMutation_step:
  assumes "framed dbOnly body"
    and "\<And>w1. sameRows (db w) (db w1) \<Longrightarrow> preconsumes (db w1) = preconsumes (db w) \<Longrightarrow>
      wpOk body (\<lambda>_ w'. dbStep rid (db w1) (db w')) w1"
    and "noLost w \<or> nothingPending w"
  shows "wp (withMutation (beginBillingRecoveryQuotaMutation rid a b) body)
     (\<lambda>_. absStep rid w) (\<lambda>_. absStep rid w) w"
  using stepping.withMutation [of body w rid rid a b] assms unfolding dbStep_def absStep_def by blast

end
