(* ===== verification/Recovery_Contract.thy ===== *)
theory Recovery_Contract
  imports Recovery_Ops
begin

text \<open>
  One refinement lemma per operation of \<open>model/billing_recovery.go\<close>: a call, successful or not,
  leaves the ledger as it was or takes one step of the abstract machine.  \<open>recovery_call\<close> lists
  the operations, \<open>callOk\<close> says how the session and the worker call them, and \<open>call_step\<close> puts
  the lemmas together.
\<close>

section \<open>Row updates\<close>

lemma dbonly_rows: "framed dbOnly (firstRecovery rid)" "framed dbOnly (createRecovery r)"
  unfolding firstRecovery_def createRecovery_def Let_def by (intro dbonly_intros)+

lemma wpOk_firstRecovery:
  "(\<And>r. recoveries (db w) rid = Some r \<Longrightarrow> wpOk (g r) Q (tick w)) \<Longrightarrow> wpOk (bindM (firstRecovery rid) g) Q w"
  unfolding firstRecovery_def by (rule wpOk_first)

lemma row_update:
  assumes "recoveries (db w) rid = Some r" "db w = d"
    and "P r \<Longrightarrow> astep rid (dbL d) (setRow rid (core (f r)) (dbL d))"
  shows "wp (updRecovery rid P f) (\<lambda>_ w1. dbStep rid d (db w1)) (\<lambda>_ w1. dbStep rid d (db w1)) w"
  using assms by (auto simp: updRecovery_def wp_simps dbL_recoveries dbStep_def split: fate.split)

lemma row_update_then:
  assumes "recoveries (db w) rid = Some r" "db w = d"
    and "P r \<Longrightarrow> astep rid (dbL d) (setRow rid (core (f r)) (dbL d))"
    and "\<And>n w1. wpOk (g n) (\<lambda>_ w2. db w2 = db w1) w1"
  shows "wpOk (bindM (updRecovery rid P f) g) (\<lambda>_ w1. dbStep rid d (db w1)) w"
  unfolding wp_bindM
proof (rule wp_mono [OF row_update [where P = P and f = f, OF assms(1-3)]])
  fix n and w1 :: world
  assume "dbStep rid d (db w1)"
  then show "wpOk (g n) (\<lambda>_ w1. dbStep rid d (db w1)) w1"
    by (intro wpOk_weaken [OF assms(4)]) simp
qed simp_all

lemma stay [simp]: "dbStep rid d d"
  by (simp add: dbStep_def)

lemmas row_rules = wp_if wp_throwM wp_retM

lemma guarded_transaction:
  assumes "\<And>r. framed dbOnly (g r)"
    and "\<And>r. recoveries (db w) rid = Some r \<Longrightarrow> wpOk (g r) (\<lambda>_ w'. dbStep rid (db w) (db w')) (tick (tick w))"
  shows "wp (if c then throwM e else transaction (bindM (firstRecovery rid) g))
     (\<lambda>_. absStep rid w) (\<lambda>_. absStep rid w) w"
proof -
  have "wp (transaction (bindM (firstRecovery rid) g)) (\<lambda>_. absStep rid w) (\<lambda>_. absStep rid w) w"
    by (rule transaction_absStep) (intro dbonly_intros dbonly_rows assms(1) wpOk_firstRecovery | simp add: assms(2))+
  then show ?thesis by (simp add: row_rules absStep_refl)
qed

lemma AbortPrepared_step:
  "wp (AbortPreparedBillingRecovery rid e) (\<lambda>_. absStep rid w) (\<lambda>_. absStep rid w) w"
  unfolding AbortPreparedBillingRecovery_def
proof (rule guarded_transaction, goal_cases)
  case 1
  show ?case by (intro dbonly_intros)
next
  case (2 r)
  then have "lRec (dbL (db w)) rid = Some (core r)" by simp
  note step = astep.abort [OF this]
  show ?case unfolding row_rules
    by (intro if_bool_eq_conj [THEN iffD2] conjI impI TrueI wpOk_now row_update_then [where r = r])
      (use 2 step in \<open>simp_all add: core_upd row_rules\<close>)
qed

lemma UpdateAmounts_step:
  assumes "\<And>r. recoveries (db w) rid = Some r \<Longrightarrow> brSource r = ''wallet'' \<Longrightarrow> f = brFundingAmount r"
  shows "wp (UpdateBillingRecoveryAmounts rid i f x n) (\<lambda>_. absStep rid w) (\<lambda>_. absStep rid w) w"
proof (cases "f < 0 \<or> x < 0 \<or> n < 0")
  case True
  then show ?thesis by (simp add: UpdateBillingRecoveryAmounts_def row_rules absStep_refl)
next
  case False
  then show ?thesis unfolding UpdateBillingRecoveryAmounts_def if_not_P [OF False]
  proof (intro guarded_transaction, goal_cases)
    case 1
    show ?case by (intro dbonly_intros)
  next
    case (2 r)
    then have "lRec (dbL (db w)) rid = Some (core r)" by simp
    note step = astep.sync [OF this, of f x n i]
    show ?case unfolding row_rules
      by (intro if_bool_eq_conj [THEN iffD2] conjI impI TrueI wpOk_now row_update_then [where r = r])
        (use 2 step False assms [of r] in \<open>simp_all add: core_upd row_rules\<close>)
  qed
qed

lemma MarkSettled_step:
  "wp (MarkBillingRecoverySettled rid) (\<lambda>_. absStep rid w) (\<lambda>_. absStep rid w) w"
  unfolding MarkBillingRecoverySettled_def
proof (rule guarded_transaction, goal_cases)
  case 1
  show ?case by (intro dbonly_intros)
next
  case (2 r)
  then have "lRec (dbL (db w)) rid = Some (core r)" by simp
  note step = astep.settled [OF this]
  show ?case unfolding row_rules
    by (intro if_bool_eq_conj [THEN iffD2] conjI impI TrueI wpOk_now row_update_then [where r = r])
      (use 2 step in \<open>simp_all add: core_upd row_rules\<close>)
qed

lemma MarkRefunded_step:
  "wp (MarkBillingRecoveryRefunded rid e) (\<lambda>_. absStep rid w) (\<lambda>_. absStep rid w) w"
  unfolding MarkBillingRecoveryRefunded_def
proof (rule guarded_transaction, goal_cases)
  case 1
  show ?case by (intro dbonly_intros)
next
  case (2 r)
  then have "lRec (dbL (db w)) rid = Some (core r)" by simp
  note step = astep.refunded [OF this]
  show ?case unfolding row_rules
    by (intro if_bool_eq_conj [THEN iffD2] conjI impI TrueI wpOk_now row_update_then [where r = r])
      (use 2 step in \<open>simp_all add: core_upd row_rules\<close>)
qed

lemma MarkRefundPending_step:
  "wp (MarkBillingRecoveryRefundPending rid e) (\<lambda>_. absStep rid w) (\<lambda>_. absStep rid w) w"
  unfolding MarkBillingRecoveryRefundPending_def
proof (rule guarded_transaction, goal_cases)
  case 1
  show ?case by (intro dbonly_intros)
next
  case (2 r)
  let ?upd = "\<lambda>r. r\<lparr>brStatus := BillingRecoveryStatusRefundPending,
                brLastError := messageOf e, brAttempts := brAttempts r + 1, brUpdatedAt := clock w\<rparr>"
  have lr: "lRec (dbL (db w)) rid = Some (core r)" using 2 by simp
  have plain: "wpOk (bindM (updRecovery rid (\<lambda>_. True) ?upd) (\<lambda>_. retM ())) (\<lambda>_ w'. dbStep rid (db w) (db w')) w1"
    if "db w1 = db w" "brStatus r \<in> {BillingRecoveryStatusActive, BillingRecoveryStatusRefundPending}" for w1
    using that 2 astep.refundPending [OF lr] by (intro row_update_then [where r = r]) (auto simp: core_upd row_rules)
  have sub: "wpOk (bindM (updRecovery rid (\<lambda>_. True) (\<lambda>r0. (?upd r0)\<lparr>brSubscriptionID := pcUserSubscriptionId p,
        brFundingAmount := pcPreConsumed p,
        brTokenAmount := (if brTokenRequired r then pcPreConsumed p else brTokenAmount r0),
        brPreConsumeState := BillingRecoveryPreConsumeCommitted\<rparr>)) (\<lambda>_. retM ()))
      (\<lambda>_ w'. dbStep rid (db w) (db w')) w1"
    if "db w1 = db w" "brStatus r \<in> {BillingRecoveryStatusActive, BillingRecoveryStatusRefundPending}"
      "brSource r = ''subscription''" "brPreConsumeState r = BillingRecoveryPreConsumePrepared"
      "preconsumes (db w) rid = Some p" "pcStatus p = ''consumed''" for w1 p
    using that 2 astep.refundPendingSub [OF lr, of "pcUserSubscriptionId p" "pcPreConsumed p"]
    by (intro row_update_then [where r = r]) (auto simp: core_upd row_rules)
  show ?case
    using plain sub by (auto simp: wp_simps Let_def split: option.split)
qed

section \<open>Single statements and row creation\<close>

lemma exec_absStep:
  assumes "framed dbOnly m"
    and "wp m (\<lambda>_ w1. dbStep rid (db w) (db w1)) (\<lambda>_ w1. dbStep rid (db w) (db w1)) w"
  shows "wp m (\<lambda>_. absStep rid w) (\<lambda>_. absStep rid w) w"
  using wp_conj [OF assms(2) assms(1) [unfolded framed_wp, rule_format]]
  by (rule wp_mono) (auto intro: dbStep_absStep)

lemma row_exec:
  assumes "\<And>r. recoveries (db w) rid = Some r \<Longrightarrow> P r \<Longrightarrow>
      setRow rid (core (f r)) (dbL (db w)) = dbL (db w) \<or> astep rid (dbL (db w)) (setRow rid (core (f r)) (dbL (db w)))"
    and "\<And>n w1. wp (g n) (\<lambda>_ w2. db w2 = db w1) (\<lambda>_ w2. db w2 = db w1) w1"
  shows "wp (bindM (updRecovery rid P f) g) (\<lambda>_ w1. dbStep rid (db w) (db w1)) (\<lambda>_ w1. dbStep rid (db w) (db w1)) w"
proof -
  have "wp (updRecovery rid P f) (\<lambda>_ w1. dbStep rid (db w) (db w1)) (\<lambda>_ w1. dbStep rid (db w) (db w1)) w"
    using assms(1) by (auto simp: updRecovery_def wp_simps dbL_recoveries dbStep_def split: fate.split option.split)
  then show ?thesis unfolding wp_bindM
  proof (rule wp_mono)
    fix n and w1 :: world
    assume "dbStep rid (db w) (db w1)"
    then show "wp (g n) (\<lambda>_ w1. dbStep rid (db w) (db w1)) (\<lambda>_ w1. dbStep rid (db w) (db w1)) w1"
      by (intro wp_mono [OF assms(2) [of n w1]]) simp_all
  qed
qed

lemma UpdateSettlement_step:
  "wp (UpdateBillingRecoverySettlement rid x) (\<lambda>_. absStep rid w) (\<lambda>_. absStep rid w) w"
proof (rule exec_absStep)
  show "framed dbOnly (UpdateBillingRecoverySettlement rid x)"
    unfolding UpdateBillingRecoverySettlement_def by (intro dbonly_intros dbonly_rows)
  show "wp (UpdateBillingRecoverySettlement rid x) (\<lambda>_ w1. dbStep rid (db w) (db w1))
      (\<lambda>_ w1. dbStep rid (db w) (db w1)) w"
    unfolding UpdateBillingRecoverySettlement_def wp_if wp_bindM [of nowM] wp_nowM wp_throwM
  proof (intro if_bool_eq_conj [THEN iffD2] conjI impI stay row_exec, goal_cases)
    case (1 r)
    then have "lRec (dbL (db w)) rid = Some (core r)" by simp
    from astep.intent [OF this, of x] 1 show ?case by (simp add: core_upd)
  next
    case (2 n w1)
    show ?case by (simp add: firstRecovery_def wp_simps split: option.split)
  qed
qed

lemma TouchBillingRecovery_step:
  "wp (TouchBillingRecovery rid) (\<lambda>_. absStep rid w) (\<lambda>_. absStep rid w) w"
proof (rule exec_absStep)
  show "framed dbOnly (TouchBillingRecovery rid)"
    unfolding TouchBillingRecovery_def by (intro dbonly_intros dbonly_rows)
  show "wp (TouchBillingRecovery rid) (\<lambda>_ w1. dbStep rid (db w) (db w1)) (\<lambda>_ w1. dbStep rid (db w) (db w1)) w"
    unfolding TouchBillingRecovery_def wp_if wp_bindM [of nowM] wp_nowM wp_throwM
  proof (intro if_bool_eq_conj [THEN iffD2] conjI impI stay row_exec, goal_cases)
    case (1 r)
    then show ?case unfolding core_upd by (simp add: setRow_def fun_upd_idem)
  next
    case (2 n w1)
    show ?case by (simp add: wp_simps)
  qed
qed

text \<open>
  A row refunded by the worker may carry refund markers; it must not be re-bound.
\<close>

definition mayRebind :: "string \<Rightarrow> db \<Rightarrow> bool" where
  "mayRebind rid d \<longleftrightarrow> (\<forall>r. recoveries d rid = Some r \<longrightarrow> billingRecoveryIsReusable r \<longrightarrow>
     (\<forall>c. adjustments d (rid, c, BillingRecoveryOperationRefund) = None))"

lemma reconcile_step:
  assumes "mayRebind (inRequestID input) (db w)" "inSource input \<in> {''wallet'', ''subscription''}"
  shows "wp (reconcileBillingRecoveryInput r input) (\<lambda>_. absStep (inRequestID input) w)
     (\<lambda>_. absStep (inRequestID input) w) w"
proof -
  let ?rid = "inRequestID input"
  let ?new = "\<lambda>now r. r\<lparr>brSource := inSource input, brStatus := BillingRecoveryStatusActive,
     brLastError := [], brUpdatedAt := now\<rparr>"
  let ?body = "bindM nowM (\<lambda>now. bindM (firstRecovery ?rid) (\<lambda>current.
        if identityConflict current input \<or> \<not> billingRecoveryIsReusable current
        then throwM errIdentityConflict
        else seqM (updRecovery ?rid (\<lambda>_. True) (?new now))
               (retM (current\<lparr>brSource := inSource input, brStatus := BillingRecoveryStatusActive,
                        brLastError := []\<rparr>))))"
  have "wpOk ?body (\<lambda>_ w'. dbStep ?rid (db w) (db w')) (tick w)"
  proof (rule wpOk_now, rule wpOk_firstRecovery, goal_cases)
    case (1 r0)
    then have lr: "lRec (dbL (db w)) ?rid = Some (core r0)" by simp
    have no: "noRefundMarkers (dbL (db w)) ?rid" if "billingRecoveryIsReusable r0"
      using assms(1) that 1 by (simp add: mayRebind_def noRefundMarkers_def)
    have "wp (updRecovery ?rid (\<lambda>_. True) (?new (clock w))) (\<lambda>_ w1. dbStep ?rid (db w) (db w1))
        (\<lambda>_ w1. dbStep ?rid (db w) (db w1)) (tick (tick w))" if "billingRecoveryIsReusable r0"
      using 1 that astep.rebind [OF lr _ no [OF that] assms(2)]
      by (intro row_update [where r = r0]) (simp_all add: core_upd)
    then show ?case unfolding row_rules wp_seqM tick_simps
      by (auto elim: wp_mono)
  qed
  then have "wp (transaction ?body) (\<lambda>_. absStep ?rid w) (\<lambda>_. absStep ?rid w) w"
    by (rule transaction_absStep [rotated]) (intro dbonly_intros dbonly_rows)
  then show ?thesis unfolding reconcileBillingRecoveryInput_def by (simp add: row_rules absStep_refl)
qed

lemma absL_tick [simp]: "absL (tick w) = absL w"
  by (simp add: absL_def)

lemma dbOnly_tick [simp]: "dbOnly (tick w) = dbOnly w"
  by (simp add: dbOnly_def sameSettings_def fun_eq_iff)

lemma absStep_tick [simp]: "absStep rid (tick w) = absStep rid w" "absStep rid w (tick w') = absStep rid w w'"
  by (simp_all add: absStep_def fun_eq_iff)

definition newRow :: "int \<Rightarrow> BillingRecoveryInput \<Rightarrow> BillingRecovery" where
  "newRow now input = BillingRecovery_BeforeCreate now (recoveryOfInput input)"

definition withRow :: "int \<Rightarrow> BillingRecoveryInput \<Rightarrow> db \<Rightarrow> db" where
  "withRow now input d = d\<lparr>recoveries := (recoveries d)(inRequestID input \<mapsto> newRow now input),
     recoveryIds := recoveryIds d @ [inRequestID input]\<rparr>"

lemma dbL_withRow:
  "dbL (withRow now input d) = setRow (inRequestID input) (core (newRow now input))
     ((dbL d)\<lparr>lIds := lIds (dbL d) @ [inRequestID input]\<rparr>)"
  by (simp add: withRow_def dbL_def setRow_def fun_eq_iff rowQuota_def rowRemain_def findSub_def)

lemma newRow_fresh:
  assumes "inSource input \<in> {''wallet'', ''subscription''}" "inFundingAmount input = 0" "inTokenAmount input = 0"
  shows "freshRow (inRequestID input) (core (newRow now input))"
  using assms
  by (simp add: freshRow_def newRow_def BillingRecovery_BeforeCreate_def recoveryOfInput_def orUnset_def)

lemma newRow_identity:
  "brSource (newRow now input) = inSource input" "\<not> identityConflict (newRow now input) input"
  by (simp_all add: identityConflict_def newRow_def BillingRecovery_BeforeCreate_def recoveryOfInput_def)

lemma create_outcome:
  assumes "recoveries (db w) (inRequestID input) = None"
  shows "wp (createRecovery (recoveryOfInput input))
     (\<lambda>_ w1. dbOnly w w1 \<and> db w1 = withRow (clock w) input (db w))
     (\<lambda>_ w1. dbOnly w w1 \<and> (db w1 = db w \<or> db w1 = withRow (clock w) input (db w))) w"
  using assms
  by (simp add: createRecovery_def wp_simps Let_def recoveryOfInput_def [of input] newRow_def withRow_def dbOnly_def
      split: fate.split)

lemma EnsureBillingRecovery_step:
  assumes rebind: "mayRebind (inRequestID input) (db w)"
    and zero: "inFundingAmount input = 0" "inTokenAmount input = 0"
  shows "wp (EnsureBillingRecovery input) (\<lambda>_. absStep (inRequestID input) w)
     (\<lambda>_. absStep (inRequestID input) w) w"
proof (cases "inSource input \<in> {''wallet'', ''subscription''}")
  case False
  then show ?thesis by (auto simp: EnsureBillingRecovery_def row_rules absStep_refl)
next
  case src: True
  let ?rid = "inRequestID input"
  let ?A = "absStep ?rid w"
  have found: "wp (reconcileBillingRecoveryInput r input) (\<lambda>_. ?A) (\<lambda>_. ?A) (tick w)" for r
    using reconcile_step [of input "tick w" r] rebind src by simp
  have made: "?A w1" if "recoveries (db w) ?rid = None" "dbOnly w w1" "db w1 = withRow (clock w) input (db w)" for w1
    using that astep.create [of "dbL (db w)" ?rid, OF _ newRow_fresh [OF src zero]]
    by (intro dbStep_absStep) (simp_all add: dbStep_def dbL_withRow)
  have again: "wp (bindM (tryM (firstRecovery ?rid)) (\<lambda>again. case again of
        Inr recovery \<Rightarrow> reconcileBillingRecoveryInput recovery input | Inl _ \<Rightarrow> throwM e)) (\<lambda>_. ?A) (\<lambda>_. ?A) w1"
    if "recoveries (db w) ?rid = None" "dbOnly w w1" "db w1 = db w \<or> db w1 = withRow (clock w) input (db w)" for e w1
    using that(3)
  proof
    assume same: "db w1 = db w"
    then have "?A w1" using that(2) by (intro dbStep_absStep) simp_all
    with same that(1) show ?thesis
      by (simp add: firstRecovery_def wp_bindM wp_tryM wp_firstM wp_throwM)
  next
    assume new: "db w1 = withRow (clock w) input (db w)"
    then have row: "recoveries (db w1) ?rid = Some (newRow (clock w) input)" by (simp add: withRow_def)
    from made [OF that(1,2) new] row newRow_identity [of "clock w" input] show ?thesis
      by (simp add: firstRecovery_def wp_bindM wp_tryM wp_firstM wp_throwM reconcileBillingRecoveryInput_def wp_retM)
  qed
  have create: "wp (bindM (tryM (createRecovery (recoveryOfInput input))) (\<lambda>created. case created of
        Inr row \<Rightarrow> retM row
      | Inl createErr \<Rightarrow> bindM (tryM (firstRecovery ?rid)) (\<lambda>again. case again of
          Inr recovery \<Rightarrow> reconcileBillingRecoveryInput recovery input | Inl _ \<Rightarrow> throwM createErr)))
      (\<lambda>_. ?A) (\<lambda>_. ?A) (tick w)" if none: "recoveries (db w) ?rid = None"
    unfolding wp_bindM [of "tryM (createRecovery (recoveryOfInput input))"] wp_tryM [of "createRecovery (recoveryOfInput input)"]
  proof (rule wp_mono [OF create_outcome [of "tick w" input]], goal_cases)
    case 1
    from none show ?case by simp
  next
    case (2 x w1)
    with made [OF none] show ?case by (simp add: wp_retM)
  next
    case (3 e w1)
    then show ?case unfolding sum.case by (intro again [OF none]) simp_all
  qed
  show ?thesis
    unfolding EnsureBillingRecovery_def row_rules
    using found create by (simp add: firstRecovery_def [of ?rid] wp_bindM wp_tryM wp_firstM absStep_refl
        wp_throwM split: option.split)
qed

section \<open>Durable mutations\<close>

lemma PreConsumeWallet_step:
  assumes "noLost w \<or> nothingPending w"
  shows "wp (PreConsumeWalletBillingRecovery rid q unl) (\<lambda>_. absStep rid w) (\<lambda>_. absStep rid w) w"
proof (cases "TrimSpace rid = [] \<or> q < 0")
  case True
  then show ?thesis by (simp add: PreConsumeWalletBillingRecovery_def row_rules absStep_refl)
next
  case False
  then have body: "wpOk (preConsumeWalletTx rid q unl) (\<lambda>_ w'. dbStep rid (db w1) (db w')) w1" for w1
    by (intro preConsumeWalletTx_step) simp
  note frame = dbonly_bodies(2) [of rid q unl]
  have "wp (transaction (preConsumeWalletTx rid q unl)) (\<lambda>_. absStep rid w) (\<lambda>_. absStep rid w) w"
    using body [of "tick w"] by (intro transaction_absStep frame) simp
  with withMutation_step [OF frame body assms] False show ?thesis
    by (simp add: PreConsumeWalletBillingRecovery_def row_rules)
qed

lemma ReserveBillingRecovery_step:
  assumes "noLost w \<or> nothingPending w" "sourceOk rid (db w)"
  shows "wp (ReserveBillingRecovery rid n x unl) (\<lambda>_. absStep rid w) (\<lambda>_. absStep rid w) w"
proof -
  have "wpOk (reserveTx rid n unl) (\<lambda>_ w'. dbStep rid (db w1) (db w')) w1"
    if "sameRows (db w) (db w1)" for w1
    using assms(2) that by (intro reserveTx_step) (simp add: sourceOk_def sameRows_def)
  from withMutation_step [OF dbonly_bodies(3) this assms(1)] show ?thesis
    by (simp add: ReserveBillingRecovery_def row_rules absStep_refl)
qed

lemma ApplyAdjustment_step:
  assumes "noLost w \<or> nothingPending w" "sourceOk rid (db w)" "idsOk (db w)"
    and "x = BillingRecoveryOperationRefund \<Longrightarrow> mayRefund rid (db w)"
  shows "wp (ApplyBillingRecoveryAdjustment rid c x) (\<lambda>_. absStep rid w) (\<lambda>_. absStep rid w) w"
proof (cases "c \<in> {BillingRecoveryComponentFunding, BillingRecoveryComponentExtra, BillingRecoveryComponentToken} \<and>
      x \<in> {BillingRecoveryOperationSettle, BillingRecoveryOperationRefund}")
  case False
  then show ?thesis by (auto simp: ApplyBillingRecoveryAdjustment_def row_rules absStep_refl)
next
  case True
  have "wpOk (adjustmentTx rid c x) (\<lambda>_ w'. dbStep rid (db w1) (db w')) w1"
    if "sameRows (db w) (db w1)" "preconsumes (db w1) = preconsumes (db w)" for w1
    using assms(2-4) that True
    by (intro adjustmentTx_step) (auto simp: sourceOk_def idsOk_def mayRefund_def sameRows_def)
  note main = withMutation_step [OF dbonly_bodies(4) this assms(1)]
  show ?thesis unfolding ApplyBillingRecoveryAdjustment_def row_rules
    by (intro if_bool_eq_conj [THEN iffD2] conjI impI main absStep_refl refl)
qed

section \<open>Calls\<close>

datatype recovery_call =
    Ensure BillingRecoveryInput
  | Abort string "err option"
  | PreConsume string int bool
  | Reserve string int int bool
  | Amounts string int int int int
  | Settlement string int
  | Touch string
  | RefundPending string "err option"
  | Adjust string BillingRecoveryComponent BillingRecoveryOperation
  | Settled string
  | Refunded string "err option"

fun call :: "recovery_call \<Rightarrow> unit goM" where
  "call (Ensure input) = bindM (EnsureBillingRecovery input) (\<lambda>_. retM ())"
| "call (Abort rid e) = AbortPreparedBillingRecovery rid e"
| "call (PreConsume rid q unl) = PreConsumeWalletBillingRecovery rid q unl"
| "call (Reserve rid n x unl) = bindM (ReserveBillingRecovery rid n x unl) (\<lambda>_. retM ())"
| "call (Amounts rid i f x n) = UpdateBillingRecoveryAmounts rid i f x n"
| "call (Settlement rid x) = UpdateBillingRecoverySettlement rid x"
| "call (Touch rid) = TouchBillingRecovery rid"
| "call (RefundPending rid e) = MarkBillingRecoveryRefundPending rid e"
| "call (Adjust rid c x) = ApplyBillingRecoveryAdjustment rid c x"
| "call (Settled rid) = MarkBillingRecoverySettled rid"
| "call (Refunded rid e) = MarkBillingRecoveryRefunded rid e"

fun callId :: "recovery_call \<Rightarrow> string" where
  "callId (Ensure input) = inRequestID input"
| "callId (Abort rid e) = rid"
| "callId (PreConsume rid q unl) = rid"
| "callId (Reserve rid n x unl) = rid"
| "callId (Amounts rid i f x n) = rid"
| "callId (Settlement rid x) = rid"
| "callId (Touch rid) = rid"
| "callId (RefundPending rid e) = rid"
| "callId (Adjust rid c x) = rid"
| "callId (Settled rid) = rid"
| "callId (Refunded rid e) = rid"

text \<open>
  How the session and the worker call the component: a row is created with zero amounts, a
  row with refund markers is not bound again, the session writes back the funding amount a
  wallet row already has, and refunds are applied to marked rows.
\<close>

fun callOk :: "recovery_call \<Rightarrow> db \<Rightarrow> bool" where
  "callOk (Ensure input) d \<longleftrightarrow> inFundingAmount input = 0 \<and> inTokenAmount input = 0 \<and> mayRebind (inRequestID input) d"
| "callOk (Amounts rid i f x n) d \<longleftrightarrow>
     (\<forall>r. recoveries d rid = Some r \<longrightarrow> brSource r = ''wallet'' \<longrightarrow> f = brFundingAmount r)"
| "callOk (Adjust rid c x) d \<longleftrightarrow> x = BillingRecoveryOperationRefund \<longrightarrow> mayRefund rid d"
| "callOk _ d \<longleftrightarrow> True"

lemma awf_absL: "awf (absL w) = awf (dbL (db w))"
  using awf_shift by (simp add: absL_def)

lemma wp_then_unit: "wp m (\<lambda>_. Q) E w \<Longrightarrow> wp (bindM m (\<lambda>_. retM ())) (\<lambda>_. Q) E w"
  by (simp add: wp_bindM wp_retM)

lemma call_step:
  assumes "awf (absL w)" "idsOk (db w)" "noLost w \<or> nothingPending w" "callOk c (db w)"
  shows "wp (call c) (\<lambda>_. absStep (callId c) w) (\<lambda>_. absStep (callId c) w) w"
proof -
  have src: "sourceOk rid (db w)" for rid using assms(1) by (simp add: awf_absL awf_sourceOk)
  show ?thesis
  proof (cases c)
    case (Ensure input)
    with assms(4) show ?thesis by (auto intro!: wp_then_unit EnsureBillingRecovery_step)
  next
    case (Reserve rid n x unl)
    with assms(3) src show ?thesis by (auto intro!: wp_then_unit ReserveBillingRecovery_step)
  next
    case (Amounts rid i f x n)
    with assms(4) show ?thesis by (auto intro!: UpdateAmounts_step)
  next
    case (Adjust rid c x)
    with assms src show ?thesis by (auto intro!: ApplyAdjustment_step)
  qed (use assms(3) in \<open>simp_all add: AbortPrepared_step PreConsumeWallet_step UpdateSettlement_step
      TouchBillingRecovery_step MarkRefundPending_step MarkSettled_step MarkRefunded_step\<close>)
qed

end
