(* ===== verification/Recovery_Promises.thy ===== *)
theory Recovery_Promises
  imports Recovery_Contract
begin

text \<open>
  The accounting contract of \<open>model/billing_recovery.go\<close> over sequences of calls, derived from
  the refinement: no money appears or disappears, an adjustment is applied once, settled requests
  stay settled and are never refunded, closed rows are charged what they say.  The last section
  shows what happens outside the contract: a commit whose reply is lost and an update MySQL
  counts as no change.
\<close>

section \<open>What every call keeps\<close>

definition keepsIds :: "world \<Rightarrow> world \<Rightarrow> bool" where
  "keepsIds w w' \<longleftrightarrow> sameSettings w w' \<and> (idsOk (db w) \<longrightarrow> idsOk (db w'))"

interpretation keeping: frame_rel keepsIds
  by unfold_locales (auto simp: keepsIds_def intro: sameSettings_trans)

lemma keeping_caching: "framed cacheOnly m \<Longrightarrow> framed keepsIds m"
  by (auto simp: framed_def cacheOnly_def keepsIds_def)

lemma keeping_execM:
  assumes "\<And>d. idsOk d \<Longrightarrow> idsOk (snd (f d))"
  shows "framed keepsIds (execM f)"
  unfolding framed_wp wp_execM using assms by (auto simp: keepsIds_def split: fate.split)

lemma idsOk_upd [simp]:
  "idsOk (d\<lparr>users := a\<rparr>) = idsOk d" "idsOk (d\<lparr>tokens := b\<rparr>) = idsOk d" "idsOk (d\<lparr>recoveries := c\<rparr>) = idsOk d"
  "idsOk (d\<lparr>adjustments := e\<rparr>) = idsOk d" "idsOk (d\<lparr>recoveryIds := f\<rparr>) = idsOk d" "idsOk (putSub s d) = idsOk d"
  by (simp_all add: idsOk_def)

lemma keeping_statements:
  "framed keepsIds (updUser i P1 f1)" "framed keepsIds (updToken j P2 f2)"
  "framed keepsIds (updRecovery rid P3 f3)"
  unfolding updUser_def updToken_def updRecovery_def
  by (intro keeping_execM; simp split: option.split)+

lemma keeping_creates: "framed keepsIds (createRecovery r)" "framed keepsIds (createAdjustment k a)"
  unfolding framed_wp createRecovery_def createAdjustment_def
  by (auto simp: wp_simps Let_def keepsIds_def split: fate.split option.split)

lemma keeping_saves: "framed keepsIds (saveSub s)" "framed keepsIds (savePreConsume r)"
  unfolding framed_wp wp_saveSub wp_savePreConsume wp_execM
  by (auto simp: keepsIds_def idsOk_def split: fate.split)

lemma keeping_transaction: "framed keepsIds m \<Longrightarrow> framed keepsIds (transaction m)"
  unfolding framed_wp wp_transaction
  by (auto simp: wp_iff keepsIds_def sameSettings_def split: fate.split)

lemma keeping_pending: "framed keepsIds (addNewRecord ty i v)" "framed keepsIds (takePendingQuotaDelta ty i)"
  unfolding framed_wp by (simp_all add: wp_simps keepsIds_def)

lemmas keeping_intros =
  keeping.framed_intros keeping_statements keeping_creates keeping_saves keeping_transaction keeping_pending
  keeping_caching [OF caching_firstM] keeping_caching [OF caching_findM] keeping_caching [OF caching_nowM]
  keeping_caching [OF caching_invalidate(1)] keeping_caching [OF caching_invalidate(2)]

lemma keeping_subscription:
  "framed keepsIds (applySubscriptionDeltaTx i x)"
  "framed keepsIds (refundBillingRecoverySubscriptionPreConsumeTx rid)"
  unfolding applySubscriptionDeltaTx_def refundBillingRecoverySubscriptionPreConsumeTx_def
    postConsumeUserSubscriptionDeltaTx_def
  by (intro keeping_intros)+

lemma keeping_effect: "framed keepsIds (applyBillingRecoveryEffect r c x a)"
  unfolding applyBillingRecoveryEffect_def
  by (cases c; simp only: BillingRecoveryComponent.case; intro keeping_intros keeping_subscription)

lemma keeping_bodies:
  "framed keepsIds (applyPendingDeltas m)" "framed keepsIds (preConsumeWalletTx rid q unl)"
  "framed keepsIds (reserveTx rid n unl)" "framed keepsIds (adjustmentTx rid c x)"
  unfolding applyPendingDeltas_def preConsumeWalletTx_def preConsumeChargeTx_def reserveTx_def firstRecovery_def
    reserveDeltaTx_def adjustmentTx_def applyAdjustmentTx_def updateBillingRecoveryComponentState_def
    chargeTokenTx_def
  by (intro keeping_intros keeping_subscription keeping_effect)+

lemma keeping_mutation:
  "framed keepsIds body \<Longrightarrow> framed keepsIds (withMutation (beginBillingRecoveryQuotaMutation rid a b) body)"
  unfolding withMutation_def beginBillingRecoveryQuotaMutation_def release_def firstRecovery_def
  by (intro keeping_intros keeping_bodies)

lemma keeping_call: "framed keepsIds (call c)"
  by (cases c;
      simp only: call.simps EnsureBillingRecovery_def reconcileBillingRecoveryInput_def
      AbortPreparedBillingRecovery_def PreConsumeWalletBillingRecovery_def ReserveBillingRecovery_def
      UpdateBillingRecoveryAmounts_def UpdateBillingRecoverySettlement_def TouchBillingRecovery_def
      MarkBillingRecoveryRefundPending_def ApplyBillingRecoveryAdjustment_def MarkBillingRecoverySettled_def
      MarkBillingRecoveryRefunded_def firstRecovery_def;
      intro keeping_intros keeping_mutation keeping_bodies)

section \<open>Sequences of calls\<close>

fun calls :: "recovery_call list \<Rightarrow> world \<Rightarrow> world" where
  "calls [] w = w"
| "calls (c # cs) w = calls cs (snd (call c w))"

fun callsOk :: "recovery_call list \<Rightarrow> world \<Rightarrow> bool" where
  "callsOk [] w = True"
| "callsOk (c # cs) w \<longleftrightarrow> callOk c (db w) \<and> callsOk cs (snd (call c w))"

definition recoveryOk :: "world \<Rightarrow> bool" where
  "recoveryOk w \<longleftrightarrow> awf (absL w) \<and> idsOk (db w)"

lemma absL_bal: "lBal (absL w) u = userBal w u"
  by (simp add: absL_def userBal_def)

lemma call_absStep:
  assumes "recoveryOk w" "noLost w \<or> nothingPending w" "callOk c (db w)"
  shows "absStep (callId c) w (snd (call c w))"
  using call_step [of w c] assms by (auto simp: recoveryOk_def wp_def split: sum.splits prod.splits)

lemma call_keeps: "keepsIds w (snd (call c w))"
  using keeping_call [of c] by (simp add: framed_def)

lemma absStep_ledger: "absStep rid w w' \<Longrightarrow> ledger_step\<^sup>*\<^sup>* (absL w) (absL w')"
  by (auto simp: absStep_def intro: ledger_step.intros)

lemma absStep_awf: "absStep rid w w' \<Longrightarrow> awf (absL w) \<Longrightarrow> awf (absL w')"
  by (auto simp: absStep_def intro: astep_awf)

lemma call_ok:
  assumes "recoveryOk w" "noLost w" "callOk c (db w)"
  shows "recoveryOk (snd (call c w))" "noLost (snd (call c w))"
  using call_keeps [of w c] assms absStep_awf [OF call_absStep [of w c]] sameSettings_faults(1) [of w "snd (call c w)"]
  by (auto simp: recoveryOk_def keepsIds_def)

lemma calls_run:
  assumes "recoveryOk w" "noLost w" "callsOk cs w"
  shows "ledger_step\<^sup>*\<^sup>* (absL w) (absL (calls cs w)) \<and> recoveryOk (calls cs w) \<and> noLost (calls cs w)"
  using assms
proof (induction cs arbitrary: w)
  case (Cons c cs)
  have "ledger_step\<^sup>*\<^sup>* (absL w) (absL (snd (call c w)))"
    using Cons.prems by (intro absStep_ledger [OF call_absStep]) simp_all
  with Cons.IH [of "snd (call c w)"] call_ok [of w c] Cons.prems show ?case
    by (auto intro: rtranclp_trans)
qed simp

section \<open>The contract\<close>


definition sampleInput :: BillingRecoveryInput where
  "sampleInput = \<lparr>inRequestID = ''r1'', inUserID = 7, inTokenID = 9, inSource = ''wallet'',
     inFundingAmount = 0, inTokenAmount = 0, inTokenRequired = True\<rparr>"

lemma recoveryOk_empty:
  assumes "recoveries (db w) = Map.empty" "recoveryIds (db w) = []" "adjustments (db w) = Map.empty"
    "preconsumes (db w) = Map.empty"
  shows "recoveryOk w"
  unfolding recoveryOk_def awf_absL using assms by (simp add: awf_def idsOk_def dom_def)

lemma sampleWorld_ok: "recoveryOk sampleWorld" "nothingPending sampleWorld"
  by (rule recoveryOk_empty) (simp_all add: sampleWorld_def emptyDB_def nothingPending_def pendingDelta_def)

lemma sampleInput_ok: "callOk (Ensure sampleInput) (db sampleWorld)"
  by (simp add: sampleInput_def mayRebind_def sampleWorld_def emptyDB_def)


text \<open>
  C1. No money appears or disappears: over any sequence of calls in which no reply is lost, the
  effective balance of a wallet (its row plus the pending batch delta) and the charges recorded
  for the requests of its user always add up to the same amount.
\<close>

theorem wallet_conserved:
  assumes "recoveryOk w" "noLost w" "callsOk cs w"
  shows "userBal (calls cs w) u + userCharges (absL (calls cs w)) u = userBal w u + userCharges (absL w) u"
proof -
  from ledger_conserves [of "absL w" "absL (calls cs w)" u] calls_run [OF assms] assms(1) show ?thesis
    by (simp add: recoveryOk_def absL_bal)
qed

definition sampleCalls :: "recovery_call list" where
  "sampleCalls = [Ensure sampleInput, PreConsume ''r1'' 30 False, Settlement ''r1'' 5,
     Adjust ''r1'' BillingRecoveryComponentFunding BillingRecoveryOperationSettle]"

lemma sampleCalls_ok: "callsOk sampleCalls sampleWorld"
  by (simp add: sampleCalls_def sampleInput_def mayRebind_def sampleWorld_def emptyDB_def)

theorem wallet_conserved_witness:
  "userBal (calls sampleCalls sampleWorld) 7 + userCharges (absL (calls sampleCalls sampleWorld)) 7 = 100 \<and>
   userCharges (absL (calls sampleCalls sampleWorld)) 7 = 35"
proof -
  have "userBal sampleWorld 7 = 100" "userCharges (absL sampleWorld) 7 = 0"
    "userCharges (absL (calls sampleCalls sampleWorld)) 7 = 35" by code_simp+
  with wallet_conserved [OF sampleWorld_ok(1) sampleWorld_faults(1) sampleCalls_ok, of 7] show ?thesis by simp
qed

section \<open>An adjustment is applied once\<close>

lemma marker_still:
  assumes "adjustments (db w) (rid, c, x) \<noteq> None"
  shows "wpOk (adjustmentTx rid c x) (\<lambda>_ w'. dbL (db w') = dbL (db w)) w"
  unfolding adjustmentTx_def
proof (rule wpOk_firstRecovery, goal_cases)
  case (1 r)
  show ?case using assms unfolding row_rules by (auto intro!: wpOk_marker simp: wp_retM wp_throwM)
qed

lemma marker_noop:
  assumes "adjustments (db w) (rid, c, x) \<noteq> None" "noLost w \<or> nothingPending w"
  shows "absL (snd (ApplyBillingRecoveryAdjustment rid c x w)) = absL w"
proof -
  have "wp (withMutation (beginBillingRecoveryQuotaMutation rid a b) (adjustmentTx rid c x))
      (\<lambda>_ w'. absL w' = absL w) (\<lambda>_ w'. absL w' = absL w) w" for a b
    using assms by (intro still.withMutation dbonly_bodies marker_still) (simp_all add: sameRows_def)
  then have "wp (ApplyBillingRecoveryAdjustment rid c x) (\<lambda>_ w'. absL w' = absL w) (\<lambda>_ w'. absL w' = absL w) w"
    unfolding ApplyBillingRecoveryAdjustment_def row_rules
    by (intro if_bool_eq_conj [THEN iffD2] conjI impI refl)
  then show ?thesis by (auto simp: wp_def split: sum.splits prod.splits)
qed

lemma withMutation_ok:
  assumes "\<And>m w1. tookPending m w w1 \<Longrightarrow> wpOk (seqM (applyPendingDeltas m) body) (\<lambda>x w'. G x (db w')) (tick w1)"
  shows "wpOk (withMutation (beginBillingRecoveryQuotaMutation rid a b) body) (\<lambda>x w'. G x (db w')) w"
  unfolding withMutation_def wp_bindM wp_tryM
proof (rule wp_mono [OF begin_took])
  fix m w1
  assume "tookPending m w w1"
  from assms [OF this]
  show "wp (transaction (seqM (applyPendingDeltas m) body))
      (\<lambda>x. wpOk (case Inr x of Inl e \<Rightarrow> seqM (release m False) (throwM e) | Inr x \<Rightarrow> seqM (release m True) (retM x))
         (\<lambda>x w'. G x (db w')))
      (\<lambda>e. wpOk (case Inl e of Inl e \<Rightarrow> seqM (release m False) (throwM e) | Inr x \<Rightarrow> seqM (release m True) (retM x))
         (\<lambda>x w'. G x (db w'))) w1"
    unfolding wp_transaction
    by (auto simp: release_def wp_simps split: fate.split elim!: wp_mono)
qed simp

lemma wpOk_any: "wpOk m (\<lambda>_ _. True) w"
  by (simp add: wp_def split: sum.split prod.split)

lemma adjust_marks:
  "wpOk (applyAdjustmentTx rid r c x) (\<lambda>_ w'. adjustments (db w') (rid, c, x) \<noteq> None) w"
proof -
  have "wpOk (seqM (createAdjustment k a) (updateBillingRecoveryComponentState rid c x))
      (\<lambda>_ w'. adjustments (db w') k \<noteq> None) w1" for k a w1
    by (simp add: createAdjustment_def updateBillingRecoveryComponentState_def updRecovery_def wp_simps
        split: fate.split option.split)
  then show ?thesis
    unfolding applyAdjustmentTx_def Let_def by (rule wpOk_seq [OF wpOk_any])
qed

text \<open>A call that reports success on a pending row has left its marker.\<close>

definition pendingFor :: "BillingRecoveryOperation \<Rightarrow> string \<Rightarrow> db \<Rightarrow> bool" where
  "pendingFor x rid d \<longleftrightarrow> x = BillingRecoveryOperationSettle \<or> x = BillingRecoveryOperationRefund \<and>
     (case recoveries d rid of None \<Rightarrow> False | Some r \<Rightarrow> brStatus r = BillingRecoveryStatusRefundPending)"

lemma adjustmentTx_marks:
  assumes "pendingFor x rid (db w)"
  shows "wpOk (adjustmentTx rid c x) (\<lambda>_ w'. adjustments (db w') (rid, c, x) \<noteq> None) w"
  unfolding adjustmentTx_def
proof (rule wpOk_firstRecovery, goal_cases)
  case (1 r)
  with assms show ?case unfolding row_rules
    by (auto intro!: wpOk_marker simp: wp_retM wp_throwM wp_if pendingFor_def adjust_marks [simplified])
qed

lemma Apply_marks:
  assumes "pendingFor x rid (db w)"
  shows "wpOk (ApplyBillingRecoveryAdjustment rid c x) (\<lambda>_ w'. adjustments (db w') (rid, c, x) \<noteq> None) w"
proof -
  have "wpOk (seqM (applyPendingDeltas m) (adjustmentTx rid c x))
      (\<lambda>_ w'. adjustments (db w') (rid, c, x) \<noteq> None) (tick w1)" if "tookPending m w w1" for m w1
    using assms that
    by (intro wpOk_seq [OF apply_pending_block] adjustmentTx_marks) (auto simp: pendingFor_def sameRows_def tookPending_def)
  then show ?thesis
    unfolding ApplyBillingRecoveryAdjustment_def row_rules
    by (intro if_bool_eq_conj [THEN iffD2] conjI impI TrueI withMutation_ok)
qed

text \<open>
  C4. An accounting effect is applied once: when a settlement, or the refund of a row marked for
  refund, has reported success, then after any later calls, and whatever statement fails, calling
  it again moves nothing.
\<close>

theorem adjustment_applied_once:
  assumes "ApplyBillingRecoveryAdjustment rid c x w = (Inr (), w1)" "pendingFor x rid (db w)"
    and "recoveryOk w1" "noLost w1" "callsOk cs w1"
  shows "absL (snd (ApplyBillingRecoveryAdjustment rid c x (calls cs w1))) = absL (calls cs w1)"
proof -
  have "adjustments (db w1) (rid, c, x) \<noteq> None"
    using wp_result [OF Apply_marks [OF assms(2)] assms(1)] by simp
  then obtain a where "lAdj (absL w1) (rid, c, x) = Some a" by (auto simp: absL_def)
  moreover have run: "ledger_step\<^sup>*\<^sup>* (absL w1) (absL (calls cs w1))" "noLost (calls cs w1)"
    using calls_run [OF assms(3-5)] by blast+
  moreover have "lAdj t k = Some a" if "ledger_step\<^sup>*\<^sup>* s t" "lAdj s k = Some a" for s t k
    using that by (induction rule: rtranclp_induct) (auto elim!: ledger_step.cases intro: astep_markers_grow)
  ultimately have "lAdj (absL (calls cs w1)) (rid, c, x) = Some a" by blast
  with run(2) show ?thesis by (intro marker_noop) (auto simp: absL_def)
qed

theorem adjustment_applied_once_witness:
  "let w = calls (take 3 sampleCalls) sampleWorld;
       again = (\<lambda>v. snd (ApplyBillingRecoveryAdjustment ''r1'' BillingRecoveryComponentFunding
                  BillingRecoveryOperationSettle v)) in
   userBal (again w) 7 = 65 \<and> absL (again (again w)) = absL (again w)"
proof -
  let ?w = "calls (take 3 sampleCalls) sampleWorld"
  let ?apply = "ApplyBillingRecoveryAdjustment ''r1'' BillingRecoveryComponentFunding BillingRecoveryOperationSettle"
  have ok: "fst (?apply ?w) = Inr ()" "userBal (snd (?apply ?w)) 7 = 65" by code_simp+
  have "snd (?apply ?w) = calls sampleCalls sampleWorld" by (simp add: sampleCalls_def)
  with calls_run [OF sampleWorld_ok(1) sampleWorld_faults(1) sampleCalls_ok]
  have "recoveryOk (snd (?apply ?w))" "noLost (snd (?apply ?w))" by simp_all
  with ok adjustment_applied_once [of "''r1''" BillingRecoveryComponentFunding BillingRecoveryOperationSettle ?w
      "snd (?apply ?w)" "[]"]
  show ?thesis by (simp add: prod_eq_iff pendingFor_def)
qed

section \<open>Closed requests\<close>

lemma absL_row: "lRec (absL w) rid = map_option core (recoveries (db w) rid)"
  by (simp add: absL_def)

lemma absL_adj: "lAdj (absL w) k = map_option adAmount (adjustments (db w) k)"
  by (simp add: absL_def)

text \<open>
  C6. A settled request is final: no later sequence of calls changes its status, amounts or
  component states, adds a marker to it, or changes what it costs the wallet.
\<close>

theorem settled_is_final:
  assumes "recoveryOk w" "noLost w" "callsOk cs w"
    and "recoveries (db w) rid = Some r" "brStatus r = BillingRecoveryStatusSettled"
  shows "\<exists>r'. recoveries (db (calls cs w)) rid = Some r' \<and> core r' = core r \<and>
     (\<forall>c x. map_option adAmount (adjustments (db (calls cs w)) (rid, c, x)) =
            map_option adAmount (adjustments (db w) (rid, c, x))) \<and>
     walletCharge (absL (calls cs w)) rid = walletCharge (absL w) rid"
proof -
  have "lRec (absL w) rid = Some (core r)" using assms(4) by (simp add: absL_row)
  with settled_forever [of "absL w" "absL (calls cs w)" rid "core r"] calls_run [OF assms(1-3)] assms(5)
  have row: "lRec (absL (calls cs w)) rid = Some (core r)"
    and adj: "\<And>c x. lAdj (absL (calls cs w)) (rid, c, x) = lAdj (absL w) (rid, c, x)" by auto
  from row adj \<open>lRec (absL w) rid = Some (core r)\<close>
  have "walletCharge (absL (calls cs w)) rid = walletCharge (absL w) rid"
    by (simp add: walletCharge_def adjv_def)
  with row adj show ?thesis by (auto simp: absL_row absL_adj)
qed

definition settlingCalls :: "recovery_call list" where
  "settlingCalls = sampleCalls @
     [Adjust ''r1'' BillingRecoveryComponentToken BillingRecoveryOperationSettle, Settled ''r1'']"

lemma settlingCalls_ok: "callsOk settlingCalls sampleWorld"
  by (simp add: settlingCalls_def sampleCalls_def sampleInput_def mayRebind_def sampleWorld_def emptyDB_def)

lemma settlingCalls_run: "recoveryOk (calls settlingCalls sampleWorld)" "noLost (calls settlingCalls sampleWorld)"
  using calls_run [OF sampleWorld_ok(1) sampleWorld_faults(1) settlingCalls_ok] by blast+

theorem settled_is_final_witness:
  "map_option brStatus (recoveries (db (calls [RefundPending ''r1'' None, Settlement ''r1'' 40]
      (calls settlingCalls sampleWorld))) ''r1'') = Some BillingRecoveryStatusSettled"
proof -
  let ?w = "calls settlingCalls sampleWorld"
  have "map_option brStatus (recoveries (db ?w) ''r1'') = Some BillingRecoveryStatusSettled" by code_simp
  then obtain r where r: "recoveries (db ?w) ''r1'' = Some r" "brStatus r = BillingRecoveryStatusSettled" by auto
  have "callsOk [RefundPending ''r1'' None, Settlement ''r1'' 40] ?w" by simp
  from settled_is_final [OF settlingCalls_run this r] obtain r' where
    "recoveries (db (calls [RefundPending ''r1'' None, Settlement ''r1'' 40] ?w)) ''r1'' = Some r'" "core r' = core r"
    by blast
  then show ?thesis using r(2) core_simps(17) [of r] core_simps(17) [of r'] by simp
qed





section \<open>Outside the contract\<close>

definition lostCommitWorld :: world where
  "lostCommitWorld = (calls [Ensure sampleInput] sampleWorld)\<lparr>BatchUpdateEnabled := True,
     batchUpdateStores := (\<lambda>ty. if ty = BatchUpdateTypeUserQuota then [(7, - 20)] else []),
     ops := 0, dbFate := (\<lambda>n. if n = 7 then FLost else FOk)\<rparr>"


definition mysqlWorld :: world where
  "mysqlWorld = sampleWorld\<lparr>db := (db sampleWorld)\<lparr>changedRowsOnly := True\<rparr>\<rparr>"

text \<open>
  On MySQL, which reports the rows an update changes, repeating
  \<open>UpdateBillingRecoveryAmounts\<close> within a second is reported as a state conflict although the
  row is active and has the amounts.
\<close>

theorem mysql_repeated_amounts_conflict:
  "let w = calls [Ensure sampleInput, PreConsume ''r1'' 30 False] mysqlWorld in
   map_option (\<lambda>r. (brStatus r, brFundingAmount r, brTokenAmount r)) (recoveries (db w) ''r1'') =
     Some (BillingRecoveryStatusActive, 30, 30) \<and>
   fst (UpdateBillingRecoveryAmounts ''r1'' 0 30 0 30 w) = Inl ErrBillingRecoveryStateConflict"
  by code_simp

end
