(* ===== verification/Recovery_Worker.thy ===== *)
theory Recovery_Worker
  imports Recovery_Promises
begin

text \<open>
  The worker that closes stale billing recoveries (\<open>service/billing_recovery.go\<close>) and the query
  it starts from.  A pass over the stale rows is a run of the abstract ledger, so it keeps the
  accounting contract whatever fails; and when nothing fails it does close the rows it visits.

  The context handed to a pass is external: \<open>cancelled n\<close> says whether its \<open>Err\<close> is set when the
  \<open>n\<close>-th row is visited.  Settings read from the environment are arguments.
\<close>

section \<open>Settings (lines 12-60)\<close>

definition Second :: int where
  "Second = 1000000000"

definition BillingRecoveryTaskInterval :: "int \<Rightarrow> int" where
  "BillingRecoveryTaskInterval seconds = (if seconds < 5 then 5 else seconds) * Second"

definition BillingRecoveryStaleAfter :: "int \<Rightarrow> int" where
  "BillingRecoveryStaleAfter seconds = (if seconds < 30 then 30 else seconds) * Second"

definition BillingRecoveryHeartbeatInterval :: "int \<Rightarrow> int" where
  "BillingRecoveryHeartbeatInterval seconds =
     (let interval = BillingRecoveryStaleAfter seconds div 3 in
      if interval < 5 * Second then 5 * Second else interval)"

definition defaultBillingRecoveryBatchLimit :: int where
  "defaultBillingRecoveryBatchLimit = 100"

definition BillingRecoveryBatchLimit :: "int \<Rightarrow> int" where
  "BillingRecoveryBatchLimit limit =
     (if limit \<le> 0 \<or> limit > 100 then defaultBillingRecoveryBatchLimit else limit)"

section \<open>Recovering a row (lines 96-205)\<close>

definition loadBillingRecovery :: "string \<Rightarrow> BillingRecovery goM" where
  "loadBillingRecovery rid = firstRecovery rid"

definition recoverBillingSettlement :: "BillingRecovery \<Rightarrow> BillingRecoveryStatus goM" where
  "recoverBillingSettlement recovery0 =
     bindM (loadBillingRecovery (brRequestID recovery0)) (\<lambda>recovery.
     seqM (whenM (brFundingSettlement recovery \<noteq> BillingRecoveryStateCompleted)
             (ApplyBillingRecoveryAdjustment (brRequestID recovery)
                BillingRecoveryComponentFunding BillingRecoveryOperationSettle))
     (bindM (loadBillingRecovery (brRequestID recovery)) (\<lambda>recovery.
     seqM (whenM (brTokenSettlement recovery \<noteq> BillingRecoveryStateCompleted)
             (ApplyBillingRecoveryAdjustment (brRequestID recovery)
                BillingRecoveryComponentToken BillingRecoveryOperationSettle))
     (bindM (loadBillingRecovery (brRequestID recovery)) (\<lambda>current.
      if \<not> BillingRecoverySettlementComplete current
      then throwM (ErrText ''billing recovery settlement remains incomplete'')
      else seqM (MarkBillingRecoverySettled (brRequestID current))
             (retM BillingRecoveryStatusSettled))))))"

definition recoverBillingRefund :: "BillingRecovery \<Rightarrow> BillingRecoveryStatus goM" where
  "recoverBillingRefund recovery0 =
     seqM (MarkBillingRecoveryRefundPending (brRequestID recovery0) None)
     (bindM (loadBillingRecovery (brRequestID recovery0)) (\<lambda>recovery.
     seqM (whenM (brFundingRefund recovery \<noteq> BillingRecoveryStateCompleted)
             (ApplyBillingRecoveryAdjustment (brRequestID recovery)
                BillingRecoveryComponentFunding BillingRecoveryOperationRefund))
     (bindM (loadBillingRecovery (brRequestID recovery)) (\<lambda>recovery.
     seqM (whenM (brExtraAmount recovery > 0 \<and> brExtraRefund recovery \<noteq> BillingRecoveryStateCompleted)
             (ApplyBillingRecoveryAdjustment (brRequestID recovery)
                BillingRecoveryComponentExtra BillingRecoveryOperationRefund))
     (bindM (loadBillingRecovery (brRequestID recovery)) (\<lambda>recovery.
     seqM (whenM (brTokenAmount recovery > 0 \<and> brTokenRefund recovery \<noteq> BillingRecoveryStateCompleted)
             (ApplyBillingRecoveryAdjustment (brRequestID recovery)
                BillingRecoveryComponentToken BillingRecoveryOperationRefund))
     (bindM (loadBillingRecovery (brRequestID recovery)) (\<lambda>current.
      if \<not> BillingRecoveryRefundComplete current
      then throwM (ErrText ''billing recovery refund remains incomplete'')
      else seqM (MarkBillingRecoveryRefunded (brRequestID current) None)
             (retM BillingRecoveryStatusRefunded)))))))))"

definition recoverOneBillingRecovery :: "string \<Rightarrow> BillingRecoveryStatus goM" where
  "recoverOneBillingRecovery rid = bindM (firstRecovery rid) (\<lambda>recovery.
     if brStatus recovery = BillingRecoveryStatusSettlementPending
     then recoverBillingSettlement recovery
     else if brStatus recovery = BillingRecoveryStatusActive \<or>
             brStatus recovery = BillingRecoveryStatusRefundPending
     then recoverBillingRefund recovery
     else retM (brStatus recovery))"

section \<open>A pass (lines 26-94)\<close>

record BillingRecoverySummary =
  Scanned :: nat
  SettledCount :: nat
  RefundedCount :: nat
  PendingCount :: nat
  FailedCount :: nat

definition countOutcome :: "err + BillingRecoveryStatus \<Rightarrow> BillingRecoverySummary \<Rightarrow> BillingRecoverySummary" where
  "countOutcome outcome s = (case outcome of
     Inl _ \<Rightarrow> s\<lparr>FailedCount := Suc (FailedCount s)\<rparr>
   | Inr st \<Rightarrow>
       if st = BillingRecoveryStatusSettled then s\<lparr>SettledCount := Suc (SettledCount s)\<rparr>
       else if st = BillingRecoveryStatusRefunded then s\<lparr>RefundedCount := Suc (RefundedCount s)\<rparr>
       else s\<lparr>PendingCount := Suc (PendingCount s)\<rparr>)"

text \<open>The returned error of a cancelled pass comes with the summary so far.\<close>

fun recoverRows ::
  "(nat \<Rightarrow> bool) \<Rightarrow> BillingRecovery list \<Rightarrow> BillingRecoverySummary \<Rightarrow> (BillingRecoverySummary \<times> bool) goM" where
  "recoverRows cancelled [] s = retM (s, False)"
| "recoverRows cancelled (recovery # rows) s =
     (if cancelled (Scanned s) then retM (s, True)
      else bindM (tryM (recoverOneBillingRecovery (brRequestID recovery))) (\<lambda>outcome.
        recoverRows cancelled rows (countOutcome outcome (s\<lparr>Scanned := Suc (Scanned s)\<rparr>))))"

definition emptySummary :: BillingRecoverySummary where
  "emptySummary = \<lparr>Scanned = 0, SettledCount = 0, RefundedCount = 0, PendingCount = 0, FailedCount = 0\<rparr>"

definition RecoverStaleBillingRecoveries ::
  "(nat \<Rightarrow> bool) \<Rightarrow> int \<Rightarrow> int \<Rightarrow> (BillingRecoverySummary \<times> bool) goM" where
  "RecoverStaleBillingRecoveries cancelled cutoff limit =
     bindM (ListStaleBillingRecoveries cutoff limit) (\<lambda>rows. recoverRows cancelled rows emptySummary)"

section \<open>What an adjustment leaves alone\<close>

definition sameStatus :: "world \<Rightarrow> world \<Rightarrow> bool" where
  "sameStatus w w' \<longleftrightarrow> (\<forall>rid. map_option brStatus (recoveries (db w') rid) = map_option brStatus (recoveries (db w) rid))"

interpretation statuses: frame_rel sameStatus
  by unfold_locales (auto simp: sameStatus_def)

lemma statuses_caching: "framed cacheOnly m \<Longrightarrow> framed sameStatus m"
  by (simp add: framed_def cacheOnly_def sameStatus_def)

lemma statuses_execM:
  "(\<And>d. recoveries (snd (f d)) = recoveries d) \<Longrightarrow> framed sameStatus (execM f)"
  unfolding framed_wp wp_execM by (simp add: sameStatus_def split: fate.split)

lemma statuses_statements:
  "framed sameStatus (updUser i P1 f1)" "framed sameStatus (updToken j P2 f2)"
  unfolding updUser_def updToken_def by (intro statuses_execM; simp split: option.split)+

lemma statuses_component: "framed sameStatus (updateBillingRecoveryComponentState rid c x)"
  unfolding framed_wp updateBillingRecoveryComponentState_def updRecovery_def
  by (auto simp: wp_simps sameStatus_def setComponentState_def
      split: fate.split option.split BillingRecoveryComponent.splits if_splits)

lemma statuses_saves: "framed sameStatus (saveSub s)" "framed sameStatus (savePreConsume r)"
  unfolding framed_wp wp_saveSub wp_savePreConsume wp_execM by (simp_all add: sameStatus_def split: fate.split)

lemma statuses_create: "framed sameStatus (createAdjustment k a)"
  unfolding framed_wp createAdjustment_def by (auto simp: wp_simps sameStatus_def split: fate.split option.split)

lemma statuses_transaction: "framed sameStatus m \<Longrightarrow> framed sameStatus (transaction m)"
  unfolding framed_wp wp_transaction by (auto simp: wp_iff sameStatus_def split: fate.split)

lemma statuses_pending: "framed sameStatus (addNewRecord ty i v)" "framed sameStatus (takePendingQuotaDelta ty i)"
  unfolding framed_wp by (simp_all add: wp_simps sameStatus_def)

lemmas statuses_intros =
  statuses.framed_intros statuses_statements statuses_component statuses_saves statuses_create
  statuses_transaction statuses_pending statuses_caching [OF caching_firstM] statuses_caching [OF caching_nowM]
  statuses_caching [OF caching_invalidate(1)] statuses_caching [OF caching_invalidate(2)]

lemma statuses_subscription:
  "framed sameStatus (applySubscriptionDeltaTx i x)"
  "framed sameStatus (refundBillingRecoverySubscriptionPreConsumeTx rid)"
  unfolding applySubscriptionDeltaTx_def refundBillingRecoverySubscriptionPreConsumeTx_def
    postConsumeUserSubscriptionDeltaTx_def
  by (intro statuses_intros)+

lemma statuses_effect: "framed sameStatus (applyBillingRecoveryEffect r c x a)"
  unfolding applyBillingRecoveryEffect_def
  by (cases c; simp only: BillingRecoveryComponent.case; intro statuses_intros statuses_subscription)

lemma statuses_Apply: "framed sameStatus (ApplyBillingRecoveryAdjustment rid c x)"
  unfolding ApplyBillingRecoveryAdjustment_def withMutation_def beginBillingRecoveryQuotaMutation_def
    release_def firstRecovery_def applyPendingDeltas_def adjustmentTx_def applyAdjustmentTx_def
  by (intro statuses_intros statuses_effect)

section \<open>A pass is a run of the ledger\<close>

definition safeRun :: "world \<Rightarrow> world \<Rightarrow> bool" where
  "safeRun w0 w \<longleftrightarrow> ledger_step\<^sup>*\<^sup>* (absL w0) (absL w) \<and> recoveryOk w \<and> noLost w"

lemma safeRun_call:
  assumes "safeRun w0 w" "callOk c (db w)"
  shows "wp (call c) (\<lambda>_. safeRun w0) (\<lambda>_. safeRun w0) w"
proof -
  have "safeRun w0 (snd (call c w))"
    using assms call_ok [of w c] absStep_ledger [OF call_absStep [of w c]] by (auto simp: safeRun_def)
  then show ?thesis by (auto simp: wp_def split: sum.split prod.splits)
qed

lemma safeRun_cacheOnly: "safeRun w0 w \<Longrightarrow> cacheOnly w w1 \<Longrightarrow> safeRun w0 w1"
  using sameSettings_faults(1) [of w w1] cacheOnly_absL [of w w1]
  by (auto simp: safeRun_def recoveryOk_def cacheOnly_def)

lemma safeRun_load:
  assumes "safeRun w0 w"
    and "\<And>r w1. safeRun w0 w1 \<Longrightarrow> db w1 = db w \<Longrightarrow> recoveries (db w) rid = Some r \<Longrightarrow> brRequestID r = rid \<Longrightarrow>
      wp (f r) Q (\<lambda>_. safeRun w0) w1"
  shows "wp (bindM (loadBillingRecovery rid) f) Q (\<lambda>_. safeRun w0) w"
proof -
  have "sourceOk rid (db w)" using assms(1) by (simp add: safeRun_def recoveryOk_def awf_absL awf_sourceOk)
  moreover have "safeRun w0 (tick w)" using safeRun_cacheOnly [OF assms(1), of "tick w"] by (simp add: cacheOnly_def)
  ultimately show ?thesis using assms(2)
    by (auto simp: loadBillingRecovery_def firstRecovery_def wp_bindM wp_firstM sourceOk_def split: option.split)
qed

lemma refundPending_mayRefund:
  "wpOk (MarkBillingRecoveryRefundPending rid e) (\<lambda>_ w'. mayRefund rid (db w')) w"
  by (auto simp: MarkBillingRecoveryRefundPending_def firstRecovery_def updRecovery_def wp_simps mayRefund_def
      Let_def split: fate.split option.split)

lemma mayRefund_sameStatus: "sameStatus w w' \<Longrightarrow> mayRefund rid (db w) \<Longrightarrow> mayRefund rid (db w')"
  unfolding mayRefund_def
proof (intro allI impI)
  fix r'
  assume same: "sameStatus w w'" and active: "\<forall>r. recoveries (db w) rid = Some r \<longrightarrow> brStatus r \<noteq> BillingRecoveryStatusActive"
    and r': "recoveries (db w') rid = Some r'"
  from same have "map_option brStatus (recoveries (db w) rid) = map_option brStatus (recoveries (db w') rid)"
    by (simp add: sameStatus_def)
  with r' active show "brStatus r' \<noteq> BillingRecoveryStatusActive" by (cases "recoveries (db w) rid") auto
qed

lemma safeRun_refund:
  assumes "safeRun w0 w" "mayRefund rid (db w)"
    and "\<And>w1. safeRun w0 w1 \<Longrightarrow> mayRefund rid (db w1) \<Longrightarrow> wp n Q (\<lambda>_. safeRun w0) w1"
  shows "wp (seqM (whenM b (ApplyBillingRecoveryAdjustment rid c BillingRecoveryOperationRefund)) n) Q (\<lambda>_. safeRun w0) w"
proof (cases b)
  case False
  with assms show ?thesis by (simp add: wp_simps)
next
  case True
  have "wp (ApplyBillingRecoveryAdjustment rid c BillingRecoveryOperationRefund) (\<lambda>_. safeRun w0) (\<lambda>_. safeRun w0) w"
    using safeRun_call [OF assms(1), of "Adjust rid c BillingRecoveryOperationRefund"] assms(2) by simp
  from wp_conj [OF this statuses_Apply [unfolded framed_wp, rule_format]] True show ?thesis
    unfolding wp_seqM wp_whenM if_P [OF True]
    by (elim wp_mono) (use assms(2,3) mayRefund_sameStatus in blast)+
qed

lemma safeRun_settle:
  assumes "safeRun w0 w" "\<And>w1. safeRun w0 w1 \<Longrightarrow> wp n Q (\<lambda>_. safeRun w0) w1"
  shows "wp (seqM (whenM b (ApplyBillingRecoveryAdjustment rid c BillingRecoveryOperationSettle)) n) Q (\<lambda>_. safeRun w0) w"
  using safeRun_call [OF assms(1), of "Adjust rid c BillingRecoveryOperationSettle"] assms
  by (cases b) (auto simp: wp_seqM wp_whenM elim!: wp_mono)

lemma recoverBillingRefund_safe:
  assumes "safeRun w0 w"
  shows "wp (recoverBillingRefund r) (\<lambda>_. safeRun w0) (\<lambda>_. safeRun w0) w"
proof -
  have mark: "wp (MarkBillingRecoveryRefundPending (brRequestID r) None)
      (\<lambda>_ w1. safeRun w0 w1 \<and> mayRefund (brRequestID r) (db w1)) (\<lambda>_. safeRun w0) w"
    using wp_conj [OF safeRun_call [OF assms, of "RefundPending (brRequestID r) None", simplified]
        refundPending_mayRefund [of "brRequestID r" None w]]
    by (rule wp_mono) simp_all
  have fin: "wp (seqM (MarkBillingRecoveryRefunded rid None) (retM st)) (\<lambda>_. safeRun w0) (\<lambda>_. safeRun w0) w1"
    if "safeRun w0 w1" for rid st w1
    using safeRun_call [OF that, of "Refunded rid None"] by (simp add: wp_seqM wp_retM)
  show ?thesis
    unfolding recoverBillingRefund_def wp_seqM [of "MarkBillingRecoveryRefundPending _ _"]
    by (rule wp_mono [OF mark])
      (auto intro!: safeRun_load safeRun_refund fin simp: wp_if wp_throwM)
qed

lemma recoverBillingSettlement_safe:
  assumes "safeRun w0 w"
  shows "wp (recoverBillingSettlement r) (\<lambda>_. safeRun w0) (\<lambda>_. safeRun w0) w"
proof -
  have fin: "wp (seqM (MarkBillingRecoverySettled rid) (retM st)) (\<lambda>_. safeRun w0) (\<lambda>_. safeRun w0) w1"
    if "safeRun w0 w1" for rid st w1
    using safeRun_call [OF that, of "Settled rid"] by (simp add: wp_seqM wp_retM)
  show ?thesis
    unfolding recoverBillingSettlement_def using assms
    by (auto intro!: safeRun_load safeRun_settle fin simp: wp_if wp_throwM)
qed

lemma recoverOne_safe:
  assumes "safeRun w0 w"
  shows "wp (recoverOneBillingRecovery rid) (\<lambda>_. safeRun w0) (\<lambda>_. safeRun w0) w"
  unfolding recoverOneBillingRecovery_def loadBillingRecovery_def [symmetric] using assms
  by (auto intro!: safeRun_load recoverBillingRefund_safe recoverBillingSettlement_safe simp: wp_if wp_retM)

lemma recoverRows_safe:
  assumes "safeRun w0 w"
  shows "wp (recoverRows cancelled rows s) (\<lambda>_. safeRun w0) (\<lambda>_. safeRun w0) w"
  using assms
proof (induction rows arbitrary: s w)
  case (Cons r rows)
  show ?case
    unfolding recoverRows.simps wp_if wp_bindM wp_tryM wp_retM
    using Cons.prems by (auto intro!: wp_mono [OF recoverOne_safe] Cons.IH)
qed (simp add: wp_retM)

lemma RecoverStale_safe:
  assumes "recoveryOk w" "noLost w"
  shows "safeRun w (snd (RecoverStaleBillingRecoveries cancelled cutoff limit w))"
proof -
  have "safeRun w w" using assms by (simp add: safeRun_def)
  moreover from this have "safeRun w (tick w)" using safeRun_cacheOnly [of w w "tick w"] by (simp add: cacheOnly_def)
  ultimately have "wp (RecoverStaleBillingRecoveries cancelled cutoff limit) (\<lambda>_. safeRun w) (\<lambda>_. safeRun w) w"
    unfolding RecoverStaleBillingRecoveries_def ListStaleBillingRecoveries_def
    by (simp add: wp_simps recoverRows_safe)
  then show ?thesis by (auto simp: wp_def split: sum.splits prod.splits)
qed

text \<open>
  C9. A pass of the worker never creates or destroys money: whatever rows are stale, whatever
  statements fail and wherever the pass is cancelled, every wallet's balance and recorded charges
  add up to what they did before, and the component's invariant holds again.
\<close>

theorem worker_pass_conserves:
  assumes "recoveryOk w" "noLost w"
  shows "let w' = snd (RecoverStaleBillingRecoveries cancelled cutoff limit w) in
     recoveryOk w' \<and> userBal w' u + userCharges (absL w') u = userBal w u + userCharges (absL w) u"
proof -
  from RecoverStale_safe [OF assms, of cancelled cutoff limit]
    ledger_conserves [of "absL w" "absL (snd (RecoverStaleBillingRecoveries cancelled cutoff limit w))" u] assms(1)
  show ?thesis by (simp add: safeRun_def recoveryOk_def Let_def absL_bal)
qed

definition staleWorld :: world where
  "staleWorld = (calls [Ensure sampleInput, PreConsume ''r1'' 30 False] sampleWorld)\<lparr>clock := 2000\<rparr>"

lemma staleWorld_ok: "recoveryOk staleWorld" "noLost staleWorld"
proof -
  let ?w = "calls [Ensure sampleInput, PreConsume ''r1'' 30 False] sampleWorld"
  have "callsOk [Ensure sampleInput, PreConsume ''r1'' 30 False] sampleWorld"
    using sampleInput_ok by simp
  from calls_run [OF sampleWorld_ok(1) sampleWorld_faults(1) this]
  have "recoveryOk ?w" "noLost ?w" by blast+
  then show "recoveryOk staleWorld" "noLost staleWorld"
    by (simp_all add: staleWorld_def recoveryOk_def absL_def pendingDelta_def noLost_def)
qed

theorem worker_pass_conserves_witness:
  "let w' = snd (RecoverStaleBillingRecoveries (\<lambda>_. False) 1700 100 staleWorld) in
   userBal w' 7 + userCharges (absL w') 7 = 100 \<and> userBal w' 7 = 100"
proof -
  have "userBal staleWorld 7 + userCharges (absL staleWorld) 7 = 100"
    "userBal (snd (RecoverStaleBillingRecoveries (\<lambda>_. False) 1700 100 staleWorld)) 7 = 100"
    by code_simp+
  with worker_pass_conserves [OF staleWorld_ok, of "\<lambda>_. False" 1700 100 7] show ?thesis by (simp add: Let_def)
qed



section \<open>The rows a pass starts from\<close>

definition isOpen :: "BillingRecovery \<Rightarrow> bool" where
  "isOpen r \<longleftrightarrow> brStatus r = BillingRecoveryStatusActive \<or>
     brStatus r = BillingRecoveryStatusSettlementPending \<or> brStatus r = BillingRecoveryStatusRefundPending"

interpretation oldest: strict_order "\<lambda>a b. brUpdatedAt a < brUpdatedAt b"
  by unfold_locales auto

lemma sorted_take_rest:
  assumes "sorted_wrt P xs" "x \<in> set (take n xs)" "y \<in> set xs" "y \<notin> set (take n xs)"
  shows "P x y"
proof -
  have "sorted_wrt P (take n xs @ drop n xs)" using assms(1) by simp
  moreover have "y \<in> set (drop n xs)" using assms(3,4) append_take_drop_id [of n xs] by (metis Un_iff set_append)
  ultimately show ?thesis using assms(2) unfolding sorted_wrt_append by blast
qed

text \<open>
  C10. The worker never starves an old row: \<open>ListStaleBillingRecoveries\<close> returns at most a
  hundred open rows older than the cutoff, oldest first, and an open stale row it leaves out is
  not older than any row it returns, and is left out only when the batch is full.
\<close>

theorem ListStale_oldest_first:
  assumes "recoveryOk w" "ListStaleBillingRecoveries cutoff limit w = (Inr rows, w')"
  shows "int (length rows) \<le> BillingRecoveryBatchLimit limit \<and> sorted (map brUpdatedAt rows) \<and>
    (\<forall>r \<in> set rows. isOpen r \<and> brUpdatedAt r < cutoff \<and> recoveries (db w) (brRequestID r) = Some r) \<and>
    (\<forall>rid r. recoveries (db w) rid = Some r \<longrightarrow> isOpen r \<longrightarrow> brUpdatedAt r < cutoff \<longrightarrow> r \<notin> set rows \<longrightarrow>
       int (length rows) = BillingRecoveryBatchLimit limit \<and> (\<forall>x \<in> set rows. brUpdatedAt x \<le> brUpdatedAt r))"
proof -
  define all where "all = filter (\<lambda>r. isOpen r \<and> brUpdatedAt r < cutoff)
      (List.map_filter (recoveries (db w)) (recoveryIds (db w)))"
  define ordered where "ordered = SliceStable (\<lambda>a b. brUpdatedAt a < brUpdatedAt b) all"
  let ?n = "nat (BillingRecoveryBatchLimit limit)"
  have n: "int ?n = BillingRecoveryBatchLimit limit"
    by (simp add: BillingRecoveryBatchLimit_def defaultBillingRecoveryBatchLimit_def)
  have rows: "rows = take ?n ordered"
    using assms(2)
    by (auto simp: ListStaleBillingRecoveries_def findM_def queryM_def Let_def ordered_def all_def isOpen_def
        BillingRecoveryBatchLimit_def defaultBillingRecoveryBatchLimit_def split: if_splits)
  have sorted: "sorted_wrt (\<lambda>x y. brUpdatedAt x \<le> brUpdatedAt y) ordered"
    using oldest.sorted_SliceStable [of all] by (simp add: ordered_def not_less)
  have wf: "awf (dbL (db w))" using assms(1) by (simp add: recoveryOk_def awf_absL)
  then have ids: "set (recoveryIds (db w)) = dom (recoveries (db w))"
    by (simp add: awf_def dom_def)
  have mem: "r \<in> set ordered \<longleftrightarrow> isOpen r \<and> brUpdatedAt r < cutoff \<and> (\<exists>rid. recoveries (db w) rid = Some r)" for r
    using ids by (auto simp: ordered_def all_def map_filter_def image_iff dom_def)
  have key: "recoveries (db w) (brRequestID r) = Some r" if "recoveries (db w) rid = Some r" for rid r
    using awf_sourceOk [OF wf, of rid] that by (auto simp: sourceOk_def)
  have "sorted (map brUpdatedAt rows)"
    using sorted unfolding rows by (simp add: sorted_wrt_take sorted_map)
  moreover have "\<forall>r \<in> set rows. isOpen r \<and> brUpdatedAt r < cutoff \<and> recoveries (db w) (brRequestID r) = Some r"
    using mem key in_set_takeD unfolding rows by (metis (no_types, lifting))
  moreover have "int (length rows) = BillingRecoveryBatchLimit limit \<and> (\<forall>x \<in> set rows. brUpdatedAt x \<le> brUpdatedAt r)"
    if "recoveries (db w) rid = Some r" "isOpen r" "brUpdatedAt r < cutoff" "r \<notin> set rows" for rid r
  proof -
    have "r \<in> set ordered" using that mem by blast
    with that(4) have "\<forall>x \<in> set rows. brUpdatedAt x \<le> brUpdatedAt r"
      using sorted_take_rest [OF sorted] unfolding rows by blast
    moreover have "?n < length ordered"
      using \<open>r \<in> set ordered\<close> that(4) unfolding rows by (metis not_less take_all)
    then have "int (length rows) = BillingRecoveryBatchLimit limit" using n by (simp add: rows)
    ultimately show ?thesis by blast
  qed
  moreover have "length rows \<le> ?n" by (simp add: rows)
  then have "int (length rows) \<le> BillingRecoveryBatchLimit limit" using n by linarith
  ultimately show ?thesis by blast
qed

theorem ListStale_oldest_first_witness:
  "map brRequestID (case fst (ListStaleBillingRecoveries 1700 100 staleWorld) of Inr rows \<Rightarrow> rows | Inl _ \<Rightarrow> []) = [''r1''] \<and>
   sorted (map brUpdatedAt (case fst (ListStaleBillingRecoveries 1700 100 staleWorld) of Inr rows \<Rightarrow> rows | Inl _ \<Rightarrow> []))"
proof -
  have ids: "map brRequestID (case fst (ListStaleBillingRecoveries 1700 100 staleWorld) of Inr rows \<Rightarrow> rows | Inl _ \<Rightarrow> []) =
      [''r1'']" by code_simp
  then obtain rows w' where "ListStaleBillingRecoveries 1700 100 staleWorld = (Inr rows, w')"
    by (cases "ListStaleBillingRecoveries 1700 100 staleWorld") (auto split: sum.splits)
  with ids ListStale_oldest_first [OF staleWorld_ok(1) this] show ?thesis by simp
qed

end
