(* ===== verification/Recovery_Liveness.thy ===== *)
theory Recovery_Liveness
  imports Recovery_Worker
begin

text \<open>
  The worker of \<open>service/billing_recovery.go\<close> does its job: when no statement fails and the rows a
  request refers to exist, visiting a stale request refunds it.  The proof is a total-correctness
  calculation over the same definitions the safety theorems use; \<open>stage\<close> is the state between two
  components of the refund.
\<close>

section \<open>When nothing fails\<close>

text \<open>Total correctness: the call succeeds.\<close>

abbreviation wpT :: "'a goM \<Rightarrow> ('a \<Rightarrow> world \<Rightarrow> bool) \<Rightarrow> world \<Rightarrow> bool" where
  "wpT m Q \<equiv> wp m Q (\<lambda>_ _. False)"

definition healthy :: "world \<Rightarrow> bool" where
  "healthy w \<longleftrightarrow> noFault w \<and> (\<forall>n. redisFate w n = FOk)"

lemma healthy_upd [simp]:
  "healthy (tick w) = healthy w" "healthy (w\<lparr>db := d\<rparr>) = healthy w" "healthy (w\<lparr>rds := r\<rparr>) = healthy w"
  "healthy (w\<lparr>rops := n\<rparr>) = healthy w" "healthy (w\<lparr>batchUpdateStores := b\<rparr>) = healthy w"
  by (simp_all add: healthy_def noFault_def)

lemma healthy_fate [simp]: "healthy w \<Longrightarrow> fateNow w = FOk" "healthy w \<Longrightarrow> redisFate w n = FOk"
  by (simp_all add: healthy_def)

lemma healthy_settings: "sameSettings w w' \<Longrightarrow> healthy w' = healthy w"
  by (simp add: healthy_def sameSettings_def noFault_def)

lemma wpT_conj: "wpT m Q w \<Longrightarrow> wp m R E w \<Longrightarrow> wpT m (\<lambda>x w1. Q x w1 \<and> R x w1) w"
  using wp_conj [of m Q "\<lambda>_ _. False" w R E] by simp

lemma wpT_result: "wpT m Q w \<Longrightarrow> \<exists>x w'. m w = (Inr x, w') \<and> Q x w'"
  by (auto simp: wp_def split: prod.splits sum.splits)

lemma wpT_seq:
  assumes "wpT m (\<lambda>_. R) w" "\<And>w1. R w1 \<Longrightarrow> wpT n Q w1"
  shows "wpT (seqM m n) Q w"
  unfolding wp_seqM using assms by (auto elim!: wp_mono)

text \<open>What the rows of a request need to be refunded or settled.\<close>

definition subsOk :: "db \<Rightarrow> bool" where
  "subsOk d \<longleftrightarrow> (\<forall>s \<in> set (subs d). usAmountTotal s > 0 \<longrightarrow> usAmountUsed s \<le> usAmountTotal s)"

definition hasRows :: "BillingRecovery \<Rightarrow> db \<Rightarrow> bool" where
  "hasRows r d \<longleftrightarrow> (brSource r = ''wallet'' \<longrightarrow> users d (brUserID r) \<noteq> None) \<and>
     (brTokenID r > 0 \<longrightarrow> tokens d (brTokenID r) \<noteq> None) \<and>
     (brExtraAmount r > 0 \<and> brSubscriptionID r > 0 \<longrightarrow> findSub d (brSubscriptionID r) \<noteq> None) \<and> subsOk d"

text \<open>What the effects of an adjustment keep.\<close>

definition keepsRows :: "db \<Rightarrow> db \<Rightarrow> bool" where
  "keepsRows d d' \<longleftrightarrow> sameRows d d' \<and> dom (users d') = dom (users d) \<and> dom (tokens d') = dom (tokens d) \<and>
     (\<forall>i. findSub d' i = None \<longleftrightarrow> findSub d i = None) \<and> (subsOk d \<longrightarrow> subsOk d')"

lemma keepsRows_refl [simp]: "keepsRows d d"
  by (simp add: keepsRows_def sameRows_def)

lemma keepsRows_trans: "keepsRows d d1 \<Longrightarrow> keepsRows d1 d2 \<Longrightarrow> keepsRows d d2"
  by (simp add: keepsRows_def sameRows_def)

lemma keepsRows_hasRows: "keepsRows d d' \<Longrightarrow> hasRows r d \<Longrightarrow> hasRows r d'"
  unfolding keepsRows_def hasRows_def by (auto simp: dom_def)

lemma findSub_putSub:
  "findSub (putSub s d) i = None \<longleftrightarrow> findSub d i = None"
proof -
  have "find (\<lambda>u. usId u = i) (map (\<lambda>t. if usId t = usId s then s else t) xs) = None \<longleftrightarrow>
      find (\<lambda>u. usId u = i) xs = None" for xs
    by (induction xs) auto
  then show ?thesis by (simp add: findSub_def putSub_def)
qed

lemma keepsRows_updates:
  "users d i = Some u \<Longrightarrow> keepsRows d (d\<lparr>users := (users d)(i \<mapsto> u')\<rparr>)"
  "tokens d j = Some t \<Longrightarrow> keepsRows d (d\<lparr>tokens := (tokens d)(j \<mapsto> t')\<rparr>)"
  "keepsRows d (d\<lparr>preconsumes := pc\<rparr>)"
  "(usAmountTotal s > 0 \<Longrightarrow> usAmountUsed s \<le> usAmountTotal s) \<Longrightarrow> keepsRows d (putSub s d)"
  by (auto simp: keepsRows_def sameRows_def subsOk_def findSub_putSub) (auto simp: putSub_def findSub_def)


lemma post_total:
  assumes "healthy w" "subsOk (db w)" "x \<le> 0" "findSub (db w) i \<noteq> None"
  shows "wpT (postConsumeUserSubscriptionDeltaTx i x)
     (\<lambda>_ w1. keepsRows (db w) (db w1) \<and> preconsumes (db w1) = preconsumes (db w)) w"
proof -
  obtain u where u: "findSub (db w) i = Some u" using assms(4) by auto
  then have "u \<in> set (subs (db w))" by (auto simp: findSub_def find_Some_iff)
  then have room: "usAmountTotal u > 0 \<longrightarrow> usAmountUsed u \<le> usAmountTotal u" using assms(2) by (simp add: subsOk_def)
  with u assms(1,3) show ?thesis
    by (auto simp: postConsumeUserSubscriptionDeltaTx_def wp_simps Let_def intro!: keepsRows_updates(4))
qed

lemma refundFound_total:
  assumes "healthy w" "subsOk (db w)"
  shows "wpT (refundFound rid) (\<lambda>_ w1. keepsRows (db w) (db w1)) w"
proof (cases "preconsumes (db w) rid")
  case None
  with assms show ?thesis
    by (simp add: refundFound_def refundBillingRecoverySubscriptionPreConsumeTx_def wp_simps)
next
  case (Some p)
  have save: "wpT (bindM (savePreConsume q) (\<lambda>_. retM ())) (\<lambda>_ w2. keepsRows (db w) (db w2)) w1"
    if "healthy w1" "keepsRows (db w) (db w1)" for q w1
    using that keepsRows_updates(3) [of "db w1"] by (auto simp: wp_simps intro: keepsRows_trans)
  let ?post = "postConsumeUserSubscriptionDeltaTx (pcUserSubscriptionId p) (- pcPreConsumed p)"
  let ?E = "\<lambda>e w1. e = ErrRecordNotFound \<and> db w1 = db w"
  have undo: "wp (whenM (pcPreConsumed p > 0) ?post) (\<lambda>_ w1. keepsRows (db w) (db w1)) ?E (tick w)"
  proof (cases "pcPreConsumed p > 0 \<and> findSub (db w) (pcUserSubscriptionId p) \<noteq> None")
    case True
    then have "wpT ?post (\<lambda>_ w1. keepsRows (db w) (db w1) \<and> preconsumes (db w1) = preconsumes (db w)) (tick w)"
      using post_total [of "tick w"] assms by simp
    with True show ?thesis by (auto simp: wp_whenM elim: wp_mono)
  next
    case False
    with assms show ?thesis by (auto simp: wp_simps postConsumeUserSubscriptionDeltaTx_def)
  qed
  have "framed sameSettings (whenM (pcPreConsumed p > 0) ?post)"
    unfolding postConsumeUserSubscriptionDeltaTx_def by (intro settings_intros)
  then have kept: "wp (whenM (pcPreConsumed p > 0) ?post) (\<lambda>_. sameSettings (tick w)) (\<lambda>_. sameSettings (tick w)) (tick w)"
    unfolding framed_wp by blast
  have main: "wp (seqM (whenM (pcPreConsumed p > 0) ?post)
      (bindM (savePreConsume (p\<lparr>pcStatus := ''refunded''\<rparr>)) (\<lambda>_. retM ()))) (\<lambda>_ w1. keepsRows (db w) (db w1)) ?E (tick w)"
    unfolding wp_seqM
  proof (rule wp_mono [OF wp_conj [OF undo kept]], elim conjE)
    fix w1 :: world
    assume "keepsRows (db w) (db w1)" "sameSettings (tick w) w1"
    with assms(1) healthy_settings [of "tick w" w1]
    show "wp (bindM (savePreConsume (p\<lparr>pcStatus := ''refunded''\<rparr>)) (\<lambda>_. retM ()))
        (\<lambda>_ w1. keepsRows (db w) (db w1)) ?E w1"
      by (intro wp_mono [OF save]) simp_all
  qed simp
  show ?thesis
  proof (cases "pcStatus p = ''refunded''")
    case True
    with Some assms show ?thesis
      by (simp add: refundFound_def refundBillingRecoverySubscriptionPreConsumeTx_def wp_simps)
  next
    case False
    from main have "wpT (bindM (tryM (seqM (whenM (pcPreConsumed p > 0) ?post)
      (bindM (savePreConsume (p\<lparr>pcStatus := ''refunded''\<rparr>)) (\<lambda>_. retM ())))) (\<lambda>r. case r of
        Inl e \<Rightarrow> if errIs e ErrRecordNotFound then retM () else throwM e | Inr _ \<Rightarrow> retM ()))
      (\<lambda>_ w1. keepsRows (db w) (db w1)) (tick w)"
      unfolding wp_bindM [of "tryM _"] wp_tryM by (rule wp_mono) (auto simp: wp_simps)
    with False Some assms(1) show ?thesis
      unfolding refundFound_def refundBillingRecoverySubscriptionPreConsumeTx_def
      by (simp only: wp_bindM wp_tryM wp_firstM wp_if healthy_fate if_True if_False option.case simp_thms)
  qed
qed

lemma quota_changes:
  "a \<noteq> 0 \<Longrightarrow> u \<noteq> u\<lparr>uQuota := uQuota u + a\<rparr>" "a \<noteq> 0 \<Longrightarrow> t \<noteq> addTokenQuota now a t"
proof -
  show "u \<noteq> u\<lparr>uQuota := uQuota u + a\<rparr>" if "a \<noteq> 0"
  proof
    assume "u = u\<lparr>uQuota := uQuota u + a\<rparr>"
    from arg_cong [where f = uQuota, OF this] that show False by simp
  qed
  show "t \<noteq> addTokenQuota now a t" if "a \<noteq> 0"
  proof
    assume "t = addTokenQuota now a t"
    from arg_cong [where f = tRemainQuota, OF this] that show False by simp
  qed
qed

lemma quota_affected:
  "a \<noteq> 0 \<Longrightarrow> affected d u (u\<lparr>uQuota := uQuota u + a\<rparr>) = 1" "a \<noteq> 0 \<Longrightarrow> affected d t (addTokenQuota now a t) = 1"
  by (simp_all add: affected_def quota_changes)

lemma effect_total:
  assumes "healthy w" "hasRows r (db w)" "brSource r \<in> {''wallet'', ''subscription''}" "brRequestID r = rid"
    and "c \<in> {BillingRecoveryComponentFunding, BillingRecoveryComponentToken} \<or>
         c = BillingRecoveryComponentExtra \<and> a = brExtraAmount r \<and> a > 0"
  shows "wpT (applyBillingRecoveryEffect r c BillingRecoveryOperationRefund a) (\<lambda>_ w1. keepsRows (db w) (db w1)) w"
proof (cases "a = 0 \<or> c = BillingRecoveryComponentToken \<and> brTokenID r \<le> 0")
  case True
  then show ?thesis by (auto simp: applyBillingRecoveryEffect_def wp_retM)
next
  case False
  consider "c = BillingRecoveryComponentFunding" "brSource r = ''wallet''"
    | "c = BillingRecoveryComponentFunding" "brSource r = ''subscription''"
    | "c = BillingRecoveryComponentExtra" "a = brExtraAmount r" "a > 0" | "c = BillingRecoveryComponentToken"
    using assms(3,5) by auto
  then show ?thesis
  proof cases
    case 1
    then obtain u where "users (db w) (brUserID r) = Some u" using assms(2) by (auto simp: hasRows_def)
    with 1 False assms(1) show ?thesis
      by (auto simp: applyBillingRecoveryEffect_def updUser_def wp_simps quota_affected intro!: keepsRows_updates(1))
  next
    case 2
    with False assms(4) have "applyBillingRecoveryEffect r c BillingRecoveryOperationRefund a = refundFound rid"
      unfolding applyBillingRecoveryEffect_def refundFound_def by simp
    with refundFound_total assms(1,2) show ?thesis by (simp add: hasRows_def)
  next
    case 3
    show ?thesis
    proof (cases "brSubscriptionID r > 0")
      case True
      with 3 assms(1,2) post_total [of w "- a" "brSubscriptionID r"] show ?thesis
        by (auto simp: applyBillingRecoveryEffect_def applySubscriptionDeltaTx_def hasRows_def elim: wp_mono)
    qed (use 3 in \<open>simp add: applyBillingRecoveryEffect_def applySubscriptionDeltaTx_def wp_retM\<close>)
  next
    case 4
    then obtain t where "tokens (db w) (brTokenID r) = Some t" using assms(2) False by (auto simp: hasRows_def)
    then show ?thesis using 4 False assms(1)
      by (auto simp: applyBillingRecoveryEffect_def updToken_def wp_simps quota_affected intro!: keepsRows_updates(2))
  qed
qed


definition componentState :: "BillingRecoveryComponent \<Rightarrow> BillingRecovery \<Rightarrow> BillingRecoveryState" where
  "componentState c r = (case c of BillingRecoveryComponentFunding \<Rightarrow> brFundingRefund r
     | BillingRecoveryComponentExtra \<Rightarrow> brExtraRefund r | BillingRecoveryComponentToken \<Rightarrow> brTokenRefund r
     | _ \<Rightarrow> BillingRecoveryStateUnset)"

definition refundable :: "BillingRecoveryComponent \<Rightarrow> BillingRecovery \<Rightarrow> bool" where
  "refundable c r \<longleftrightarrow> c = BillingRecoveryComponentFunding \<or> c = BillingRecoveryComponentToken \<or>
     c = BillingRecoveryComponentExtra \<and> brExtraAmount r > 0"

lemma setComponentState_refund:
  assumes "setComponentState c BillingRecoveryOperationRefund now r = Some r'"
  shows "hasRows r' d = hasRows r d" "brStatus r' = brStatus r" "brRequestID r' = brRequestID r"
    "brExtraAmount r' = brExtraAmount r" "brTokenAmount r' = brTokenAmount r"
    "componentState c r' = BillingRecoveryStateCompleted" "c' \<noteq> c \<Longrightarrow> componentState c' r' = componentState c' r"
  using assms by (auto simp: setComponentState_def hasRows_def componentState_def
      split: BillingRecoveryComponent.splits)

lemma setComponentState_defined: "refundable c r \<Longrightarrow> \<exists>r'. setComponentState c BillingRecoveryOperationRefund now r = Some r'"
  by (auto simp: refundable_def setComponentState_def)

definition refundedRow :: "string \<Rightarrow> BillingRecoveryComponent \<Rightarrow> BillingRecovery \<Rightarrow> db \<Rightarrow> bool" where
  "refundedRow rid c r d \<longleftrightarrow> (\<exists>now r'. setComponentState c BillingRecoveryOperationRefund now r = Some r' \<and>
     recoveries d rid = Some r' \<and> hasRows r' d)"

lemma applyAdjustment_total:
  assumes "healthy w" "hasRows r (db w)" "brSource r \<in> {''wallet'', ''subscription''}" "brRequestID r = rid"
    and "recoveries (db w) rid = Some r" "adjustments (db w) (rid, c, BillingRecoveryOperationRefund) = None"
    and "refundable c r"
  shows "wpT (applyAdjustmentTx rid r c BillingRecoveryOperationRefund) (\<lambda>_ w1. refundedRow rid c r (db w1)) w"
proof -
  let ?R = BillingRecoveryOperationRefund and ?a = "adjustmentAmount r c BillingRecoveryOperationRefund"
  have eff: "wpT (applyBillingRecoveryEffect r c ?R ?a) (\<lambda>_ w1. keepsRows (db w) (db w1)) w"
    using assms by (intro effect_total) (auto simp: refundable_def adjustmentAmount_def)
  have kept: "wp (applyBillingRecoveryEffect r c ?R ?a) (\<lambda>_. dbOnly w) (\<lambda>_. dbOnly w) w"
    using dbonly_effect unfolding framed_wp by blast
  have rest: "wpT (seqM (createAdjustment (rid, c, ?R) ?a) (updateBillingRecoveryComponentState rid c ?R))
      (\<lambda>_ w2. refundedRow rid c r (db w2)) w1" if k: "keepsRows (db w) (db w1)" "dbOnly w w1" for w1
  proof -
    have "healthy w1" using k(2) assms(1) healthy_settings [of w w1] by (simp add: dbOnly_def)
    moreover obtain r' where "setComponentState c ?R (clock w1) r = Some r'"
      using setComponentState_defined [OF assms(7)] by blast
    moreover have "recoveries (db w1) rid = Some r" "adjustments (db w1) (rid, c, ?R) = None"
      using k(1) assms(5,6) by (simp_all add: keepsRows_def sameRows_def)
    moreover have "hasRows r' (d\<lparr>adjustments := x, recoveries := y\<rparr>) = hasRows r' d" for d x y
      by (simp add: hasRows_def subsOk_def findSub_def)
    ultimately show ?thesis
      using keepsRows_hasRows [OF k(1) assms(2)] setComponentState_refund(1) [of c "clock w1" r r' "db w1"]
      by (auto simp: createAdjustment_def updateBillingRecoveryComponentState_def updRecovery_def wp_simps
          refundedRow_def hasRows_def subsOk_def findSub_def)
  qed
  show ?thesis unfolding applyAdjustmentTx_def Let_def
    by (rule wpT_seq [OF wpT_conj [OF eff kept]]) (use rest in blast)
qed


lemma invalidate_total:
  "healthy w \<Longrightarrow> wpT (invalidateUserQuotaCacheForMutation i) (\<lambda>_ _. True) w"
  "healthy w \<Longrightarrow> wpT (invalidateTokenCacheForMutation k) (\<lambda>_ _. True) w"
  by (simp_all add: invalidateUserQuotaCacheForMutation_def invalidateTokenCacheForMutation_def wp_simps Let_def)

lemma begin_total:
  assumes "healthy w" "TrimSpace rid \<noteq> []" "recoveries (db w) rid = Some r" "hasRows r (db w)"
  shows "wpT (beginBillingRecoveryQuotaMutation rid a b) (\<lambda>m w1. tookPending m w w1 \<and>
     (mUserPendingDelta m \<noteq> 0 \<longrightarrow> users (db w) (mUserID m) \<noteq> None) \<and>
     (mTokenPendingDelta m \<noteq> 0 \<longrightarrow> tokens (db w) (mTokenID m) \<noteq> None)) w"
proof -
  let ?u = "if a \<and> brSource r = ''wallet'' then brUserID r else 0"
  let ?t = "if b \<and> brTokenRequired r \<and> brTokenID r > 0 then brTokenID r else 0"
  have tok: "\<exists>t. tokens (db w) ?t = Some t" if "?t > 0" using that assms(4) by (auto simp: hasRows_def split: if_splits)
  have "wpT (beginBillingRecoveryQuotaMutation rid a b) (\<lambda>m _.
     (mUserPendingDelta m \<noteq> 0 \<longrightarrow> mUserID m = ?u \<and> ?u > 0) \<and> (mTokenPendingDelta m \<noteq> 0 \<longrightarrow> mTokenID m = ?t \<and> ?t > 0)) w"
    using assms(1-3) tok
    by (auto simp: beginBillingRecoveryQuotaMutation_def firstRecovery_def wp_simps Let_def
        invalidateUserQuotaCacheForMutation_def invalidateTokenCacheForMutation_def split: option.split)
  from wpT_conj [OF this begin_took] show ?thesis
    by (rule wp_mono) (use assms(4) in \<open>auto simp: hasRows_def split: if_splits\<close>)
qed

lemma applyPending_total:
  assumes "healthy w" "mUserPendingDelta m \<noteq> 0 \<longrightarrow> users (db w) (mUserID m) \<noteq> None"
    "mTokenPendingDelta m \<noteq> 0 \<longrightarrow> tokens (db w) (mTokenID m) \<noteq> None"
  shows "wpT (applyPendingDeltas m) (\<lambda>_ w1. healthy w1 \<and> keepsRows (db w) (db w1)) w"
proof -
  have user: "wpT (whenM (mUserPendingDelta m \<noteq> 0)
       (bindM (updUser (mUserID m) (\<lambda>_. True) (\<lambda>r. r\<lparr>uQuota := uQuota r + mUserPendingDelta m\<rparr>)) (\<lambda>n.
          if n \<noteq> 1 then throwM ErrRecordNotFound else retM ())))
      (\<lambda>_ w1. healthy w1 \<and> keepsRows (db w) (db w1) \<and> tokens (db w1) = tokens (db w)) w"
    using assms(1,2)
    by (cases "mUserPendingDelta m = 0") (auto simp: updUser_def wp_simps quota_affected keepsRows_updates)
  have token: "wpT (whenM (mTokenPendingDelta m \<noteq> 0) (bindM nowM (\<lambda>now.
        bindM (updToken (mTokenID m) (\<lambda>_. True) (addTokenQuota now (mTokenPendingDelta m))) (\<lambda>n.
          if n \<noteq> 1 then throwM ErrRecordNotFound else retM ()))))
      (\<lambda>_ w2. healthy w2 \<and> keepsRows (db w1) (db w2)) w1"
    if "healthy w1" "tokens (db w1) = tokens (db w)" for w1
    using that assms(3) keepsRows_updates(2) [of "db w1" "mTokenID m"]
    by (cases "mTokenPendingDelta m = 0") (auto simp: updToken_def wp_simps quota_affected)
  show ?thesis unfolding applyPendingDeltas_def
  proof (rule wpT_seq [OF user], elim conjE)
    fix w1 :: world
    assume "healthy w1" "keepsRows (db w) (db w1)" "tokens (db w1) = tokens (db w)"
    then show "wpT (whenM (mTokenPendingDelta m \<noteq> 0) (bindM nowM (\<lambda>now.
        bindM (updToken (mTokenID m) (\<lambda>_. True) (addTokenQuota now (mTokenPendingDelta m))) (\<lambda>n.
          if n \<noteq> 1 then throwM ErrRecordNotFound else retM ())))) (\<lambda>_ w1. healthy w1 \<and> keepsRows (db w) (db w1)) w1"
      by (intro wp_mono [OF token]) (auto intro: keepsRows_trans)
  qed
qed

lemma withMutation_total:
  assumes "healthy w" "TrimSpace rid \<noteq> []" "recoveries (db w) rid = Some r" "hasRows r (db w)"
    and body: "\<And>w1. healthy w1 \<Longrightarrow> keepsRows (db w) (db w1) \<Longrightarrow> wpT body (\<lambda>_ w2. G (db w2)) w1"
    and frame: "framed dbOnly body"
  shows "wpT (withMutation (beginBillingRecoveryQuotaMutation rid a b) body) (\<lambda>_ w2. G (db w2)) w"
  unfolding withMutation_def wp_bindM wp_tryM
proof (rule wp_mono [OF begin_total [OF assms(1-4)]], elim conjE)
  fix m w1
  assume took: "tookPending m w w1" and pend: "mUserPendingDelta m \<noteq> 0 \<longrightarrow> users (db w) (mUserID m) \<noteq> None"
      "mTokenPendingDelta m \<noteq> 0 \<longrightarrow> tokens (db w) (mTokenID m) \<noteq> None"
  then have h1: "healthy w1" and db1: "db w1 = db w"
    using assms(1) healthy_settings [of w w1] by (auto simp: tookPending_def)
  have "wpT (seqM (applyPendingDeltas m) body) (\<lambda>_ w2. G (db w2)) (tick w1)"
    by (rule wpT_seq [OF applyPending_total]) (use h1 db1 pend body in auto)
  moreover have "wp (seqM (applyPendingDeltas m) body) (\<lambda>_. dbOnly (tick w1)) (\<lambda>_. dbOnly (tick w1)) (tick w1)"
    using dbonly.framed_seqM [OF dbonly_bodies(1) frame] unfolding framed_wp by blast
  ultimately have "wpT (seqM (applyPendingDeltas m) body) (\<lambda>_ w2. G (db w2) \<and> dbOnly (tick w1) w2) (tick w1)"
    by (rule wpT_conj)
  then have "wpT (seqM (applyPendingDeltas m) body) (\<lambda>x w2. healthy w2 \<and> G (db w2)) (tick w1)"
    by (rule wp_mono) (use h1 healthy_settings in \<open>auto simp: dbOnly_def\<close>)
  then show "wp (transaction (seqM (applyPendingDeltas m) body))
      (\<lambda>x. wpT (case Inr x of Inl e \<Rightarrow> seqM (release m False) (throwM e) | Inr x \<Rightarrow> seqM (release m True) (retM x))
         (\<lambda>_ w'. G (db w')))
      (\<lambda>e. wpT (case Inl e of Inl e \<Rightarrow> seqM (release m False) (throwM e) | Inr x \<Rightarrow> seqM (release m True) (retM x))
         (\<lambda>_ w'. G (db w'))) w1"
    unfolding wp_transaction using h1
    by (auto simp: release_def wp_simps elim!: wp_mono)
qed simp


section \<open>The worker closes what it visits\<close>

definition stage :: "string \<Rightarrow> world \<Rightarrow> BillingRecovery \<Rightarrow> bool" where
  "stage rid w r \<longleftrightarrow> healthy w \<and> recoveryOk w \<and> TrimSpace rid \<noteq> [] \<and> recoveries (db w) rid = Some r \<and>
     brStatus r = BillingRecoveryStatusRefundPending \<and> hasRows r (db w)"

lemma stage_row:
  assumes "stage rid w r"
  shows "brRequestID r = rid" "brSource r \<in> {''wallet'', ''subscription''}" "rowOk (dbL (db w)) rid (core r)"
proof -
  have row: "recoveries (db w) rid = Some r" and wf: "awf (dbL (db w))"
    using assms by (simp_all add: stage_def recoveryOk_def awf_absL)
  from awf_sourceOk [OF wf, of rid] row show "brRequestID r = rid" "brSource r \<in> {''wallet'', ''subscription''}"
    by (simp_all add: sourceOk_def)
  from wf row show "rowOk (dbL (db w)) rid (core r)" by (simp add: awf_def)
qed

lemma rowOk_refund_marks:
  assumes "rowOk s rid r"
  shows "brFundingRefund r = BillingRecoveryStateCompleted \<longleftrightarrow>
      marked s rid BillingRecoveryComponentFunding BillingRecoveryOperationRefund"
    "brExtraRefund r = BillingRecoveryStateCompleted \<longleftrightarrow>
      marked s rid BillingRecoveryComponentExtra BillingRecoveryOperationRefund"
    "brTokenRefund r = BillingRecoveryStateCompleted \<longleftrightarrow>
      marked s rid BillingRecoveryComponentToken BillingRecoveryOperationRefund"
  using assms unfolding rowOk_def by blast+

lemma stage_unmarked:
  assumes "stage rid w r" "refundable c r" "componentState c r \<noteq> BillingRecoveryStateCompleted"
  shows "adjustments (db w) (rid, c, BillingRecoveryOperationRefund) = None"
proof -
  have "\<not> marked (dbL (db w)) rid c BillingRecoveryOperationRefund"
    using rowOk_refund_marks [OF stage_row(3) [OF assms(1)]] assms(2,3)
    by (auto simp: refundable_def componentState_def)
  then show ?thesis by (simp add: marked_def)
qed

lemma adjustment_total:
  assumes "stage rid w r" "refundable c r" "componentState c r \<noteq> BillingRecoveryStateCompleted"
    and k: "healthy w1" "keepsRows (db w) (db w1)"
  shows "wpT (adjustmentTx rid c BillingRecoveryOperationRefund) (\<lambda>_ w2. refundedRow rid c r (db w2)) w1"
proof -
  have "recoveries (db w1) rid = Some r" "adjustments (db w1) (rid, c, BillingRecoveryOperationRefund) = None"
    "brStatus r = BillingRecoveryStatusRefundPending"
    using stage_unmarked [OF assms(1-3)] assms(1) k(2) by (simp_all add: stage_def keepsRows_def sameRows_def)
  moreover from this have "wpT (applyAdjustmentTx rid r c BillingRecoveryOperationRefund)
      (\<lambda>_ w2. refundedRow rid c r (db w2)) (tick (tick w1))"
    using stage_row [OF assms(1)] assms(1,2) k keepsRows_hasRows [OF k(2)]
    by (intro applyAdjustment_total) (simp_all add: stage_def)
  ultimately show ?thesis
    unfolding adjustmentTx_def firstRecovery_def using k(1)
    by (simp add: wp_bindM wp_tryM wp_firstM wp_if)
qed

lemma refund_stage:
  assumes "stage rid w r" "refundable c r" "componentState c r \<noteq> BillingRecoveryStateCompleted"
  shows "wpT (ApplyBillingRecoveryAdjustment rid c BillingRecoveryOperationRefund)
     (\<lambda>_ w1. \<exists>now r'. setComponentState c BillingRecoveryOperationRefund now r = Some r' \<and> stage rid w1 r') w"
proof -
  let ?m = "ApplyBillingRecoveryAdjustment rid c BillingRecoveryOperationRefund"
  have s: "healthy w" "TrimSpace rid \<noteq> []" "recoveries (db w) rid = Some r" "hasRows r (db w)" "recoveryOk w"
    "noLost w" "mayRefund rid (db w)"
    using assms(1) by (auto simp: stage_def healthy_def noFault_def noLost_def mayRefund_def)
  have "wpT (withMutation (beginBillingRecoveryQuotaMutation rid a b) (adjustmentTx rid c BillingRecoveryOperationRefund))
      (\<lambda>_ w2. refundedRow rid c r (db w2)) w" for a b
    using adjustment_total [OF assms] by (intro withMutation_total [OF s(1-4)] dbonly_bodies)
  then have A: "wpT ?m (\<lambda>_ w2. refundedRow rid c r (db w2)) w"
    using assms(2) s(2) by (auto simp: ApplyBillingRecoveryAdjustment_def refundable_def wp_if)
  have B: "wp ?m (\<lambda>_. safeRun w) (\<lambda>_. safeRun w) w"
    using safeRun_call [of w w "Adjust rid c BillingRecoveryOperationRefund"] s by (simp add: safeRun_def)
  have C: "wp ?m (\<lambda>_. keepsIds w) (\<lambda>_. keepsIds w) w"
    using keeping_call [of "Adjust rid c BillingRecoveryOperationRefund"] unfolding framed_wp by simp
  show ?thesis
  proof (rule wp_mono [OF wpT_conj [OF A wp_conj [OF B C]]], elim conjE)
    fix w1 :: world
    assume *: "refundedRow rid c r (db w1)" "safeRun w w1" "keepsIds w w1"
    then have "healthy w1" using s(1) healthy_settings [of w w1] by (simp add: keepsIds_def)
    with * assms(1) show "\<exists>now r'. setComponentState c BillingRecoveryOperationRefund now r = Some r' \<and> stage rid w1 r'"
      unfolding refundedRow_def using setComponentState_refund(2) [of c _ r]
      by (fastforce simp: stage_def safeRun_def)
  qed simp
qed

text \<open>One optional refund between two loads.\<close>

lemma refund_stage_when:
  assumes "stage rid w r" "b \<Longrightarrow> refundable c r \<and> componentState c r \<noteq> BillingRecoveryStateCompleted"
    and "\<And>w1 r'. stage rid w1 r' \<Longrightarrow> (b \<Longrightarrow> componentState c r' = BillingRecoveryStateCompleted) \<Longrightarrow>
      (\<And>c'. c' \<noteq> c \<or> \<not> b \<Longrightarrow> componentState c' r' = componentState c' r) \<Longrightarrow>
      brExtraAmount r' = brExtraAmount r \<Longrightarrow> brTokenAmount r' = brTokenAmount r \<Longrightarrow> wpT (f r') Q (tick w1)"
  shows "wpT (seqM (whenM b (ApplyBillingRecoveryAdjustment rid c BillingRecoveryOperationRefund))
     (bindM (loadBillingRecovery rid) f)) Q w"
proof -
  have load: "wpT (bindM (loadBillingRecovery rid) f) Q w1"
    if "stage rid w1 r'" "wpT (f r') Q (tick w1)" for w1 r'
    using that by (simp add: loadBillingRecovery_def firstRecovery_def wp_bindM wp_firstM stage_def)
  show ?thesis
  proof (cases b)
    case False
    with load [OF assms(1)] assms(1,3) show ?thesis by (simp add: wp_seqM wp_whenM)
  next
    case True
    show ?thesis unfolding whenM_def if_P [OF True]
    proof (rule wpT_seq [OF refund_stage [OF assms(1)]], goal_cases)
      case (3 w1)
      then obtain now r' where "setComponentState c BillingRecoveryOperationRefund now r = Some r'" "stage rid w1 r'"
        by blast
      with load [of w1 r'] assms(3) [of w1 r'] setComponentState_refund [of c now r r'] True show ?case by simp
    qed (use assms(2) True in simp_all)
  qed
qed


lemma hasRows_recoveries [simp]: "hasRows r (d\<lparr>recoveries := x\<rparr>) = hasRows r d"
  by (simp add: hasRows_def subsOk_def findSub_def)

lemma prepared_no_extra:
  assumes "recoveryOk w" "recoveries (db w) rid = Some r" "brPreConsumeState r = BillingRecoveryPreConsumePrepared"
  shows "brExtraAmount r = 0"
proof -
  have "awf (dbL (db w))" using assms(1) by (simp add: recoveryOk_def awf_absL)
  then have "rowOk (dbL (db w)) rid (core r)" using assms(2) by (simp add: awf_def)
  then have "brPreConsumeState (core r) \<noteq> BillingRecoveryPreConsumeCommitted \<longrightarrow> brExtraAmount (core r) = 0"
    unfolding rowOk_def by blast
  with assms(3) show ?thesis by simp
qed

lemma mark_total:
  assumes "healthy w" "recoveryOk w" "TrimSpace rid \<noteq> []" "recoveries (db w) rid = Some r" "hasRows r (db w)"
    and "brStatus r \<in> {BillingRecoveryStatusActive, BillingRecoveryStatusRefundPending}"
  shows "wpT (MarkBillingRecoveryRefundPending rid None) (\<lambda>_ w1. \<exists>r1. stage rid w1 r1) w"
proof -
  let ?m = "MarkBillingRecoveryRefundPending rid None"
  have A: "wpT ?m (\<lambda>_ w1. healthy w1 \<and> (\<exists>r1. recoveries (db w1) rid = Some r1 \<and>
      brStatus r1 = BillingRecoveryStatusRefundPending \<and> hasRows r1 (db w1))) w"
    using assms(1,3-6) prepared_no_extra [OF assms(2,4)]
    by (auto simp: MarkBillingRecoveryRefundPending_def firstRecovery_def updRecovery_def wp_simps Let_def
        hasRows_def subsOk_def findSub_def split: option.split)
  have "noLost w" using assms(1) by (simp add: healthy_def noFault_def noLost_def)
  then have B: "wp ?m (\<lambda>_. safeRun w) (\<lambda>_. safeRun w) w"
    using safeRun_call [of w w "RefundPending rid None"] assms(2) by (simp add: safeRun_def)
  show ?thesis
    by (rule wp_mono [OF wpT_conj [OF A B]]) (use assms(3) in \<open>auto simp: stage_def safeRun_def\<close>)
qed

lemma finish_total:
  assumes "stage rid w r" "BillingRecoveryRefundComplete r"
  shows "wpT (seqM (MarkBillingRecoveryRefunded rid None) (retM BillingRecoveryStatusRefunded))
     (\<lambda>st w1. st = BillingRecoveryStatusRefunded \<and>
        (\<exists>r1. recoveries (db w1) rid = Some r1 \<and> brStatus r1 = BillingRecoveryStatusRefunded)) w"
  using assms
  by (simp add: MarkBillingRecoveryRefunded_def firstRecovery_def updRecovery_def wp_simps stage_def)

lemma stage_tick: "stage rid w r \<Longrightarrow> stage rid (tick w) r"
  by (simp add: stage_def recoveryOk_def)

lemma recoverBillingRefund_total:
  assumes "healthy w" "recoveryOk w" "TrimSpace rid \<noteq> []" "recoveries (db w) rid = Some r" "hasRows r (db w)"
    and "brStatus r \<in> {BillingRecoveryStatusActive, BillingRecoveryStatusRefundPending}" "brRequestID r = rid"
  shows "wpT (recoverBillingRefund r) (\<lambda>st w1. st = BillingRecoveryStatusRefunded \<and>
     (\<exists>r1. recoveries (db w1) rid = Some r1 \<and> brStatus r1 = BillingRecoveryStatusRefunded)) w" (is "wpT _ ?Q _")
  unfolding recoverBillingRefund_def assms(7)
proof (rule wpT_seq [OF mark_total [OF assms(1-6)]], elim exE)
  fix w1 r1
  assume st1: "stage rid w1 r1"
  let ?final = "\<lambda>r4. if \<not> BillingRecoveryRefundComplete r4
      then throwM (ErrText ''billing recovery refund remains incomplete'')
      else seqM (MarkBillingRecoveryRefunded (brRequestID r4) None) (retM BillingRecoveryStatusRefunded)"
  let ?token = "\<lambda>r3. seqM (whenM (brTokenAmount r3 > 0 \<and> brTokenRefund r3 \<noteq> BillingRecoveryStateCompleted)
             (ApplyBillingRecoveryAdjustment (brRequestID r3)
                BillingRecoveryComponentToken BillingRecoveryOperationRefund))
     (bindM (loadBillingRecovery (brRequestID r3)) ?final)"
  let ?extra = "\<lambda>r2. seqM (whenM (brExtraAmount r2 > 0 \<and> brExtraRefund r2 \<noteq> BillingRecoveryStateCompleted)
             (ApplyBillingRecoveryAdjustment (brRequestID r2)
                BillingRecoveryComponentExtra BillingRecoveryOperationRefund))
     (bindM (loadBillingRecovery (brRequestID r2)) ?token)"
  let ?funding = "\<lambda>r1. seqM (whenM (brFundingRefund r1 \<noteq> BillingRecoveryStateCompleted)
             (ApplyBillingRecoveryAdjustment (brRequestID r1)
                BillingRecoveryComponentFunding BillingRecoveryOperationRefund))
     (bindM (loadBillingRecovery (brRequestID r1)) ?extra)"
  let ?f = "\<lambda>r. brFundingRefund r = BillingRecoveryStateCompleted"
  let ?e = "\<lambda>r. brExtraAmount r > 0 \<longrightarrow> brExtraRefund r = BillingRecoveryStateCompleted"
  let ?t = "\<lambda>r. brTokenAmount r > 0 \<longrightarrow> brTokenRefund r = BillingRecoveryStateCompleted"
  have final: "wpT (?final r4) ?Q w4" if "stage rid w4 r4" "?f r4" "?e r4" "?t r4" for w4 r4
  proof -
    have "BillingRecoveryRefundComplete r4" using that by (simp add: BillingRecoveryRefundComplete_def)
    with finish_total [OF that(1)] stage_row(1) [OF that(1)] show ?thesis by simp
  qed
  have token: "wpT (?token r3) ?Q w3" if s: "stage rid w3 r3" "?f r3" "?e r3" for w3 r3
    unfolding stage_row(1) [OF s(1)]
  proof (rule refund_stage_when [OF s(1)], goal_cases)
    case 1
    then show ?case by (simp add: refundable_def componentState_def)
  next
    case (2 w4 r4)
    note new = s(2,3) 2(2,4,5) 2(3) [of BillingRecoveryComponentFunding] 2(3) [of BillingRecoveryComponentExtra]
      2(3) [of BillingRecoveryComponentToken]
    have "?f r4" "?e r4" using new by (simp_all add: componentState_def)
    moreover have "?t r4"
      using new by (cases "brTokenRefund r3 = BillingRecoveryStateCompleted") (auto simp: componentState_def)
    ultimately show ?case by (intro final stage_tick [OF 2(1)])
  qed
  have extra: "wpT (?extra r2) ?Q w2" if s: "stage rid w2 r2" "?f r2" for w2 r2
    unfolding stage_row(1) [OF s(1)]
  proof (rule refund_stage_when [OF s(1)], goal_cases)
    case 1
    then show ?case by (simp add: refundable_def componentState_def)
  next
    case (2 w3 r3)
    note new = s(2) 2(2,4,5) 2(3) [of BillingRecoveryComponentFunding] 2(3) [of BillingRecoveryComponentExtra]
    have "?f r3" using new by (simp add: componentState_def)
    moreover have "?e r3"
      using new by (cases "brExtraRefund r2 = BillingRecoveryStateCompleted") (auto simp: componentState_def)
    ultimately show ?case by (intro token stage_tick [OF 2(1)])
  qed
  have funding: "wpT (?funding r1) ?Q (tick w1)"
    unfolding stage_row(1) [OF st1]
  proof (rule refund_stage_when [OF stage_tick [OF st1]], goal_cases)
    case 1
    then show ?case by (simp add: refundable_def componentState_def)
  next
    case (2 w3 r3)
    have "?f r3"
      using 2(2) 2(3) [of BillingRecoveryComponentFunding]
      by (cases "brFundingRefund r1 = BillingRecoveryStateCompleted") (auto simp: componentState_def)
    then show ?case by (intro extra stage_tick [OF 2(1)])
  qed
  show "wpT (bindM (loadBillingRecovery rid) ?funding) ?Q w1"
    using funding st1 by (simp add: loadBillingRecovery_def firstRecovery_def wp_bindM wp_firstM stage_def)
qed


text \<open>
  C5. Visiting an open request refunds it: when no statement fails and the user, token and
  subscription rows it refers to exist, \<open>recoverOneBillingRecovery\<close> returns \<open>refunded\<close> for every
  active or refund-pending row, whatever part of the refund an earlier pass had already applied,
  and the request then costs the wallet nothing.
\<close>

theorem worker_refunds_open_request:
  assumes "healthy w" "recoveryOk w" "TrimSpace rid \<noteq> []" "recoveries (db w) rid = Some r" "hasRows r (db w)"
    and "brStatus r \<in> {BillingRecoveryStatusActive, BillingRecoveryStatusRefundPending}"
  shows "\<exists>w' r'. recoverOneBillingRecovery rid w = (Inr BillingRecoveryStatusRefunded, w') \<and>
     recoveries (db w') rid = Some r' \<and> brStatus r' = BillingRecoveryStatusRefunded \<and>
     walletCharge (absL w') rid = 0"
proof -
  have id: "brRequestID r = rid"
    using awf_sourceOk [of "db w" rid] assms(2,4) by (simp add: recoveryOk_def awf_absL sourceOk_def)
  have A: "wpT (recoverOneBillingRecovery rid) (\<lambda>st w1. st = BillingRecoveryStatusRefunded \<and>
      (\<exists>r1. recoveries (db w1) rid = Some r1 \<and> brStatus r1 = BillingRecoveryStatusRefunded)) w"
    using recoverBillingRefund_total [of "tick w" rid r] assms id
    by (auto simp: recoverOneBillingRecovery_def firstRecovery_def wp_bindM wp_firstM wp_if recoveryOk_def)
  have "noLost w" using assms(1) by (simp add: healthy_def noFault_def noLost_def)
  then have B: "wp (recoverOneBillingRecovery rid) (\<lambda>_. safeRun w) (\<lambda>_. safeRun w) w"
    using assms(2) by (intro recoverOne_safe) (simp add: safeRun_def)
  obtain w' r' where run: "recoverOneBillingRecovery rid w = (Inr BillingRecoveryStatusRefunded, w')"
    "recoveries (db w') rid = Some r'" "brStatus r' = BillingRecoveryStatusRefunded" "safeRun w w'"
    using wpT_result [OF wpT_conj [OF A B]] by blast
  then have "lRec (absL w') rid = Some (core r')" by (simp add: absL_row)
  with refunded_charge [of "absL w'" rid "core r'"] run(3,4) have "walletCharge (absL w') rid = 0"
    by (simp add: safeRun_def recoveryOk_def)
  with run show ?thesis by blast
qed

lemma staleWorld_healthy: "healthy staleWorld"
proof -
  have "noFault sampleWorld \<and> (\<forall>n. redisFate sampleWorld n = FOk)" by (simp add: sampleWorld_def noFault_def)
  moreover have "sameSettings w (calls cs w)" for cs w
  proof (induction cs arbitrary: w)
    case (Cons c cs)
    have "sameSettings w (snd (call c w))" using call_keeps [of w c] by (simp add: keepsIds_def)
    with Cons.IH [of "snd (call c w)"] show ?case by (auto intro: sameSettings_trans)
  qed simp
  ultimately show ?thesis
    using healthy_settings [of sampleWorld "calls [Ensure sampleInput, PreConsume ''r1'' 30 False] sampleWorld"]
    by (simp add: staleWorld_def healthy_def noFault_def del: calls.simps)
qed

theorem worker_refunds_open_request_witness:
  "\<exists>w'. recoverOneBillingRecovery ''r1'' staleWorld = (Inr BillingRecoveryStatusRefunded, w') \<and>
     walletCharge (absL staleWorld) ''r1'' = 30 \<and> walletCharge (absL w') ''r1'' = 0"
proof -
  have "map_option (\<lambda>r. (brStatus r, brUserID r, brTokenID r, brExtraAmount r)) (recoveries (db staleWorld) ''r1'') =
      Some (BillingRecoveryStatusActive, 7, 9, 0)" by code_simp
  then obtain r where r: "recoveries (db staleWorld) ''r1'' = Some r" "brStatus r = BillingRecoveryStatusActive"
    "brUserID r = 7" "brTokenID r = 9" "brExtraAmount r = 0" by auto
  have "users (db staleWorld) 7 \<noteq> None" "tokens (db staleWorld) 9 \<noteq> None" "subs (db staleWorld) = []"
    "TrimSpace ''r1'' \<noteq> []" "walletCharge (absL staleWorld) ''r1'' = 30"
    by code_simp+
  with r worker_refunds_open_request [OF staleWorld_healthy staleWorld_ok(1), of "''r1''" r] show ?thesis
    by (auto simp: hasRows_def subsOk_def)
qed

end
