(* ===== verification/Route_Score.thy ===== *)
theory Route_Score
  imports Go_Float64 "HOL-Library.Product_Lexorder"
begin

text \<open>
  \<open>service/route_score.go\<close> and \<open>service/route_score_metrics.go\<close>: the score of a route candidate
  and the orderings built on it.  Scores are \<open>float64\<close> values.  Each comparator handed to a sort
  is written as in the code and shown to compare a key in a linear order, so the locale
  \<open>keyed_order\<close> gives the order of the sorted list.  The dynamic score has such a key as long as
  no measured metric is NaN, which the score's bounds lemma then excludes for every total.
\<close>

section \<open>Scores\<close>

record RouteScoreCandidate =
  scChannelID :: int
  scPriority :: int
  scPosition :: int
  scWeight :: int
  scErrorRate :: f64
  scErrorRateKnown :: bool
  scLatencyMS :: f64
  scLatencyKnown :: bool
  scTTFTMS :: f64
  scTTFTKnown :: bool
  scRateLimitHeadroom :: f64
  scRateLimitKnown :: bool
  scQuotaHeadroom :: f64
  scQuotaKnown :: bool
  scSticky :: bool
  scHealthUsable :: bool

record RouteScoreBreakdown =
  bdPriorityLayer :: int
  bdWeightScore :: f64
  bdErrorScore :: f64
  bdErrorKnown :: bool
  bdLatencyScore :: f64
  bdLatencyKnown :: bool
  bdTTFTScore :: f64
  bdTTFTKnown :: bool
  bdRateLimitScore :: f64
  bdRateLimitKnown :: bool
  bdQuotaScore :: f64
  bdQuotaKnown :: bool
  bdCircuitBreakerScore :: f64
  bdStickyScore :: f64
  bdTotal :: f64

record ScoredRouteCandidate =
  srCandidate :: RouteScoreCandidate
  srBreakdown :: RouteScoreBreakdown

definition unknownRouteMetricScore :: f64 where
  "unknownRouteMetricScore = FFin (1 / 2)"

definition clamp01 :: "f64 \<Rightarrow> f64" where
  "clamp01 v = (if flt v (FFin 0) then FFin 0 else if flt (FFin 1) v then FFin 1 else v)"

definition inverseLatencyScore :: "f64 \<Rightarrow> f64" where
  "inverseLatencyScore latency =
     (if fle latency (FFin 0) then FFin 1
      else clamp01 (fdiv (FFin 1000) (fadd (FFin 1000) latency)))"

definition maxInt :: "int \<Rightarrow> int \<Rightarrow> int" where
  "maxInt left right = (if left > right then left else right)"

definition scoreRouteCandidate :: "RouteScoreCandidate \<Rightarrow> int \<Rightarrow> RouteScoreBreakdown" where
  "scoreRouteCandidate c maxWeight =
     (let weightScore = fdiv (f64_of_int (maxInt (scWeight c) 0)) (f64_of_int maxWeight);
          errorScore = (if scErrorRateKnown c then clamp01 (fsub (FFin 1) (scErrorRate c))
                        else unknownRouteMetricScore);
          latencyScore = (if scLatencyKnown c then inverseLatencyScore (scLatencyMS c)
                          else unknownRouteMetricScore);
          ttftScore = (if scTTFTKnown c then inverseLatencyScore (scTTFTMS c)
                       else unknownRouteMetricScore);
          rateLimitScore = (if scRateLimitKnown c then clamp01 (scRateLimitHeadroom c)
                            else unknownRouteMetricScore);
          quotaScore = (if scQuotaKnown c then clamp01 (scQuotaHeadroom c)
                        else unknownRouteMetricScore);
          stickyScore = (if scSticky c then FFin 1 else FFin 0)
      in \<lparr>bdPriorityLayer = scPriority c, bdWeightScore = weightScore,
          bdErrorScore = errorScore, bdErrorKnown = scErrorRateKnown c,
          bdLatencyScore = latencyScore, bdLatencyKnown = scLatencyKnown c,
          bdTTFTScore = ttftScore, bdTTFTKnown = scTTFTKnown c,
          bdRateLimitScore = rateLimitScore, bdRateLimitKnown = scRateLimitKnown c,
          bdQuotaScore = quotaScore, bdQuotaKnown = scQuotaKnown c,
          bdCircuitBreakerScore = FFin 1, bdStickyScore = stickyScore,
          bdTotal = fadd (fadd (fadd (fadd (fadd (fadd (fadd weightScore errorScore) latencyScore)
            ttftScore) rateLimitScore) quotaScore) (FFin 1)) stickyScore\<rparr>)"

section \<open>Orderings\<close>

text \<open>The loop that groups the usable candidates by priority, in order of first appearance.\<close>

fun collectLayers ::
  "RouteScoreCandidate list \<Rightarrow> (int \<rightharpoonup> RouteScoreCandidate list) \<times> int list
   \<Rightarrow> (int \<rightharpoonup> RouteScoreCandidate list) \<times> int list" where
  "collectLayers [] acc = acc"
| "collectLayers (c # cs) (layers, priorities) =
     (if \<not> scHealthUsable c then collectLayers cs (layers, priorities)
      else let p = scPriority c in
        case layers p of
          None \<Rightarrow> collectLayers cs (layers(p \<mapsto> [c]), priorities @ [p])
        | Some layer \<Rightarrow> collectLayers cs (layers(p \<mapsto> layer @ [c]), priorities))"

definition scoredBefore :: "ScoredRouteCandidate \<Rightarrow> ScoredRouteCandidate \<Rightarrow> bool" where
  "scoredBefore left right =
     (let l = bdTotal (srBreakdown left); r = bdTotal (srBreakdown right) in
      if \<not> feq l r then flt r l
      else scChannelID (srCandidate left) < scChannelID (srCandidate right))"

definition layerMaxWeight :: "RouteScoreCandidate list \<Rightarrow> int" where
  "layerMaxWeight layer =
     (let m = fold (\<lambda>c m. if scWeight c > m then scWeight c else m) layer 0
      in if m \<le> 0 then 1 else m)"

definition scoreLayer :: "RouteScoreCandidate list \<Rightarrow> ScoredRouteCandidate list" where
  "scoreLayer layer = SliceStable scoredBefore
     (map (\<lambda>c. \<lparr>srCandidate = c, srBreakdown = scoreRouteCandidate c (layerMaxWeight layer)\<rparr>) layer)"

definition ScoreRouteCandidates :: "RouteScoreCandidate list \<Rightarrow> ScoredRouteCandidate list" where
  "ScoreRouteCandidates candidates =
     (if candidates = [] then []
      else case collectLayers candidates (Map.empty, []) of (layers, priorities) \<Rightarrow>
        if priorities = [] then []
        else fold (\<lambda>p result. result @ (case layers p of None \<Rightarrow> [] | Some layer \<Rightarrow> scoreLayer layer))
               (SliceStable (\<lambda>a b. a > b) priorities) [])"

definition TopKRouteCandidates :: "RouteScoreCandidate list \<Rightarrow> int \<Rightarrow> ScoredRouteCandidate list" where
  "TopKRouteCandidates candidates k =
     (let k = (if k \<le> 0 \<or> k > 3 then 3 else k); scored = ScoreRouteCandidates candidates
      in if int (length scored) > k then take (nat k) scored else scored)"

definition manualBefore :: "bool \<Rightarrow> RouteScoreCandidate \<Rightarrow> RouteScoreCandidate \<Rightarrow> bool" where
  "manualBefore loadBalance a b =
     (if scPosition a \<noteq> scPosition b then scPosition a < scPosition b
      else if loadBalance \<and> scWeight a \<noteq> scWeight b then scWeight a > scWeight b
      else scChannelID a < scChannelID b)"

definition OrderManualRouteCandidates ::
  "RouteScoreCandidate list \<Rightarrow> bool \<Rightarrow> RouteScoreCandidate list" where
  "OrderManualRouteCandidates candidates loadBalance =
     SliceStable (manualBefore loadBalance) candidates"

definition staticBefore :: "RouteScoreCandidate \<Rightarrow> RouteScoreCandidate \<Rightarrow> bool" where
  "staticBefore a b =
     (if scPriority a \<noteq> scPriority b then scPriority a > scPriority b
      else scChannelID a < scChannelID b)"

definition StaticPriorityLayer :: "RouteScoreCandidate list \<Rightarrow> RouteScoreCandidate list" where
  "StaticPriorityLayer candidates = SliceStable staticBefore (filter scHealthUsable candidates)"

section \<open>Runtime metrics\<close>

record RouteScoreRuntimeMetrics =
  rmRateLimitHeadroom :: f64
  rmRateLimitKnown :: bool
  rmQuotaHeadroom :: f64
  rmQuotaKnown :: bool

definition noRuntimeMetrics :: RouteScoreRuntimeMetrics where
  "noRuntimeMetrics = \<lparr>rmRateLimitHeadroom = FFin 0, rmRateLimitKnown = False,
     rmQuotaHeadroom = FFin 0, rmQuotaKnown = False\<rparr>"

definition validRouteScoreHeadroom :: "f64 \<Rightarrow> bool" where
  "validRouteScoreHeadroom v =
     (v \<noteq> FNaN \<and> v \<noteq> FPInf \<and> v \<noteq> FNInf \<and> fle (FFin 0) v \<and> fle v (FFin 1))"

text \<open>The installed provider is an argument; \<open>None\<close> is the default, no provider.\<close>

definition LoadRouteScoreRuntimeMetrics ::
  "(int \<Rightarrow> string \<Rightarrow> 'e + RouteScoreRuntimeMetrics) option \<Rightarrow> int \<Rightarrow> string
   \<Rightarrow> RouteScoreRuntimeMetrics option" where
  "LoadRouteScoreRuntimeMetrics provider channelID requestModel =
     (case provider of None \<Rightarrow> Some noRuntimeMetrics
      | Some resolve \<Rightarrow>
          (case resolve channelID requestModel of Inl e \<Rightarrow> None
           | Inr metrics \<Rightarrow>
               if rmRateLimitKnown metrics \<and> \<not> validRouteScoreHeadroom (rmRateLimitHeadroom metrics) \<or>
                  rmQuotaKnown metrics \<and> \<not> validRouteScoreHeadroom (rmQuotaHeadroom metrics)
               then None else Some metrics))"

section \<open>Scores are numbers\<close>

text \<open>No measured metric is NaN and the weight is exact in \<open>float64\<close>.\<close>

definition measured :: "RouteScoreCandidate \<Rightarrow> bool" where
  "measured c =
     ((scErrorRateKnown c \<longrightarrow> scErrorRate c \<noteq> FNaN) \<and> (scLatencyKnown c \<longrightarrow> scLatencyMS c \<noteq> FNaN) \<and>
      (scTTFTKnown c \<longrightarrow> scTTFTMS c \<noteq> FNaN) \<and>
      (scRateLimitKnown c \<longrightarrow> scRateLimitHeadroom c \<noteq> FNaN) \<and>
      (scQuotaKnown c \<longrightarrow> scQuotaHeadroom c \<noteq> FNaN) \<and> scWeight c \<le> 2 ^ 53)"

lemma clamp01_nonneg: "v \<noteq> FNaN \<Longrightarrow> fnonneg (clamp01 v)"
  by (cases v) (auto simp: clamp01_def)

lemma inverseLatencyScore_nonneg:
  assumes "latency \<noteq> FNaN"
  shows "fnonneg (inverseLatencyScore latency)"
proof (cases "fle latency (FFin 0)")
  case False
  with assms have pos: "fnonneg latency"
    by (cases latency) (auto simp: fle_def feq_def)
  then have "fnonneg (fadd (FFin 1000) latency)" by (intro fadd_nonneg) simp_all
  moreover have "fadd (FFin 1000) latency \<noteq> FFin 0"
    using pos by (cases latency) (simp_all add: fround_neq_0)
  ultimately have "fdiv (FFin 1000) (fadd (FFin 1000) latency) \<noteq> FNaN"
    by (cases "fadd (FFin 1000) latency") auto
  with False show ?thesis by (simp add: inverseLatencyScore_def clamp01_nonneg)
qed (simp add: inverseLatencyScore_def)

lemma fsub_one_not_NaN: "v \<noteq> FNaN \<Longrightarrow> fsub (FFin 1) v \<noteq> FNaN"
  by (cases v) (simp_all add: fsub_def)

lemma weightScore_nonneg:
  assumes "0 \<le> w" "w \<le> m" "1 \<le> m" "m \<le> 2 ^ 53"
  shows "fnonneg (fdiv (f64_of_int w) (f64_of_int m))"
  using assms fround_of_int [of w] fround_of_int [of m]
  by (simp add: f64_of_int_def fround_nonneg)

lemma maxWeight_fold:
  "fold (\<lambda>c m. if scWeight c > m then scWeight c else m) layer m =
     fold max (map scWeight layer) m"
  by (induction layer arbitrary: m) (simp_all add: max_def)

lemma layerMaxWeight_bounds:
  assumes "\<forall>c \<in> set layer. scWeight c \<le> 2 ^ 53"
  shows "1 \<le> layerMaxWeight layer \<and> layerMaxWeight layer \<le> 2 ^ 53 \<and>
    (\<forall>c \<in> set layer. scWeight c \<le> layerMaxWeight layer)"
proof -
  have m: "fold max (map scWeight layer) 0 = Max (insert 0 (scWeight ` set layer))"
    using Max.set_eq_fold [of 0 "map scWeight layer"] by simp
  have "fold max (map scWeight layer) 0 \<le> 2 ^ 53" "0 \<le> fold max (map scWeight layer) 0"
    "\<forall>c \<in> set layer. scWeight c \<le> fold max (map scWeight layer) 0"
    unfolding m using assms by simp_all
  then show ?thesis by (auto simp: layerMaxWeight_def Let_def maxWeight_fold)
qed

lemma total_not_NaN:
  assumes "measured c" "scWeight c \<le> m" "1 \<le> m" "m \<le> 2 ^ 53"
  shows "bdTotal (scoreRouteCandidate c m) \<noteq> FNaN"
proof -
  have "fnonneg (fdiv (f64_of_int (maxInt (scWeight c) 0)) (f64_of_int m))"
    using assms by (intro weightScore_nonneg) (auto simp: maxInt_def)
  moreover have
    "scErrorRateKnown c \<Longrightarrow> fnonneg (clamp01 (fsub (FFin 1) (scErrorRate c)))"
    "scLatencyKnown c \<Longrightarrow> fnonneg (inverseLatencyScore (scLatencyMS c))"
    "scTTFTKnown c \<Longrightarrow> fnonneg (inverseLatencyScore (scTTFTMS c))"
    "scRateLimitKnown c \<Longrightarrow> fnonneg (clamp01 (scRateLimitHeadroom c))"
    "scQuotaKnown c \<Longrightarrow> fnonneg (clamp01 (scQuotaHeadroom c))"
    using assms(1)
    by (simp_all add: measured_def clamp01_nonneg inverseLatencyScore_nonneg fsub_one_not_NaN)
  ultimately have "fnonneg (bdTotal (scoreRouteCandidate c m))"
    unfolding scoreRouteCandidate_def Let_def unknownRouteMetricScore_def
    by (simp add: fadd_nonneg)
  then show ?thesis by (rule fnonneg_not_NaN)
qed

section \<open>The comparators compare keys\<close>

definition manualKey :: "bool \<Rightarrow> RouteScoreCandidate \<Rightarrow> int \<times> int \<times> int" where
  "manualKey loadBalance c =
     (scPosition c, if loadBalance then - scWeight c else 0, scChannelID c)"

definition staticKey :: "RouteScoreCandidate \<Rightarrow> int \<times> int" where
  "staticKey c = (- scPriority c, scChannelID c)"

text \<open>Totals descend: \<open>fneg\<close> turns the order around.\<close>

definition scoredKey :: "ScoredRouteCandidate \<Rightarrow> f64 \<times> int" where
  "scoredKey s = (fneg (bdTotal (srBreakdown s)), scChannelID (srCandidate s))"

lemma manualBefore_key: "manualBefore lb = (\<lambda>a b. manualKey lb a < manualKey lb b)"
  by (intro ext) (auto simp: manualBefore_def manualKey_def)

lemma staticBefore_key: "staticBefore = (\<lambda>a b. staticKey a < staticKey b)"
  by (intro ext) (auto simp: staticBefore_def staticKey_def)

lemma fneg_less_iff: "x \<noteq> FNaN \<Longrightarrow> y \<noteq> FNaN \<Longrightarrow> fneg x < fneg y \<longleftrightarrow> y < x"
  by (cases x; cases y) (simp_all add: less_f64_def)

lemma fneg_eq_iff [simp]: "fneg x = fneg y \<longleftrightarrow> x = y"
  by (cases x; cases y) simp_all

lemma scoredBefore_key:
  "bdTotal (srBreakdown a) \<noteq> FNaN \<Longrightarrow> bdTotal (srBreakdown b) \<noteq> FNaN \<Longrightarrow>
   scoredBefore a b = (scoredKey a < scoredKey b)"
  by (auto simp: scoredBefore_def scoredKey_def Let_def feq_iff_eq flt_iff_less fneg_less_iff
      order.order_iff_strict)

interpretation manual: keyed_order "manualKey lb" for lb .

interpretation static: keyed_order staticKey .

interpretation scored: keyed_order scoredKey .

interpretation descending: keyed_order "uminus :: int \<Rightarrow> int" .

lemma OrderManualRouteCandidates_sorted:
  "sorted (map (manualKey lb) (OrderManualRouteCandidates cs lb))"
  unfolding OrderManualRouteCandidates_def manualBefore_key by (rule manual.sorted_key)

lemma StaticPriorityLayer_sorted: "sorted (map staticKey (StaticPriorityLayer cs))"
  unfolding StaticPriorityLayer_def staticBefore_key by (rule static.sorted_key)

lemma scoreLayer_sorted:
  assumes "\<forall>c \<in> set layer. measured c"
  shows "sorted (map scoredKey (scoreLayer layer))"
proof -
  let ?xs = "map (\<lambda>c. \<lparr>srCandidate = c, srBreakdown = scoreRouteCandidate c (layerMaxWeight layer)\<rparr>) layer"
  have w: "\<forall>c \<in> set layer. scWeight c \<le> 2 ^ 53" using assms by (simp add: measured_def)
  have "bdTotal (srBreakdown s) \<noteq> FNaN" if "s \<in> set ?xs" for s
  proof -
    from that obtain c where c: "c \<in> set layer"
      "s = \<lparr>srCandidate = c, srBreakdown = scoreRouteCandidate c (layerMaxWeight layer)\<rparr>" by auto
    with layerMaxWeight_bounds [OF w] assms
    have "bdTotal (scoreRouteCandidate c (layerMaxWeight layer)) \<noteq> FNaN"
      by (intro total_not_NaN) blast+
    with c show ?thesis by simp
  qed
  then have "scoreLayer layer = SliceStable (\<lambda>a b. scoredKey a < scoredKey b) ?xs"
    unfolding scoreLayer_def by (intro SliceStable_cong scoredBefore_key)
  then show ?thesis by (simp only: scored.sorted_key)
qed
section \<open>The ranking\<close>

definition layerOf :: "RouteScoreCandidate list \<Rightarrow> int \<Rightarrow> RouteScoreCandidate list" where
  "layerOf cs p = filter (\<lambda>c. scHealthUsable c \<and> scPriority c = p) cs"

definition collected :: "RouteScoreCandidate list \<Rightarrow>
    (int \<rightharpoonup> RouteScoreCandidate list) \<times> int list \<Rightarrow> bool" where
  "collected cs acc \<longleftrightarrow> distinct (snd acc) \<and> set (snd acc) = scPriority ` set (filter scHealthUsable cs) \<and>
     (\<forall>p. fst acc p = (if layerOf cs p = [] then None else Some (layerOf cs p)))"

lemma layerOf_empty: "layerOf cs p = [] \<longleftrightarrow> p \<notin> scPriority ` set (filter scHealthUsable cs)"
  by (force simp: layerOf_def filter_empty_conv image_iff)

lemma layerOf_snoc:
  "layerOf (cs @ [c]) p = layerOf cs p @ (if scHealthUsable c \<and> scPriority c = p then [c] else [])"
  by (simp add: layerOf_def)

lemma collectLayers_collects:
  "collected seen acc \<Longrightarrow> collected (seen @ cs) (collectLayers cs acc)"
proof (induction cs acc arbitrary: seen rule: collectLayers.induct)
  case (2 c cs layers priorities)
  let ?p = "scPriority c"
  note prem = "2.prems"
  show ?case
  proof (cases "scHealthUsable c")
    case False
    with prem have "collected (seen @ [c]) (layers, priorities)"
      by (simp add: collected_def layerOf_snoc)
    with False "2.IH"(1) [of "seen @ [c]"] show ?thesis by simp
  next
    case True
    show ?thesis
    proof (cases "layers ?p")
      case None
      then have e: "layerOf seen ?p = []" using prem by (auto simp: collected_def split: if_splits)
      then have "?p \<notin> set priorities" using prem by (simp add: collected_def layerOf_empty)
      with prem True e have "collected (seen @ [c]) (layers(?p \<mapsto> [c]), priorities @ [?p])"
        by (simp add: collected_def layerOf_snoc)
      with True None "2.IH"(2) [of ?p "seen @ [c]"] show ?thesis by (simp add: Let_def)
    next
      case (Some layer)
      then have e: "layerOf seen ?p = layer" "layer \<noteq> []"
        using prem by (auto simp: collected_def split: if_splits)
      then have "?p \<in> set priorities" using prem layerOf_empty [of seen ?p] by (simp add: collected_def)
      with prem True e have "collected (seen @ [c]) (layers(?p \<mapsto> layer @ [c]), priorities)"
        by (simp add: collected_def layerOf_snoc insert_absorb)
      with True Some "2.IH"(3) [of ?p layer "seen @ [c]"] show ?thesis by (simp add: Let_def)
    qed
  qed
qed simp

text \<open>The priorities of the usable candidates in descending order.\<close>

definition prioritiesOf :: "RouteScoreCandidate list \<Rightarrow> int list" where
  "prioritiesOf cs = SliceStable (\<lambda>a b. a > b) (snd (collectLayers cs (Map.empty, [])))"

lemma collected_all: "collected cs (collectLayers cs (Map.empty, []))"
  using collectLayers_collects [of "[]" "(Map.empty, [])" cs] by (simp add: collected_def layerOf_def)

lemma fold_append: "fold (\<lambda>x acc. acc @ f x) xs acc = acc @ concat (map f xs)"
  by (induction xs arbitrary: acc) simp_all

lemma ScoreRouteCandidates_layers:
  "ScoreRouteCandidates cs = concat (map (\<lambda>p. scoreLayer (layerOf cs p)) (prioritiesOf cs))"
proof -
  obtain layers priorities where r: "collectLayers cs (Map.empty, []) = (layers, priorities)"
    by fastforce
  have "layers p = (if layerOf cs p = [] then None else Some (layerOf cs p))" for p
    using collected_all [of cs] r by (simp add: collected_def)
  moreover have "scoreLayer [] = []" by (simp add: scoreLayer_def)
  ultimately have "(case layers p of None \<Rightarrow> [] | Some layer \<Rightarrow> scoreLayer layer) = scoreLayer (layerOf cs p)" for p
    by simp
  then show ?thesis
    using r by (auto simp: ScoreRouteCandidates_def prioritiesOf_def fold_append)
qed

lemma prioritiesOf_props:
  "distinct (prioritiesOf cs)" "sorted (map uminus (prioritiesOf cs))"
  "set (prioritiesOf cs) = scPriority ` set (filter scHealthUsable cs)"
  using collected_all [of cs]
    descending.sorted_key [of "snd (collectLayers cs (Map.empty, []))"]
  by (simp_all add: prioritiesOf_def collected_def)

lemma srCandidate_scoreLayer: "mset (map srCandidate (scoreLayer layer)) = mset layer"
  by (simp add: scoreLayer_def multiset.map_comp comp_def)

definition rankKey :: "ScoredRouteCandidate \<Rightarrow> int \<times> f64 \<times> int" where
  "rankKey s = (- scPriority (srCandidate s), scoredKey s)"

lemma scoreLayer_members:
  "s \<in> set (scoreLayer (layerOf cs p)) \<Longrightarrow> srCandidate s \<in> set cs \<and> scPriority (srCandidate s) = p"
  by (auto simp: scoreLayer_def layerOf_def)

lemma layers_sorted:
  assumes "\<forall>c \<in> set cs. measured c" "distinct ps" "sorted (map uminus ps)"
  shows "sorted (map rankKey (concat (map (\<lambda>p. scoreLayer (layerOf cs p)) ps)))"
  using assms(2,3)
proof (induction ps)
  case (Cons p ps)
  have "sorted (map scoredKey (scoreLayer (layerOf cs p)))"
    using assms(1) by (intro scoreLayer_sorted) (simp add: layerOf_def)
  then have "sorted (map rankKey (scoreLayer (layerOf cs p)))"
    using scoreLayer_members [of _ cs p]
    by (auto simp: sorted_wrt_map rankKey_def elim!: sorted_wrt_mono_rel [rotated])
  moreover have "rankKey s \<le> rankKey t"
    if "s \<in> set (scoreLayer (layerOf cs p))" "q \<in> set ps" "t \<in> set (scoreLayer (layerOf cs q))" for s t q
    using that scoreLayer_members [OF that(1)] scoreLayer_members [OF that(3)] Cons.prems
    by (auto simp: rankKey_def order.order_iff_strict)
  ultimately show ?case
    using Cons by (auto simp: sorted_append)
qed simp

lemma mset_layers:
  assumes "distinct ps"
  shows "mset (map srCandidate (concat (map (\<lambda>p. scoreLayer (layerOf cs p)) ps))) =
    mset (filter (\<lambda>c. scHealthUsable c \<and> scPriority c \<in> set ps) cs)"
  using assms
proof (induction ps)
  case (Cons p ps)
  have "mset (filter (\<lambda>c. scHealthUsable c \<and> scPriority c \<in> set (p # ps)) cs) =
      mset (layerOf cs p) + mset (filter (\<lambda>c. scHealthUsable c \<and> scPriority c \<in> set ps) cs)"
    using Cons.prems by (induction cs) (auto simp: layerOf_def)
  with Cons show ?case using srCandidate_scoreLayer [of "layerOf cs p"] by simp
qed simp

lemma mset_ScoreRouteCandidates:
  "mset (map srCandidate (ScoreRouteCandidates cs)) = mset (filter scHealthUsable cs)"
proof -
  have "filter (\<lambda>c. scHealthUsable c \<and> scPriority c \<in> set (prioritiesOf cs)) cs = filter scHealthUsable cs"
    by (rule filter_cong) (auto simp: prioritiesOf_props(3))
  with mset_layers [OF prioritiesOf_props(1) [of cs], of cs] show ?thesis
    unfolding ScoreRouteCandidates_layers by simp
qed

text \<open>
  C30.  Dynamic scoring reorders, it never admits or drops: the ranking holds exactly the
  candidates whose health is usable, and it is sorted by descending priority first, by
  descending total score inside one priority layer, and by channel id last.  So no metric
  overtakes an administrator's priority boundary.
\<close>

theorem ScoreRouteCandidates_ranks:
  assumes "\<forall>c \<in> set cs. measured c"
  shows "sorted (map rankKey (ScoreRouteCandidates cs)) \<and>
    mset (map srCandidate (ScoreRouteCandidates cs)) = mset (filter scHealthUsable cs)"
  unfolding mset_ScoreRouteCandidates
  using layers_sorted [OF assms prioritiesOf_props(1,2)] by (simp add: ScoreRouteCandidates_layers)

definition scoreCandidate :: "int \<Rightarrow> int \<Rightarrow> int \<Rightarrow> bool \<Rightarrow> RouteScoreCandidate" where
  "scoreCandidate i priority weight usable =
     \<lparr>scChannelID = i, scPriority = priority, scPosition = 0, scWeight = weight,
      scErrorRate = FFin (1 / 3), scErrorRateKnown = (i = 2), scLatencyMS = FFin 500,
      scLatencyKnown = True, scTTFTMS = FFin 0, scTTFTKnown = False,
      scRateLimitHeadroom = FFin 0, scRateLimitKnown = False, scQuotaHeadroom = FFin 0,
      scQuotaKnown = False, scSticky = False, scHealthUsable = usable\<rparr>"

theorem ScoreRouteCandidates_ranks_witness:
  "let cs = [scoreCandidate 1 0 9 True, scoreCandidate 2 5 1 True, scoreCandidate 4 9 1 False] in
   (\<forall>c \<in> set cs. measured c) \<and> sorted (map rankKey (ScoreRouteCandidates cs)) \<and>
   mset (map srCandidate (ScoreRouteCandidates cs)) =
     {#scoreCandidate 1 0 9 True, scoreCandidate 2 5 1 True#}"
proof -
  let ?cs = "[scoreCandidate 1 0 9 True, scoreCandidate 2 5 1 True, scoreCandidate 4 9 1 False]"
  have m: "\<forall>c \<in> set ?cs. measured c" by (simp add: measured_def scoreCandidate_def)
  have "filter scHealthUsable ?cs = [scoreCandidate 1 0 9 True, scoreCandidate 2 5 1 True]"
    by (simp add: scoreCandidate_def)
  with m ScoreRouteCandidates_ranks [OF m] show ?thesis by (simp add: Let_def)
qed

end
