(* ===== verification/Go_Hash.thy ===== *)
theory Go_Hash
  imports Go_Base "HOL-Library.Word"
begin

text \<open>
  The two hash functions the routing code takes from Go's standard library, on the bytes of a
  string: \<open>crypto/sha256\<close> (FIPS 180-4), whose hexadecimal digest names the health scope of a
  credential, and \<open>hash/fnv\<close> (64-bit FNV-1a), which spreads requests over the candidates of one
  manual layer.
\<close>

unbundle bit_operations_syntax

section \<open>FNV-1a\<close>

definition byteOf :: "char \<Rightarrow> nat" where
  "byteOf c = of_char c"

definition fnv64a :: "string \<Rightarrow> 64 word" where
  "fnv64a s = fold (\<lambda>c h. (h XOR of_nat (byteOf c)) * 1099511628211) s 14695981039346656037"

lemma fnv64a_test_vector: "fnv64a ''a'' = 0xaf63dc4c8601ec8c"
  by code_simp

section \<open>SHA-256\<close>

type_synonym w32 = "32 word"

text \<open>
  The round constants are defined by the standard as the leading 32 bits of the fractional parts
  of the cube roots of the first 64 primes.
\<close>

fun cubeRootBits :: "nat \<Rightarrow> int \<Rightarrow> int \<Rightarrow> int" where
  "cubeRootBits 0 n r = r"
| "cubeRootBits (Suc k) n r = cubeRootBits k n (if (r + 2 ^ k) ^ 3 \<le> n then r + 2 ^ k else r)"

fun primesFrom :: "nat \<Rightarrow> int list \<Rightarrow> int \<Rightarrow> int list" where
  "primesFrom 0 found n = rev found"
| "primesFrom (Suc k) found n =
     (if \<forall>p \<in> set found. n mod p \<noteq> 0 then primesFrom k (n # found) (n + 1)
      else primesFrom k found (n + 1))"

definition sha256K :: "w32 list" where
  "sha256K = map (\<lambda>p. of_int (cubeRootBits 36 (p * 2 ^ 96) 0)) (primesFrom 310 [] 2)"

definition rotr :: "nat \<Rightarrow> w32 \<Rightarrow> w32" where
  "rotr n x = drop_bit n x OR push_bit (32 - n) x"

fun words32 :: "nat list \<Rightarrow> w32 list" where
  "words32 (a # b # c # d # rest) =
     (push_bit 24 (of_nat a) OR push_bit 16 (of_nat b) OR push_bit 8 (of_nat c) OR of_nat d)
     # words32 rest"
| "words32 _ = []"

definition shaPad :: "nat list \<Rightarrow> nat list" where
  "shaPad bs = (let n = length bs in
     bs @ [128] @ replicate ((119 - n mod 64) mod 64) 0 @
     map (\<lambda>i. nat (8 * int n div 256 ^ i mod 256)) [7, 6, 5, 4, 3, 2, 1, 0])"

text \<open>The message schedule, newest word first.\<close>

fun shaExtend :: "nat \<Rightarrow> w32 list \<Rightarrow> w32 list" where
  "shaExtend 0 ws = ws"
| "shaExtend (Suc k) ws =
     (let s1 = rotr 17 (ws ! 1) XOR rotr 19 (ws ! 1) XOR drop_bit 10 (ws ! 1);
          s0 = rotr 7 (ws ! 14) XOR rotr 18 (ws ! 14) XOR drop_bit 3 (ws ! 14)
      in shaExtend k ((s1 + ws ! 6 + s0 + ws ! 15) # ws))"

type_synonym sha_state = "w32 \<times> w32 \<times> w32 \<times> w32 \<times> w32 \<times> w32 \<times> w32 \<times> w32"

fun shaRound :: "w32 \<times> w32 \<Rightarrow> sha_state \<Rightarrow> sha_state" where
  "shaRound (k, w) (a, b, c, d, e, f, g, h) =
     (let S1 = rotr 6 e XOR rotr 11 e XOR rotr 25 e;
          ch = (e AND f) XOR (NOT e AND g);
          t1 = h + S1 + ch + k + w;
          S0 = rotr 2 a XOR rotr 13 a XOR rotr 22 a;
          maj = (a AND b) XOR (a AND c) XOR (b AND c)
      in (t1 + (S0 + maj), a, b, c, d + t1, e, f, g))"

fun shaAdd :: "sha_state \<Rightarrow> sha_state \<Rightarrow> sha_state" where
  "shaAdd (a, b, c, d, e, f, g, h) (a', b', c', d', e', f', g', h') =
     (a + a', b + b', c + c', d + d', e + e', f + f', g + g', h + h')"

definition shaBlock :: "w32 list \<Rightarrow> sha_state \<Rightarrow> sha_state" where
  "shaBlock block st = shaAdd st (fold shaRound (zip sha256K (rev (shaExtend 48 (rev block)))) st)"

fun shaBlocks :: "nat \<Rightarrow> w32 list \<Rightarrow> sha_state \<Rightarrow> sha_state" where
  "shaBlocks 0 ws st = st"
| "shaBlocks (Suc k) ws st = shaBlocks k (drop 16 ws) (shaBlock (take 16 ws) st)"

definition Sum256 :: "string \<Rightarrow> w32 list" where
  "Sum256 s = (let ws = words32 (shaPad (map byteOf s)) in
     case shaBlocks (length ws div 16) ws
       (0x6a09e667, 0xbb67ae85, 0x3c6ef372, 0xa54ff53a, 0x510e527f, 0x9b05688c, 0x1f83d9ab, 0x5be0cd19)
     of (a, b, c, d, e, f, g, h) \<Rightarrow> [a, b, c, d, e, f, g, h])"

definition hexDigit :: "nat \<Rightarrow> char" where
  "hexDigit n = char_of (if n < 10 then 48 + n else 87 + n)"

definition hex32 :: "w32 \<Rightarrow> string" where
  "hex32 w = map (\<lambda>i. hexDigit (unat (drop_bit (4 * i) w AND 15))) [7, 6, 5, 4, 3, 2, 1, 0]"

lemma length_Sum256 [simp]: "length (Sum256 s) = 8"
  by (simp add: Sum256_def Let_def split: prod.split)

lemma length_hex32 [simp]: "length (hex32 w) = 8"
  by (simp add: hex32_def)

end
