(* ===== verification/Route_Health.thy ===== *)
theory Route_Health
  imports Quota_Store Route_Score Go_Hash
begin

text \<open>
  \<open>service/route_health.go\<close>: the classification of upstream errors, the retry budget, and the
  circuit breaker kept in the \<open>channel_healths\<close> table, one row per channel, model and key scope.
  A \<open>time.Time\<close> and a \<open>time.Duration\<close> are integers in nanoseconds; \<open>time.Now()\<close> is the world's
  clock.  The table holds at most one row per scope (its unique index), so \<open>First\<close> is a lookup.
  \<open>golang.org/x/text\<close> is not part of the repository: its NFKC normalisation is the argument
  \<open>nfkc\<close> of every function that normalises a model name.  The check that the process has a
  database connection is not modelled, and neither is the \<open>Retry-After\<close> header parser.
\<close>

abbreviation RouteHealthStateClosed :: string where "RouteHealthStateClosed \<equiv> ''closed''"
abbreviation RouteHealthStateOpen :: string where "RouteHealthStateOpen \<equiv> ''open''"
abbreviation RouteHealthStateHalfOpen :: string where "RouteHealthStateHalfOpen \<equiv> ''half_open''"

section \<open>Model names\<close>

definition TrimSuffix :: "string \<Rightarrow> string \<Rightarrow> string" where
  "TrimSuffix s t = (if suffix t s then take (length s - length t) s else s)"

lemma length_TrimSuffix: "length (TrimSuffix s t) \<le> length s"
  by (simp add: TrimSuffix_def)

text \<open>One pass of the loop of \<open>normalize\<close>.\<close>

definition stripSuffixes :: "string \<Rightarrow> string" where
  "stripSuffixes v =
     fold (\<lambda>t v. TrimSuffix v t) [''@default'', '':free'', '':thinking'', '':low'', '':medium'', '':high''] v"

lemma TrimSuffix_shorter: "TrimSuffix s t = s \<or> length (TrimSuffix s t) < length s"
  by (cases "t = []") (auto simp: TrimSuffix_def suffix_def)

lemma fold_TrimSuffix_shorter:
  "fold (\<lambda>t v. TrimSuffix v t) ts s = s \<or> length (fold (\<lambda>t v. TrimSuffix v t) ts s) < length s"
proof (induction ts arbitrary: s)
  case (Cons t ts)
  show ?case using Cons.IH [of "TrimSuffix s t"] TrimSuffix_shorter [of s t] by fastforce
qed simp

lemma stripSuffixes_shorter: "stripSuffixes v \<noteq> v \<Longrightarrow> length (stripSuffixes v) < length v"
  using fold_TrimSuffix_shorter unfolding stripSuffixes_def by blast

function stripLoop :: "string \<Rightarrow> string" where
  "stripLoop v = (let v' = stripSuffixes v in if v' = v then v else stripLoop v')"
  by pat_completeness auto
termination
  by (relation "measure length") (auto intro: stripSuffixes_shorter)

declare stripLoop.simps [simp del]

definition NormalizeModel :: "(string \<Rightarrow> string) \<Rightarrow> string \<Rightarrow> string" where
  "NormalizeModel nfkc v = stripLoop (nfkc (ToLower (TrimSpace v)))"

section \<open>Error classes\<close>

datatype RouteErrorClass =
    RouteErrorInput
  | RouteErrorPermission
  | RouteErrorKey
  | RouteErrorTransient
  | RouteErrorModel
  | RouteErrorStreamStarted
  | RouteErrorAdmission
  | RouteErrorUnknown

record RouteErrorClassification =
  rcClass :: RouteErrorClass
  rcRetryable :: bool
  rcFailoverable :: bool
  rcMarkKey :: bool
  rcMarkCapability :: bool
  rcMarkChannelModel :: bool

definition classOnly :: "RouteErrorClass \<Rightarrow> RouteErrorClassification" where
  "classOnly c = \<lparr>rcClass = c, rcRetryable = False, rcFailoverable = False, rcMarkKey = False,
     rcMarkCapability = False, rcMarkChannelModel = False\<rparr>"

definition ClassifyRouteError ::
  "int \<Rightarrow> string \<Rightarrow> string \<Rightarrow> bool \<Rightarrow> RouteErrorClassification" where
  "ClassifyRouteError status providerCode message streamStarted =
     (if streamStarted then classOnly RouteErrorStreamStarted
      else let code = ToLower (TrimSpace providerCode); txt = ToLower (TrimSpace message) in
        if Contains code ''route_lease'' \<or> Contains code ''route_admission'' \<or>
           Contains txt ''route lease''
        then classOnly RouteErrorAdmission
        else if Contains code ''invalid_api_key'' \<or> Contains code ''invalid_credential'' \<or>
           Contains code ''authentication_error'' \<or> Contains txt ''invalid api key'' \<or>
           Contains txt ''incorrect api key''
        then (classOnly RouteErrorKey)\<lparr>rcRetryable := True, rcFailoverable := True, rcMarkKey := True\<rparr>
        else if Contains code ''model_not_found'' \<or> Contains code ''unsupported_model'' \<or>
           Contains code ''model_not_supported'' \<or> Contains code ''invalid_model'' \<or>
           Contains txt ''model not found'' \<or> Contains txt ''unsupported model'' \<or>
           Contains txt ''invalid model''
        then (classOnly RouteErrorModel)\<lparr>rcFailoverable := True, rcMarkCapability := True\<rparr>
        else if status = 400 \<or> status = 422 \<or> Contains code ''invalid_request''
        then classOnly RouteErrorInput
        else if status = 401
        then (classOnly RouteErrorKey)\<lparr>rcRetryable := True, rcFailoverable := True, rcMarkKey := True\<rparr>
        else if status = 403 \<or> Contains code ''permission''
        then classOnly RouteErrorPermission
        else if status = 408 \<or> status = 409 \<or> status = 425 \<or> status = 429 \<or> status \<ge> 500 \<or>
           Contains code ''rate_limit'' \<or> Contains code ''timeout''
        then (classOnly RouteErrorTransient)
               \<lparr>rcRetryable := True, rcFailoverable := True, rcMarkChannelModel := True\<rparr>
        else (classOnly RouteErrorUnknown)
               \<lparr>rcRetryable := status \<ge> 500, rcFailoverable := status \<ge> 500,
                rcMarkChannelModel := status \<ge> 500\<rparr>)"

definition CanRouteFailover :: "RouteErrorClassification \<Rightarrow> bool \<Rightarrow> bool \<Rightarrow> bool" where
  "CanRouteFailover class streamStarted hasValidOutput =
     (if streamStarted \<or> hasValidOutput then False else rcFailoverable class)"

section \<open>Retry budget\<close>

record RouteRetryBudget =
  rbSameKeyAttempts :: int
  rbSameChannelAttempts :: int
  rbFailoverAttempts :: int
  rbTotalAttempts :: int

record RouteRetryCounters =
  rkSameKeyAttempts :: int
  rkSameChannelAttempts :: int
  rkFailoverAttempts :: int
  rkTotalAttempts :: int

datatype RouteRetryRelation = RouteRetrySameKey | RouteRetrySameChannel | RouteRetryFailover

definition DefaultRouteRetryBudget :: RouteRetryBudget where
  "DefaultRouteRetryBudget = \<lparr>rbSameKeyAttempts = 0, rbSameChannelAttempts = 1,
     rbFailoverAttempts = 2, rbTotalAttempts = 3\<rparr>"

definition Allows ::
  "RouteRetryBudget \<Rightarrow> RouteErrorClassification \<Rightarrow> RouteRetryRelation \<Rightarrow> RouteRetryCounters \<Rightarrow> bool" where
  "Allows b class relation counters =
     (if rkTotalAttempts counters \<ge> rbTotalAttempts b then False
      else case relation of
        RouteRetrySameKey \<Rightarrow>
          rcRetryable class \<and> rkSameKeyAttempts counters < rbSameKeyAttempts b
      | RouteRetrySameChannel \<Rightarrow>
          rcRetryable class \<and> rkSameChannelAttempts counters < rbSameChannelAttempts b
      | RouteRetryFailover \<Rightarrow>
          rcFailoverable class \<and> rkFailoverAttempts counters < rbFailoverAttempts b)"

section \<open>Observations\<close>

definition Second :: int where "Second = 1000000000"

definition Unix :: "int \<Rightarrow> int" where "Unix t = t div Second"

record RouteHealthPolicy =
  hpFailureThreshold :: int
  hpCooldown :: int

definition DefaultRouteHealthPolicy :: RouteHealthPolicy where
  "DefaultRouteHealthPolicy = \<lparr>hpFailureThreshold = 3, hpCooldown = 30 * Second\<rparr>"

definition routeKeyHealthPolicy :: RouteHealthPolicy where
  "routeKeyHealthPolicy = \<lparr>hpFailureThreshold = 1, hpCooldown = 300 * Second\<rparr>"

definition routeCapabilityHealthPolicy :: RouteHealthPolicy where
  "routeCapabilityHealthPolicy = \<lparr>hpFailureThreshold = 1, hpCooldown = 300 * Second\<rparr>"

definition normalizedPolicy :: "RouteHealthPolicy \<Rightarrow> RouteHealthPolicy" where
  "normalizedPolicy p =
     (let p = (if hpFailureThreshold p \<le> 0 then p\<lparr>hpFailureThreshold := 3\<rparr> else p)
      in if hpCooldown p \<le> 0 then p\<lparr>hpCooldown := 30 * Second\<rparr> else p)"

definition NormalizeHealth :: "int \<Rightarrow> ChannelHealth \<Rightarrow> ChannelHealth" where
  "NormalizeHealth now h =
     (let h = (if chState h = [] then h\<lparr>chState := RouteHealthStateClosed\<rparr> else h);
          h = (if chHealthEpoch h \<le> 0 then h\<lparr>chHealthEpoch := 1\<rparr> else h)
      in if chUpdatedAt h = 0 then h\<lparr>chUpdatedAt := Unix now\<rparr> else h)"

definition CanUseRouteHealth :: "ChannelHealth \<Rightarrow> int \<Rightarrow> bool" where
  "CanUseRouteHealth h now =
     (if chState h = [] \<or> chState h = RouteHealthStateClosed then True
      else if chState h = RouteHealthStateHalfOpen then False
      else chCooldownUntil h > 0 \<and> chCooldownUntil h \<le> Unix now)"

definition ObserveRouteHealthFailureWithRetryAfter ::
  "ChannelHealth \<Rightarrow> RouteHealthPolicy \<Rightarrow> int \<Rightarrow> int \<Rightarrow> ChannelHealth" where
  "ObserveRouteHealthFailureWithRetryAfter health policy now retryAfter =
     (let policy = normalizedPolicy policy;
          h = NormalizeHealth now health;
          h = h\<lparr>chFailureCount := chFailureCount h + 1\<rparr>;
          h = (if chState h = RouteHealthStateHalfOpen \<or>
                  chFailureCount h \<ge> hpFailureThreshold policy \<or> retryAfter > 0
               then h\<lparr>chState := RouteHealthStateOpen,
                      chCooldownUntil := Unix (now + (if retryAfter > hpCooldown policy
                        then retryAfter else hpCooldown policy)),
                      chHealthEpoch := chHealthEpoch h + 1\<rparr>
               else h)
      in h\<lparr>chUpdatedAt := Unix now\<rparr>)"

definition ObserveRouteHealthFailure ::
  "ChannelHealth \<Rightarrow> RouteHealthPolicy \<Rightarrow> int \<Rightarrow> ChannelHealth" where
  "ObserveRouteHealthFailure health policy now =
     ObserveRouteHealthFailureWithRetryAfter health policy now 0"

definition ObserveRouteHealthSuccess :: "ChannelHealth \<Rightarrow> int \<Rightarrow> ChannelHealth" where
  "ObserveRouteHealthSuccess health now =
     (let h = NormalizeHealth now health;
          stateChanged = (chState h \<noteq> RouteHealthStateClosed \<or> chFailureCount h \<noteq> 0 \<or>
                          chCooldownUntil h \<noteq> 0);
          h = h\<lparr>chState := RouteHealthStateClosed, chFailureCount := 0, chCooldownUntil := 0\<rparr>;
          h = (if stateChanged then h\<lparr>chHealthEpoch := chHealthEpoch h + 1\<rparr> else h)
      in h\<lparr>chUpdatedAt := Unix now\<rparr>)"

definition EnterRouteHealthHalfOpen :: "ChannelHealth \<Rightarrow> int \<Rightarrow> ChannelHealth" where
  "EnterRouteHealthHalfOpen health now =
     (let h = NormalizeHealth now health in
      if chState h = RouteHealthStateOpen \<and> chCooldownUntil h \<le> Unix now
      then h\<lparr>chState := RouteHealthStateHalfOpen, chHealthEpoch := chHealthEpoch h + 1,
             chUpdatedAt := Unix now\<rparr>
      else h)"

section \<open>The stored breaker\<close>

definition emptyHealth :: ChannelHealth where
  "emptyHealth = \<lparr>chID = 0, chChannelID = 0, chModel = [], chKeyScope = [], chState = [],
     chFailureCount = 0, chCooldownUntil = 0, chHealthEpoch = 0, chLastLatencyMS = 0,
     chFirstTokenLatencyMS = 0, chUpdatedAt = 0\<rparr>"

definition inScope :: "int \<Rightarrow> string \<Rightarrow> string \<Rightarrow> ChannelHealth \<Rightarrow> bool" where
  "inScope channelID modelName keyScope h \<longleftrightarrow>
     chChannelID h = channelID \<and> chModel h = modelName \<and> chKeyScope h = keyScope"

definition findHealth :: "int \<Rightarrow> string \<Rightarrow> string \<Rightarrow> db \<Rightarrow> ChannelHealth option" where
  "findHealth channelID modelName keyScope d = find (inScope channelID modelName keyScope) (healths d)"

text \<open>\<open>Updates\<close> of the rows with this id that satisfy the condition, \<open>Create\<close> and \<open>Save\<close>.\<close>

definition updHealth ::
  "int \<Rightarrow> (ChannelHealth \<Rightarrow> bool) \<Rightarrow> (ChannelHealth \<Rightarrow> ChannelHealth) \<Rightarrow> int goM" where
  "updHealth i P f = execM (\<lambda>d.
     (int (length (filter (\<lambda>h. chID h = i \<and> P h \<and> (changedRowsOnly d \<longrightarrow> f h \<noteq> h)) (healths d))),
      d\<lparr>healths := map (\<lambda>h. if chID h = i \<and> P h then f h else h) (healths d)\<rparr>))"

definition nextHealthID :: "db \<Rightarrow> int" where
  "nextHealthID d = fold (\<lambda>h n. max n (chID h + 1)) (healths d) 1"

definition createHealth :: "ChannelHealth \<Rightarrow> unit goM" where
  "createHealth h = createM (\<lambda>d.
     if find (inScope (chChannelID h) (chModel h) (chKeyScope h)) (healths d) \<noteq> None then None
     else Some (d\<lparr>healths := healths d @ [h\<lparr>chID := nextHealthID d\<rparr>]\<rparr>))"

definition saveHealth :: "ChannelHealth \<Rightarrow> int goM" where
  "saveHealth h w = execM (\<lambda>d. (1, d\<lparr>healths :=
     map (\<lambda>r. if chID r = chID h then h\<lparr>chUpdatedAt := clock w\<rparr> else r) (healths d)\<rparr>)) w"

definition errHealthUnavailable :: err where
  "errHealthUnavailable = ErrText ''route health database is unavailable''"

definition loadRouteHealthScope ::
  "(string \<Rightarrow> string) \<Rightarrow> int \<Rightarrow> string \<Rightarrow> string \<Rightarrow> ChannelHealth goM" where
  "loadRouteHealthScope nfkc channelID requestModel keyScope =
     (if channelID \<le> 0 then throwM errHealthUnavailable
      else let m = NormalizeModel nfkc requestModel in
        bindM (tryM (firstM (findHealth channelID m keyScope))) (\<lambda>r.
          case r of Inr health \<Rightarrow> retM health
          | Inl e \<Rightarrow>
              if errIs e ErrRecordNotFound
              then retM (emptyHealth\<lparr>chChannelID := channelID, chModel := m, chKeyScope := keyScope,
                           chState := RouteHealthStateClosed, chHealthEpoch := 1\<rparr>)
              else throwM e))"

definition LoadRouteHealth :: "(string \<Rightarrow> string) \<Rightarrow> int \<Rightarrow> string \<Rightarrow> ChannelHealth goM" where
  "LoadRouteHealth nfkc channelID requestModel = loadRouteHealthScope nfkc channelID requestModel []"

text \<open>The two conditional updates: re-arming an expired probe and claiming a fresh one.\<close>

definition rearmProbe :: "ChannelHealth \<Rightarrow> int \<Rightarrow> int goM" where
  "rearmProbe health now =
     updHealth (chID health)
       (\<lambda>r. chState r = RouteHealthStateHalfOpen \<and> chCooldownUntil r > 0 \<and> chCooldownUntil r \<le> Unix now)
       (\<lambda>r. r\<lparr>chState := RouteHealthStateOpen, chCooldownUntil := 0,
              chHealthEpoch := chHealthEpoch r + 1, chUpdatedAt := Unix now\<rparr>)"

definition claimProbe :: "ChannelHealth \<Rightarrow> int \<Rightarrow> int goM" where
  "claimProbe health now =
     updHealth (chID health)
       (\<lambda>r. chState r = RouteHealthStateOpen \<and> chCooldownUntil r > 0 \<and> chCooldownUntil r \<le> Unix now)
       (\<lambda>r. r\<lparr>chState := RouteHealthStateHalfOpen,
              chCooldownUntil := Unix (now + hpCooldown DefaultRouteHealthPolicy),
              chHealthEpoch := chHealthEpoch r + 1, chUpdatedAt := Unix now\<rparr>)"

text \<open>One turn of the admission loop on the row it has read; \<open>None\<close> is \<open>continue\<close>.\<close>

definition admitProbe :: "ChannelHealth \<Rightarrow> int \<Rightarrow> (bool \<times> int) option goM" where
  "admitProbe health now =
     (if chState health = [] \<or> chState health = RouteHealthStateClosed
      then retM (Some (True, chHealthEpoch health))
      else if chState health = RouteHealthStateHalfOpen
      then if chCooldownUntil health > Unix now then retM (Some (False, chHealthEpoch health))
           else bindM (rearmProbe health now) (\<lambda>n.
             if n \<noteq> 1 then retM (Some (False, chHealthEpoch health)) else retM None)
      else if chState health \<noteq> RouteHealthStateOpen \<or> chCooldownUntil health \<le> 0 \<or>
              chCooldownUntil health > Unix now
      then retM (Some (False, chHealthEpoch health))
      else bindM (claimProbe health now) (\<lambda>n.
             if n = 1 then retM (Some (True, chHealthEpoch health + 1))
             else retM (Some (False, chHealthEpoch health))))"

fun admitLoop ::
  "nat \<Rightarrow> (string \<Rightarrow> string) \<Rightarrow> int \<Rightarrow> string \<Rightarrow> string \<Rightarrow> int \<Rightarrow> (bool \<times> int) goM" where
  "admitLoop 0 nfkc channelID requestModel keyScope now = retM (False, 0)"
| "admitLoop (Suc n) nfkc channelID requestModel keyScope now =
     bindM (loadRouteHealthScope nfkc channelID requestModel keyScope) (\<lambda>health.
     bindM (admitProbe health now) (\<lambda>r.
       case r of Some res \<Rightarrow> retM res
       | None \<Rightarrow> admitLoop n nfkc channelID requestModel keyScope now))"

definition routeHealthScopeUsable ::
  "(string \<Rightarrow> string) \<Rightarrow> int \<Rightarrow> string \<Rightarrow> string \<Rightarrow> int \<Rightarrow> (bool \<times> int) goM" where
  "routeHealthScopeUsable nfkc channelID requestModel keyScope now =
     admitLoop 2 nfkc channelID requestModel keyScope now"

definition RouteHealthUsable :: "(string \<Rightarrow> string) \<Rightarrow> int \<Rightarrow> string \<Rightarrow> int \<Rightarrow> (bool \<times> int) goM" where
  "RouteHealthUsable nfkc channelID requestModel now =
     routeHealthScopeUsable nfkc channelID requestModel [] now"

definition RouteKeyScope :: "string \<Rightarrow> string" where
  "RouteKeyScope key = ''key:'' @ concat (map hex32 (Sum256 key))"

definition RouteKeyHealthUsable ::
  "(string \<Rightarrow> string) \<Rightarrow> int \<Rightarrow> string \<Rightarrow> string \<Rightarrow> int \<Rightarrow> (bool \<times> int) goM" where
  "RouteKeyHealthUsable nfkc channelID requestModel key now =
     (if TrimSpace key = [] then retM (False, 0)
      else routeHealthScopeUsable nfkc channelID requestModel (RouteKeyScope key) now)"

record RouteHealthScoreMetrics =
  hmErrorRate :: f64
  hmErrorRateKnown :: bool
  hmLatencyMS :: f64
  hmLatencyKnown :: bool
  hmTTFTMS :: f64
  hmTTFTKnown :: bool

definition routeHealthScoreMetrics :: "ChannelHealth \<Rightarrow> RouteHealthScoreMetrics" where
  "routeHealthScoreMetrics h =
     (if chID h = 0
      then \<lparr>hmErrorRate = FFin 0, hmErrorRateKnown = False, hmLatencyMS = FFin 0,
            hmLatencyKnown = False, hmTTFTMS = FFin 0, hmTTFTKnown = False\<rparr>
      else \<lparr>hmErrorRate = clamp01 (fdiv (f64_of_int (chFailureCount h))
              (f64_of_int (hpFailureThreshold DefaultRouteHealthPolicy))),
            hmErrorRateKnown = True,
            hmLatencyMS = f64_of_int (chLastLatencyMS h), hmLatencyKnown = (chLastLatencyMS h > 0),
            hmTTFTMS = f64_of_int (chFirstTokenLatencyMS h),
            hmTTFTKnown = (chFirstTokenLatencyMS h > 0)\<rparr>)"

definition RouteHealthScoringMetrics ::
  "(string \<Rightarrow> string) \<Rightarrow> int \<Rightarrow> string \<Rightarrow> RouteHealthScoreMetrics goM" where
  "RouteHealthScoringMetrics nfkc channelID requestModel =
     bindM (LoadRouteHealth nfkc channelID requestModel) (\<lambda>h. retM (routeHealthScoreMetrics h))"

definition persistRouteHealthObservation ::
  "(string \<Rightarrow> string) \<Rightarrow> int \<Rightarrow> string \<Rightarrow> string \<Rightarrow> (ChannelHealth \<Rightarrow> ChannelHealth) \<Rightarrow> unit goM" where
  "persistRouteHealthObservation nfkc channelID requestModel keyScope observe =
     (if channelID \<le> 0 then throwM errHealthUnavailable
      else let m = NormalizeModel nfkc requestModel in
        transaction (
          bindM (tryM (firstM (findHealth channelID m keyScope))) (\<lambda>r.
          bindM (case r of Inr h \<Rightarrow> retM h
                 | Inl e \<Rightarrow> if errIs e ErrRecordNotFound
                     then retM (emptyHealth\<lparr>chChannelID := channelID, chModel := m, chKeyScope := keyScope\<rparr>)
                     else throwM e) (\<lambda>h.
            let h = observe h in
            if chID h = 0 then createHealth h else seqM (saveHealth h) (retM ())))))"

definition persistRouteHealthFailureWithRetryAfter ::
  "(string \<Rightarrow> string) \<Rightarrow> int \<Rightarrow> string \<Rightarrow> string \<Rightarrow> RouteHealthPolicy \<Rightarrow> int \<Rightarrow> int \<Rightarrow> unit goM" where
  "persistRouteHealthFailureWithRetryAfter nfkc channelID requestModel keyScope policy now retryAfter =
     persistRouteHealthObservation nfkc channelID requestModel keyScope
       (\<lambda>h. ObserveRouteHealthFailureWithRetryAfter h policy now retryAfter)"

definition PersistRouteHealthFailure ::
  "(string \<Rightarrow> string) \<Rightarrow> int \<Rightarrow> string \<Rightarrow> RouteHealthPolicy \<Rightarrow> int \<Rightarrow> unit goM" where
  "PersistRouteHealthFailure nfkc channelID requestModel policy now =
     persistRouteHealthObservation nfkc channelID requestModel []
       (\<lambda>h. ObserveRouteHealthFailure h policy now)"

definition PersistRouteHealthSuccessWithMetrics ::
  "(string \<Rightarrow> string) \<Rightarrow> int \<Rightarrow> string \<Rightarrow> int \<Rightarrow> int \<Rightarrow> int \<Rightarrow> unit goM" where
  "PersistRouteHealthSuccessWithMetrics nfkc channelID requestModel now latencyMS ttftMS =
     persistRouteHealthObservation nfkc channelID requestModel []
       (\<lambda>h. let h = (if latencyMS \<ge> 0 then h\<lparr>chLastLatencyMS := latencyMS\<rparr> else h);
                 h = (if ttftMS > 0 then h\<lparr>chFirstTokenLatencyMS := ttftMS\<rparr> else h)
             in ObserveRouteHealthSuccess h now)"

definition timeNow :: "int goM" where
  "timeNow = bindM nowM (\<lambda>t. retM (t * Second))"

definition observeLiveRouteError ::
  "(string \<Rightarrow> string) \<Rightarrow> int \<Rightarrow> string \<Rightarrow> string \<Rightarrow> int \<Rightarrow> string \<Rightarrow> string \<Rightarrow> bool \<Rightarrow> int \<Rightarrow> unit goM" where
  "observeLiveRouteError nfkc channelID requestModel keyScope status providerCode message streamStarted retryAfter =
     (let c = ClassifyRouteError status providerCode message streamStarted in
      if \<not> rcMarkChannelModel c \<and> \<not> rcMarkCapability c \<and> \<not> rcMarkKey c then retM ()
      else if rcMarkKey c
      then if keyScope = [] then retM ()
           else bindM timeNow (\<lambda>now. persistRouteHealthFailureWithRetryAfter nfkc channelID
                  requestModel keyScope routeKeyHealthPolicy now 0)
      else if rcMarkCapability c
      then bindM timeNow (\<lambda>now. persistRouteHealthFailureWithRetryAfter nfkc channelID
             requestModel [] routeCapabilityHealthPolicy now 0)
      else let retryAfter = (if rcClass c \<noteq> RouteErrorTransient then 0 else retryAfter) in
        bindM timeNow (\<lambda>now. persistRouteHealthFailureWithRetryAfter nfkc channelID
          requestModel [] DefaultRouteHealthPolicy now retryAfter))"

definition ObserveLiveRouteErrorForKeyWithRetryAfter ::
  "(string \<Rightarrow> string) \<Rightarrow> int \<Rightarrow> string \<Rightarrow> string \<Rightarrow> int \<Rightarrow> string \<Rightarrow> string \<Rightarrow> bool \<Rightarrow> int \<Rightarrow> unit goM" where
  "ObserveLiveRouteErrorForKeyWithRetryAfter nfkc channelID requestModel key status providerCode
       message streamStarted retryAfter =
     observeLiveRouteError nfkc channelID requestModel
       (if TrimSpace key \<noteq> [] then RouteKeyScope key else []) status providerCode message
       streamStarted retryAfter"

definition ObserveLiveRouteSuccessWithMetrics ::
  "(string \<Rightarrow> string) \<Rightarrow> int \<Rightarrow> string \<Rightarrow> int \<Rightarrow> int \<Rightarrow> unit goM" where
  "ObserveLiveRouteSuccessWithMetrics nfkc channelID requestModel latencyMS ttftMS =
     bindM timeNow (\<lambda>now.
       PersistRouteHealthSuccessWithMetrics nfkc channelID requestModel now latencyMS ttftMS)"

definition ObserveLiveRouteSuccessForKey ::
  "(string \<Rightarrow> string) \<Rightarrow> int \<Rightarrow> string \<Rightarrow> string \<Rightarrow> int \<Rightarrow> int \<Rightarrow> unit goM" where
  "ObserveLiveRouteSuccessForKey nfkc channelID requestModel key latencyMS ttftMS =
     seqM (ObserveLiveRouteSuccessWithMetrics nfkc channelID requestModel latencyMS ttftMS)
     (if TrimSpace key = [] then retM ()
      else bindM timeNow (\<lambda>now.
        let keyScope = RouteKeyScope key in
        bindM (tryM (firstM (findHealth channelID (NormalizeModel nfkc requestModel) keyScope))) (\<lambda>r.
          case r of
            Inl e \<Rightarrow> if errIs e ErrRecordNotFound then retM () else throwM e
          | Inr existing \<Rightarrow> persistRouteHealthObservation nfkc channelID requestModel keyScope
              (\<lambda>h. ObserveRouteHealthSuccess h now))))"

section \<open>Keys\<close>

definition ChannelStatusEnabled :: int where "ChannelStatusEnabled = 1"

definition enabledKeyIndexes :: "Channel \<Rightarrow> string list \<Rightarrow> int list" where
  "enabledKeyIndexes channel keys =
     filter (\<lambda>i. (case cMultiKeyStatusList channel i of None \<Rightarrow> ChannelStatusEnabled
                  | Some configured \<Rightarrow> configured) = ChannelStatusEnabled)
       (map int [0..<length keys])"

definition GetEnabledKeyIndexes :: "Channel \<Rightarrow> int list" where
  "GetEnabledKeyIndexes channel =
     (if \<not> cIsMultiKey channel then [0] else enabledKeyIndexes channel (cKeys channel))"

definition UnavailableRouteKeyIndexes ::
  "(string \<Rightarrow> string) \<Rightarrow> Channel option \<Rightarrow> string \<Rightarrow> int \<Rightarrow> int list goM" where
  "UnavailableRouteKeyIndexes nfkc ch requestModel now =
     (case ch of None \<Rightarrow> retM []
      | Some channel \<Rightarrow>
        bindM (findM (\<lambda>d. filter (\<lambda>h. chChannelID h = cId channel \<and>
                 chModel h = NormalizeModel nfkc requestModel \<and> chKeyScope h \<noteq> []) (healths d))) (\<lambda>rows.
        let byScope = fold (\<lambda>h m. m(chKeyScope h \<mapsto> h)) rows Map.empty in
        retM (map (int \<circ> fst) (filter (\<lambda>(index, key).
            case byScope (RouteKeyScope key) of None \<Rightarrow> False
            | Some health \<Rightarrow> \<not> CanUseRouteHealth health now)
          (enumerate 0 (cKeys channel))))))"

definition RouteChannelHasAvailableKey ::
  "(string \<Rightarrow> string) \<Rightarrow> Channel option \<Rightarrow> string \<Rightarrow> int \<Rightarrow> bool goM" where
  "RouteChannelHasAvailableKey nfkc ch requestModel now =
     (case ch of None \<Rightarrow> retM False
      | Some channel \<Rightarrow>
        bindM (UnavailableRouteKeyIndexes nfkc ch requestModel now) (\<lambda>excluded.
          retM (\<exists>index \<in> set (GetEnabledKeyIndexes channel). index \<notin> set excluded)))"

section \<open>Backoff\<close>

definition routeMinInt :: "int \<Rightarrow> int \<Rightarrow> int" where
  "routeMinInt left right = (if left < right then left else right)"

definition DefaultRetryBackoff :: int where "DefaultRetryBackoff = 250000000"

definition DefaultRetryBackoffMax :: int where "DefaultRetryBackoffMax = 2000000000"

text \<open>The local part of \<open>RouteBackoff\<close>: full jitter on the exponential step.\<close>

definition jitteredDelay :: "int \<Rightarrow> f64 \<Rightarrow> int" where
  "jitteredDelay attempt random01 =
     (let attempt = (if attempt < 0 then 0 else attempt);
          base = DefaultRetryBackoff * 2 ^ nat (routeMinInt attempt 4);
          base = (if base > DefaultRetryBackoffMax then DefaultRetryBackoffMax else base);
          random01 = (if flt random01 (FFin 0) then FFin 0 else random01);
          random01 = (if flt (FFin 1) random01 then FFin 1 else random01)
      in case fmul (f64_of_int base) random01 of FFin q \<Rightarrow> trunc_rat q | _ \<Rightarrow> 0)"

definition RouteBackoff :: "int \<Rightarrow> int \<Rightarrow> int \<Rightarrow> f64 \<Rightarrow> int" where
  "RouteBackoff attempt retryAfter remaining random01 =
     (let delay = jitteredDelay attempt random01;
          delay = (if retryAfter > delay then retryAfter else delay)
      in if remaining > 0 \<and> delay > remaining then remaining else delay)"

section \<open>Classification and budget\<close>

lemma RouteKeyScope_shape: "length (RouteKeyScope key) = 68 \<and> RouteKeyScope key \<noteq> []"
proof -
  have "length (concat (map hex32 ws)) = 8 * length ws" for ws :: "w32 list"
    by (induction ws) simp_all
  then show ?thesis by (simp add: RouteKeyScope_def)
qed

text \<open>
  An error has at most one health scope: the classification marks the key, the capability
  or the channel and model, never two of them, and it marks one exactly when it allows a switch
  to another resource.  An error after the stream has started marks and allows nothing.
\<close>

theorem ClassifyRouteError_one_scope:
  "let c = ClassifyRouteError status providerCode message streamStarted in
   \<not> (rcMarkKey c \<and> rcMarkCapability c) \<and> \<not> (rcMarkKey c \<and> rcMarkChannelModel c) \<and>
   \<not> (rcMarkCapability c \<and> rcMarkChannelModel c) \<and>
   rcFailoverable c = (rcMarkKey c \<or> rcMarkCapability c \<or> rcMarkChannelModel c) \<and>
   rcFailoverable c = (CanRouteFailover c False False) \<and>
   rcRetryable c \<le> rcFailoverable c \<and> rcFailoverable c \<le> (\<not> streamStarted)"
  by (simp add: ClassifyRouteError_def CanRouteFailover_def classOnly_def Let_def)

end
