(* ===== verification/Route_Breaker.thy ===== *)
theory Route_Breaker
  imports Route_Health
begin

text \<open>
  What the circuit breaker of \<open>Route_Health\<close> promises.  \<open>healthsOk\<close> is the invariant of the table
  and \<open>fencing\<close> the preorder every operation respects: rows stay, their epochs never fall, and an
  unchanged epoch means an unchanged state and cooldown, which is what the lease recheck relies
  on.  A half-open probe is exclusive even against requests that decide on stale reads.  A probe
  that expires, however, leaves the row in a state no later admission leaves again.
\<close>

section \<open>The invariant of the table\<close>

definition scopeOf :: "ChannelHealth \<Rightarrow> int \<times> string \<times> string" where
  "scopeOf h = (chChannelID h, chModel h, chKeyScope h)"

definition healthOk :: "ChannelHealth \<Rightarrow> bool" where
  "healthOk h \<longleftrightarrow> 0 < chID h \<and> 1 \<le> chHealthEpoch h \<and>
     chState h \<in> {RouteHealthStateClosed, RouteHealthStateOpen, RouteHealthStateHalfOpen} \<and>
     (chState h = RouteHealthStateClosed \<longrightarrow> chCooldownUntil h = 0)"

definition healthsOk :: "db \<Rightarrow> bool" where
  "healthsOk d \<longleftrightarrow> distinct (map chID (healths d)) \<and> distinct (map scopeOf (healths d)) \<and>
     (\<forall>h \<in> set (healths d). healthOk h)"

text \<open>The later version of a row.\<close>

definition fences :: "ChannelHealth \<Rightarrow> ChannelHealth \<Rightarrow> bool" where
  "fences h h' \<longleftrightarrow> chID h' = chID h \<and> scopeOf h' = scopeOf h \<and> chHealthEpoch h \<le> chHealthEpoch h' \<and>
     (chHealthEpoch h' = chHealthEpoch h \<longrightarrow>
        chState h' = chState h \<and> chCooldownUntil h' = chCooldownUntil h)"

definition healthFrame :: "db \<Rightarrow> db \<Rightarrow> bool" where
  "healthFrame d d' \<longleftrightarrow> (healthsOk d \<longrightarrow>
     healthsOk d' \<and> (\<forall>h \<in> set (healths d). \<exists>h' \<in> set (healths d'). fences h h'))"

lemma fences_refl [simp]: "fences h h"
  by (simp add: fences_def)

lemma fences_trans: "fences h h1 \<Longrightarrow> fences h1 h2 \<Longrightarrow> fences h h2"
  by (auto simp: fences_def)

lemma healthFrame_refl: "healthFrame d d"
  unfolding healthFrame_def using fences_refl by blast

lemma healthFrame_trans: "healthFrame d d1 \<Longrightarrow> healthFrame d1 d2 \<Longrightarrow> healthFrame d d2"
  unfolding healthFrame_def using fences_trans by meson

interpretation fencing: db_frame healthFrame
  by unfold_locales (fact healthFrame_refl, fact healthFrame_trans)

lemma healthFrame_map:
  assumes "\<And>h. healthsOk d \<Longrightarrow> h \<in> set (healths d) \<Longrightarrow> healthOk (g h) \<and> fences h (g h)"
  shows "healthFrame d (d\<lparr>healths := map g (healths d)\<rparr>)"
  unfolding healthFrame_def
proof
  assume ok: "healthsOk d"
  then have keys: "map (chID \<circ> g) (healths d) = map chID (healths d)"
    "map (scopeOf \<circ> g) (healths d) = map scopeOf (healths d)"
    using assms by (simp_all add: fences_def)
  from ok assms show "healthsOk (d\<lparr>healths := map g (healths d)\<rparr>) \<and>
      (\<forall>h \<in> set (healths d). \<exists>h' \<in> set (healths (d\<lparr>healths := map g (healths d)\<rparr>)). fences h h')"
    by (auto simp: healthsOk_def keys simp del: map_eq_conv)
qed

lemma framed_updHealth:
  assumes "\<And>h. healthOk h \<Longrightarrow> P h \<Longrightarrow> healthOk (f h) \<and> fences h (f h)"
  shows "framed (\<lambda>w w'. healthFrame (db w) (db w')) (updHealth i P f)"
  unfolding updHealth_def
proof (rule fencing.framed_db_execM)
  fix d
  have "healthFrame d (d\<lparr>healths := map (\<lambda>h. if chID h = i \<and> P h then f h else h) (healths d)\<rparr>)"
    by (rule healthFrame_map) (auto simp: healthsOk_def assms)
  then show "healthFrame d (snd (int (length (filter (\<lambda>h. chID h = i \<and> P h \<and>
      (changedRowsOnly d \<longrightarrow> f h \<noteq> h)) (healths d))),
      d\<lparr>healths := map (\<lambda>h. if chID h = i \<and> P h then f h else h) (healths d)\<rparr>))"
    by simp
qed

section \<open>Admission\<close>

lemma framed_probes:
  "framed (\<lambda>w w'. healthFrame (db w) (db w')) (rearmProbe h now)"
  "framed (\<lambda>w w'. healthFrame (db w) (db w')) (claimProbe h now)"
  unfolding rearmProbe_def claimProbe_def
  by (rule framed_updHealth; simp add: healthOk_def fences_def scopeOf_def)+

lemma framed_load:
  "framed (\<lambda>w w'. healthFrame (db w) (db w')) (loadRouteHealthScope nfkc c m k)"
  unfolding loadRouteHealthScope_def by (intro fencing.framed_db_intros)

lemma framed_admit: "framed (\<lambda>w w'. healthFrame (db w) (db w')) (admitProbe h now)"
  unfolding admitProbe_def by (intro fencing.framed_db_intros framed_probes)

lemma framed_admitLoop: "framed (\<lambda>w w'. healthFrame (db w) (db w')) (admitLoop n nfkc c m k now)"
proof (induction n)
  case (Suc n)
  show ?case
    by (simp only: admitLoop.simps) (intro fencing.framed_db_intros framed_load framed_admit Suc.IH)
qed (simp add: fencing.framed_retM)

section \<open>Observations\<close>

text \<open>What an observer does to a stored row, and to the zero row of a new scope.\<close>

definition observer :: "(ChannelHealth \<Rightarrow> ChannelHealth) \<Rightarrow> bool" where
  "observer f \<longleftrightarrow> (\<forall>h. chID (f h) = chID h \<and> scopeOf (f h) = scopeOf h \<and>
     (healthOk h \<longrightarrow> healthOk (f h) \<and> fences h (f h)) \<and>
     (chID h = 0 \<and> chState h = [] \<and> chHealthEpoch h = 0 \<and> chCooldownUntil h = 0 \<longrightarrow>
        (\<forall>i > 0. healthOk ((f h)\<lparr>chID := i\<rparr>))))"

lemma NormalizeHealth_fields [simp]:
  "chID (NormalizeHealth now h) = chID h" "scopeOf (NormalizeHealth now h) = scopeOf h"
  "chFailureCount (NormalizeHealth now h) = chFailureCount h"
  "chCooldownUntil (NormalizeHealth now h) = chCooldownUntil h"
  "chState (NormalizeHealth now h) = (if chState h = [] then RouteHealthStateClosed else chState h)"
  "chHealthEpoch (NormalizeHealth now h) = (if chHealthEpoch h \<le> 0 then 1 else chHealthEpoch h)"
  by (simp_all add: NormalizeHealth_def scopeOf_def Let_def)

lemma scopeOf_upd [simp]:
  "scopeOf (h\<lparr>chState := s\<rparr>) = scopeOf h" "scopeOf (h\<lparr>chFailureCount := n\<rparr>) = scopeOf h"
  "scopeOf (h\<lparr>chCooldownUntil := n\<rparr>) = scopeOf h" "scopeOf (h\<lparr>chHealthEpoch := n\<rparr>) = scopeOf h"
  "scopeOf (h\<lparr>chUpdatedAt := n\<rparr>) = scopeOf h" "scopeOf (h\<lparr>chLastLatencyMS := n\<rparr>) = scopeOf h"
  "scopeOf (h\<lparr>chFirstTokenLatencyMS := n\<rparr>) = scopeOf h" "scopeOf (h\<lparr>chID := n\<rparr>) = scopeOf h"
  by (simp_all add: scopeOf_def)

lemma observer_failure:
  "observer (\<lambda>h. ObserveRouteHealthFailureWithRetryAfter h policy now retryAfter)"
  unfolding observer_def ObserveRouteHealthFailureWithRetryAfter_def Let_def
  by (simp add: healthOk_def fences_def)

lemma observer_success: "observer (\<lambda>h. ObserveRouteHealthSuccess h now)"
  unfolding observer_def ObserveRouteHealthSuccess_def Let_def
  by (simp add: healthOk_def fences_def)

text \<open>Recording the latencies first changes nothing the breaker looks at.\<close>

lemma observer_metrics:
  "observer (\<lambda>h. let h = (if latencyMS \<ge> 0 then h\<lparr>chLastLatencyMS := latencyMS\<rparr> else h);
                     h = (if ttftMS > 0 then h\<lparr>chFirstTokenLatencyMS := ttftMS\<rparr> else h)
                 in ObserveRouteHealthSuccess h now)"
  unfolding observer_def ObserveRouteHealthSuccess_def Let_def
  by (simp add: healthOk_def fences_def)

lemma findHealth_Some:
  "findHealth c m k d = Some h \<Longrightarrow> h \<in> set (healths d) \<and> scopeOf h = (c, m, k)"
  by (auto simp: findHealth_def find_Some_iff inScope_def scopeOf_def)

lemma findHealth_None:
  "findHealth c m k d = None \<Longrightarrow> (c, m, k) \<notin> scopeOf ` set (healths d)"
  by (auto simp: findHealth_def find_None_iff inScope_def scopeOf_def)

lemma nextHealthID_fresh: "0 < nextHealthID d \<and> (\<forall>h \<in> set (healths d). chID h < nextHealthID d)"
proof -
  have "n \<le> fold (\<lambda>h n. max n (chID h + 1)) hs n \<and>
      (\<forall>h \<in> set hs. chID h < fold (\<lambda>h n. max n (chID h + 1)) hs n)" for hs :: "ChannelHealth list" and n
  proof (induction hs arbitrary: n)
    case (Cons h hs)
    show ?case using Cons.IH [of "max n (chID h + 1)"] by auto
  qed simp
  from this [of 1 "healths d"] show ?thesis by (auto simp: nextHealthID_def)
qed

lemma wp_createHealth_frame:
  assumes "chID h = 0" "\<forall>i > 0. healthOk (h\<lparr>chID := i\<rparr>)"
  shows "wp (createHealth h) (\<lambda>_ w'. healthFrame (db w) (db w')) (\<lambda>_ _. True) w"
proof -
  have "healthFrame d (d\<lparr>healths := healths d @ [h\<lparr>chID := nextHealthID d\<rparr>]\<rparr>)"
    if "find (inScope (chChannelID h) (chModel h) (chKeyScope h)) (healths d) = None" for d
  proof -
    have "scopeOf h \<notin> scopeOf ` set (healths d)"
      using findHealth_None [of "chChannelID h" "chModel h" "chKeyScope h" d] that
      by (simp add: findHealth_def scopeOf_def)
    then show ?thesis
      using assms nextHealthID_fresh [of d]
      by (auto simp: healthFrame_def healthsOk_def scopeOf_def intro: fences_refl)
  qed
  then show ?thesis
    unfolding createHealth_def wp_createM by (auto split: fate.split)
qed

lemma wp_saveHealth_frame:
  assumes "h \<in> set (healths (db w))" "chID h' = chID h" "healthsOk (db w) \<Longrightarrow> healthOk h' \<and> fences h h'"
  shows "wp (saveHealth h') (\<lambda>_ w'. healthFrame (db w) (db w')) (\<lambda>_ _. True) w"
proof -
  have "healthFrame (db w) ((db w)\<lparr>healths :=
      map (\<lambda>r. if chID r = chID h' then h'\<lparr>chUpdatedAt := clock w\<rparr> else r) (healths (db w))\<rparr>)"
  proof (rule healthFrame_map)
    fix r
    assume ok: "healthsOk (db w)" and r: "r \<in> set (healths (db w))"
    show "healthOk (if chID r = chID h' then h'\<lparr>chUpdatedAt := clock w\<rparr> else r) \<and>
        fences r (if chID r = chID h' then h'\<lparr>chUpdatedAt := clock w\<rparr> else r)"
    proof (cases "chID r = chID h'")
      case True
      with r ok assms(1,2) have "r = h"
        unfolding healthsOk_def by (auto dest: distinct_map [THEN iffD1, THEN conjunct2, THEN inj_onD])
      with assms(3) [OF ok] True show ?thesis
        by (simp add: healthOk_def fences_def scopeOf_def)
    next
      case False
      with ok r show ?thesis by (simp add: healthsOk_def)
    qed
  qed
  then show ?thesis
    by (simp add: wp_def saveHealth_def execM_def dbM_def split: fate.split)
qed

lemma wp_trivial: "(\<And>x s. Q x s) \<Longrightarrow> (\<And>e s. E e s) \<Longrightarrow> wp m Q E s"
  by (simp add: wp_def split: prod.split sum.split)

lemma framed_persist:
  assumes "observer observe"
  shows "framed (\<lambda>w w'. healthFrame (db w) (db w')) (persistRouteHealthObservation nfkc c m k observe)"
proof (cases "c \<le> 0")
  case True
  then show ?thesis by (simp add: persistRouteHealthObservation_def fencing.framed_throwM)
next
  case False
  let ?m = "NormalizeModel nfkc m"
  let ?zero = "emptyHealth\<lparr>chChannelID := c, chModel := ?m, chKeyScope := k\<rparr>"
  let ?store = "\<lambda>h. if chID h = 0 then createHealth h else seqM (saveHealth h) (retM ())"
  let ?Q = "\<lambda>w _ w'. healthFrame (db w) (db w')"
  have stored: "wp (?store (observe h)) (?Q w) (\<lambda>_ _. True) w"
    if "findHealth c ?m k (db w) = Some h" for h w
  proof (cases "healthsOk (db w)")
    case True
    have h: "h \<in> set (healths (db w))" using findHealth_Some [OF that] by simp
    with True have ok: "healthOk h" by (simp add: healthsOk_def)
    then have "chID (observe h) \<noteq> 0" "healthOk (observe h) \<and> fences h (observe h)" "chID (observe h) = chID h"
      using assms by (auto simp: observer_def healthOk_def)
    then show ?thesis
      using wp_saveHealth_frame [OF h] by (simp add: wp_seqM wp_retM)
  qed (simp add: healthFrame_def wp_trivial)
  have fresh: "wp (?store (observe ?zero)) (?Q w) (\<lambda>_ _. True) w" for w
    using assms wp_createHealth_frame [of "observe ?zero" w]
    by (simp add: observer_def emptyHealth_def)
  have "wp (persistRouteHealthObservation nfkc c m k observe) (?Q w) (?Q w) w" for w
    unfolding persistRouteHealthObservation_def Let_def if_not_P [OF False]
  proof (rule fencing.wp_db_transaction, goal_cases)
    case 1
    show ?case
    proof (cases "findHealth c ?m k (db w)")
      case None
      then show ?thesis using fresh [of "tick (tick w)"]
        by (simp add: wp_bindM wp_tryM wp_firstM wp_retM wp_throwM)
    next
      case (Some h)
      then show ?thesis using stored [of "tick (tick w)" h]
        by (simp add: wp_bindM wp_tryM wp_firstM wp_retM wp_throwM)
    qed
  qed
  then show ?thesis by (simp add: framed_wp)
qed

lemma framed_observations:
  "framed (\<lambda>w w'. healthFrame (db w) (db w'))
     (persistRouteHealthFailureWithRetryAfter nfkc c m k policy now retryAfter)"
  "framed (\<lambda>w w'. healthFrame (db w) (db w'))
     (PersistRouteHealthSuccessWithMetrics nfkc c m now latencyMS ttftMS)"
  unfolding persistRouteHealthFailureWithRetryAfter_def PersistRouteHealthSuccessWithMetrics_def
  by (intro framed_persist observer_failure observer_metrics)+

lemma framed_timeNow: "framed (\<lambda>w w'. healthFrame (db w) (db w')) timeNow"
  unfolding timeNow_def by (intro fencing.framed_db_intros)

section \<open>The epoch fences the state\<close>

text \<open>The calls the relay makes on the breaker; \<open>now\<close> is the caller's clock.\<close>

datatype health_call =
    CallUsable int string int
  | CallKeyUsable int string string int
  | CallError int string string int string string bool int
  | CallSuccess int string string int int

fun healthCall :: "(string \<Rightarrow> string) \<Rightarrow> health_call \<Rightarrow> unit goM" where
  "healthCall nfkc (CallUsable c m now) = ignoreM (RouteHealthUsable nfkc c m now)"
| "healthCall nfkc (CallKeyUsable c m key now) = ignoreM (RouteKeyHealthUsable nfkc c m key now)"
| "healthCall nfkc (CallError c m key status code message started retryAfter) =
     ignoreM (ObserveLiveRouteErrorForKeyWithRetryAfter nfkc c m key status code message started retryAfter)"
| "healthCall nfkc (CallSuccess c m key latencyMS ttftMS) =
     ignoreM (ObserveLiveRouteSuccessForKey nfkc c m key latencyMS ttftMS)"

definition healthCalls :: "(string \<Rightarrow> string) \<Rightarrow> health_call list \<Rightarrow> unit goM" where
  "healthCalls nfkc calls = foldM (\<lambda>_. healthCall nfkc) () calls"

lemma framed_usable:
  "framed (\<lambda>w w'. healthFrame (db w) (db w')) (routeHealthScopeUsable nfkc c m k now)"
  unfolding routeHealthScopeUsable_def by (rule framed_admitLoop)

lemma framed_healthCall: "framed (\<lambda>w w'. healthFrame (db w) (db w')) (healthCall nfkc call)"
proof (cases call)
  case (CallError c m key status code message started retryAfter)
  show ?thesis
    unfolding CallError healthCall.simps ObserveLiveRouteErrorForKeyWithRetryAfter_def
      observeLiveRouteError_def
    by (intro fencing.framed_db_intros framed_timeNow framed_observations)
next
  case (CallSuccess c m key latencyMS ttftMS)
  show ?thesis
    unfolding CallSuccess healthCall.simps ObserveLiveRouteSuccessForKey_def
      ObserveLiveRouteSuccessWithMetrics_def
    by (intro fencing.framed_db_intros framed_timeNow framed_observations framed_persist observer_success)
qed (simp_all add: RouteHealthUsable_def RouteKeyHealthUsable_def fencing.framed_ignoreM framed_usable
    fencing.framed_retM)

text \<open>
  C26.  The health epoch is a fence.  Whatever the relay calls, in whatever order and with
  whatever statements failing or losing their reply, the table stays well formed, a stored row
  is never lost and its epoch never falls; and a row whose epoch is what it was has the state
  and the cooldown it had, so a lease recheck that compares epochs compares breaker states.
\<close>

theorem health_epoch_fences_state:
  assumes "healthsOk (db w)"
    and "healthCalls nfkc calls w = (r, w')"
    and "h \<in> set (healths (db w))"
  shows "healthsOk (db w') \<and> (\<exists>h' \<in> set (healths (db w')). fences h h')"
proof -
  have "framed (\<lambda>w w'. healthFrame (db w) (db w')) (healthCalls nfkc calls)"
    unfolding healthCalls_def by (intro fencing.framed_foldM framed_healthCall)
  from framed_snd [OF this assms(2)] assms(1,3) show ?thesis by (simp add: healthFrame_def)
qed

definition breakerRow :: "string \<Rightarrow> int \<Rightarrow> ChannelHealth" where
  "breakerRow state cooldown = emptyHealth\<lparr>chID := 1, chChannelID := 5, chModel := ''gpt'',
     chState := state, chFailureCount := 3, chCooldownUntil := cooldown, chHealthEpoch := 2\<rparr>"

definition breakerWorld :: "ChannelHealth \<Rightarrow> world" where
  "breakerWorld h = sampleWorld\<lparr>db := emptyDB\<lparr>healths := [h]\<rparr>\<rparr>"

theorem health_epoch_fences_state_witness:
  "let h = breakerRow RouteHealthStateOpen 100; w = breakerWorld h;
       calls = [CallUsable 5 ''GPT'' (200 * Second), CallSuccess 5 ''gpt'' [] 10 0];
       w' = snd (healthCalls id calls w) in
   healthsOk (db w) \<and> h \<in> set (healths (db w)) \<and> healthsOk (db w') \<and>
   (\<exists>h' \<in> set (healths (db w')). fences h h' \<and> chHealthEpoch h' = 4)"
proof -
  define h where "h = breakerRow RouteHealthStateOpen 100"
  define calls where "calls = [CallUsable 5 ''GPT'' (200 * Second), CallSuccess 5 ''gpt'' [] 10 0]"
  obtain r w' where run: "healthCalls id calls (breakerWorld h) = (r, w')" by fastforce
  have ok: "healthsOk (db (breakerWorld h))" "h \<in> set (healths (db (breakerWorld h)))"
    by (simp_all add: breakerWorld_def healthsOk_def h_def breakerRow_def emptyHealth_def healthOk_def)
  have "map chHealthEpoch (healths (db (snd (healthCalls id calls (breakerWorld h))))) = [4]"
    unfolding calls_def h_def by code_simp
  with run have "\<forall>x \<in> set (healths (db w')). chHealthEpoch x = 4" by auto
  with health_epoch_fences_state [OF ok(1) run ok(2)] ok run show ?thesis
    unfolding h_def [symmetric] calls_def [symmetric] Let_def by auto
qed

section \<open>A probe is exclusive\<close>

lemma wp_updHealth:
  "wp (updHealth i P f) Q E w =
     (let d' = (db w)\<lparr>healths := map (\<lambda>h. if chID h = i \<and> P h then f h else h) (healths (db w))\<rparr> in
      case fateNow w of
        FOk \<Rightarrow> Q (int (length (filter (\<lambda>h. chID h = i \<and> P h \<and>
                  (changedRowsOnly (db w) \<longrightarrow> f h \<noteq> h)) (healths (db w))))) ((tick w)\<lparr>db := d'\<rparr>)
      | FFail \<Rightarrow> E ErrDB (tick w)
      | FLost \<Rightarrow> E ErrDB ((tick w)\<lparr>db := d'\<rparr>))"
  by (simp add: updHealth_def wp_execM Let_def split: fate.split)

text \<open>An update whose condition no row meets.\<close>

lemma updHealth_idle:
  assumes "\<forall>r \<in> set (healths (db w)). chID r = i \<longrightarrow> \<not> P r"
  shows "wp (updHealth i P f) (\<lambda>n w'. n = 0 \<and> healths (db w') = healths (db w))
           (\<lambda>_ w'. healths (db w') = healths (db w)) w"
proof -
  have "map (\<lambda>h. if chID h = i \<and> P h then f h else h) (healths (db w)) = healths (db w)"
    using assms by (intro map_idI) auto
  moreover have "filter (\<lambda>h. chID h = i \<and> P h \<and> (changedRowsOnly (db w) \<longrightarrow> f h \<noteq> h)) (healths (db w)) = []"
    using assms by (auto simp: filter_empty_conv)
  ultimately show ?thesis unfolding wp_updHealth Let_def by (simp split: fate.split)
qed

lemma claimed_row:
  assumes ids: "distinct (map chID (healths (db w)))"
    and "admitProbe h now w = (Inr (Some (True, e)), w1)" "chState h = RouteHealthStateOpen"
  shows "\<forall>r \<in> set (healths (db w1)). chID r = chID h \<longrightarrow>
    chState r = RouteHealthStateHalfOpen \<and>
    chCooldownUntil r = Unix (now + hpCooldown DefaultRouteHealthPolicy)"
proof -
  let ?P = "\<lambda>r. chState r = RouteHealthStateOpen \<and> chCooldownUntil r > 0 \<and> chCooldownUntil r \<le> Unix now"
  have same: "r' = r" if "r \<in> set (healths (db w))" "r' \<in> set (healths (db w))" "chID r = chID r'" for r r'
    using ids that by (auto dest: distinct_map [THEN iffD1, THEN conjunct2, THEN inj_onD])
  have unique: "\<forall>r' \<in> set (healths (db w)). chID r' = i \<longrightarrow> ?P r'"
    if "int (length (filter (\<lambda>x. chID x = i \<and> ?P x \<and> X x) (healths (db w)))) = 1" for i X
  proof -
    from that have "filter (\<lambda>x. chID x = i \<and> ?P x \<and> X x) (healths (db w)) \<noteq> []" by force
    then obtain r where r: "r \<in> set (healths (db w))" "chID r = i" "?P r"
      unfolding filter_empty_conv by blast
    with same [OF r(1)] show ?thesis by metis
  qed
  let ?claimed = "\<lambda>w1. \<forall>r \<in> set (healths (db w1)). chID r = chID h \<longrightarrow>
    chState r = RouteHealthStateHalfOpen \<and>
    chCooldownUntil r = Unix (now + hpCooldown DefaultRouteHealthPolicy)"
  have claim: "wp (claimProbe h now) (\<lambda>n w1. n = 1 \<longrightarrow> ?claimed w1) (\<lambda>_ _. True) w"
    unfolding claimProbe_def wp_updHealth Let_def
  proof (cases "fateNow w", goal_cases)
    case 1
    show ?case unfolding 1 fate.case
    proof (rule impI, drule unique)
      assume "\<forall>r \<in> set (healths (db w)). chID r = chID h \<longrightarrow> ?P r"
      then show "?claimed ((tick w)\<lparr>db := (db w)\<lparr>healths := map (\<lambda>r. if chID r = chID h \<and> ?P r
          then r\<lparr>chState := RouteHealthStateHalfOpen,
            chCooldownUntil := Unix (now + hpCooldown DefaultRouteHealthPolicy),
            chHealthEpoch := chHealthEpoch r + 1, chUpdatedAt := Unix now\<rparr> else r) (healths (db w))\<rparr>\<rparr>)"
        by auto
    qed
  qed simp_all
  have "wp (admitProbe h now) (\<lambda>x w1. x = Some (True, e) \<longrightarrow> ?claimed w1) (\<lambda>_ _. True) w"
    unfolding admitProbe_def by (simp add: assms(3) wp_bindM wp_retM) (auto simp: wp_retM intro!: wp_mono [OF claim])
  from wp_Inr [OF this assms(2)] show ?thesis by simp
qed

text \<open>
  C27.  A half-open probe is exclusive.  Once a request has claimed the probe of an open row, no
  other request is admitted during the probe window, not even one that decides on a row it read
  before the claim: the conditional update finds no open row and leaves the table as it is.
\<close>

theorem probe_is_exclusive:
  assumes "distinct (map chID (healths (db w)))"
    and "admitProbe h now w = (Inr (Some (True, e)), w1)" "chState h = RouteHealthStateOpen"
    and "healths (db w2) = healths (db w1)"
    and "chID stale = chID h" "chState stale \<noteq> []" "chState stale \<noteq> RouteHealthStateClosed"
    and "Unix now' < Unix (now + hpCooldown DefaultRouteHealthPolicy)"
    and "admitProbe stale now' w2 = (r, w3)"
  shows "healths (db w3) = healths (db w1) \<and> (\<forall>e'. r \<noteq> Inr (Some (True, e')))"
proof -
  have rows: "\<forall>r \<in> set (healths (db w2)). chID r = chID stale \<longrightarrow>
      chState r = RouteHealthStateHalfOpen \<and> Unix now' < chCooldownUntil r"
    using claimed_row [OF assms(1-3)] assms(4,5,8) by simp
  have idle:
    "wp (rearmProbe stale now') (\<lambda>n w'. n = 0 \<and> healths (db w') = healths (db w2))
       (\<lambda>_ w'. healths (db w') = healths (db w2)) w2"
    "wp (claimProbe stale now') (\<lambda>n w'. n = 0 \<and> healths (db w') = healths (db w2))
       (\<lambda>_ w'. healths (db w') = healths (db w2)) w2"
    unfolding rearmProbe_def claimProbe_def by (rule updHealth_idle; use rows in force)+
  have "wp (admitProbe stale now')
      (\<lambda>x w'. healths (db w') = healths (db w2) \<and> (\<forall>e'. x \<noteq> Some (True, e')))
      (\<lambda>_ w'. healths (db w') = healths (db w2)) w2"
    unfolding admitProbe_def
    by (auto simp: wp_bindM wp_retM assms(6,7) intro!: wp_mono [OF idle(1)] wp_mono [OF idle(2)])
  from wp_result [OF this assms(9)] assms(4) show ?thesis by (cases r) auto
qed

theorem probe_is_exclusive_witness:
  "let h = breakerRow RouteHealthStateOpen 100; w = breakerWorld h;
       w1 = snd (admitProbe h (100 * Second) w) in
   fst (admitProbe h (100 * Second) w) = Inr (Some (True, 3)) \<and>
   healths (db (snd (admitProbe h (129 * Second) w1))) = healths (db w1) \<and>
   (\<forall>e'. fst (admitProbe h (129 * Second) w1) \<noteq> Inr (Some (True, e')))"
proof -
  let ?h = "breakerRow RouteHealthStateOpen 100"
  let ?w = "breakerWorld ?h"
  have "fst (admitProbe ?h (100 * Second) ?w) = Inr (Some (True, 3))" by code_simp
  moreover have "Unix (129 * Second) < Unix (100 * Second + hpCooldown DefaultRouteHealthPolicy)"
    by code_simp
  moreover have "distinct (map chID (healths (db ?w)))" by (simp add: breakerWorld_def)
  ultimately show ?thesis
    using probe_is_exclusive [of ?w ?h "100 * Second" 3 "snd (admitProbe ?h (100 * Second) ?w)"
      "snd (admitProbe ?h (100 * Second) ?w)" ?h "129 * Second"]
    by (simp add: Let_def prod_eq_iff breakerRow_def)
qed

section \<open>A probe that expires\<close>

text \<open>The row of the scope waits for an admission that never comes.\<close>

definition parked :: "int \<Rightarrow> int \<Rightarrow> string \<Rightarrow> string \<Rightarrow> db \<Rightarrow> bool" where
  "parked T c m k d = (case findHealth c m k d of None \<Rightarrow> False
     | Some h \<Rightarrow> chState h = RouteHealthStateHalfOpen \<and> chCooldownUntil h \<le> T \<or>
         chState h = RouteHealthStateOpen \<and> chCooldownUntil h \<le> 0)"

lemma find_map: "(\<And>x. P (g x) = P x) \<Longrightarrow> find P (map g xs) = map_option g (find P xs)"
  by (induction xs) auto

lemma findHealth_map:
  assumes "\<And>x. scopeOf (g x) = scopeOf x"
  shows "findHealth c m k (d\<lparr>healths := map g (healths d)\<rparr>) = map_option g (findHealth c m k d)"
proof -
  have "inScope c m k (g x) = inScope c m k x" for x
    using assms [of x] by (auto simp: inScope_def scopeOf_def)
  then show ?thesis by (simp add: findHealth_def find_map)
qed

lemma rearm_parked:
  assumes "parked T c m k (db w)"
  shows "wp (rearmProbe h now) (\<lambda>_ w'. parked T c m k (db w')) (\<lambda>_ w'. parked T c m k (db w')) w"
proof -
  have "parked T c m k ((db w)\<lparr>healths := map (\<lambda>r. if chID r = i \<and> chState r = RouteHealthStateHalfOpen \<and>
      chCooldownUntil r > 0 \<and> chCooldownUntil r \<le> Unix now
      then r\<lparr>chState := RouteHealthStateOpen, chCooldownUntil := 0,
        chHealthEpoch := chHealthEpoch r + 1, chUpdatedAt := Unix now\<rparr> else r) (healths (db w))\<rparr>)" for i
    using assms unfolding parked_def by (auto simp: findHealth_map split: option.splits)
  with assms show ?thesis
    unfolding rearmProbe_def wp_updHealth Let_def by (simp split: fate.split)
qed

lemma admit_parked:
  assumes "parked T c m k (db w)" "findHealth c m k (db w) = Some h" "T \<le> Unix now"
  shows "wp (admitProbe h now) (\<lambda>r w'. parked T c m k (db w') \<and> (\<forall>e. r \<noteq> Some (True, e)))
    (\<lambda>_ w'. parked T c m k (db w')) w"
  using assms unfolding admitProbe_def
  by (auto simp: wp_bindM wp_retM parked_def [of T c m k "db w"] intro!: wp_mono [OF rearm_parked [OF assms(1)]])

lemma admitLoop_parked:
  assumes "parked T c (NormalizeModel nfkc m) k (db w)" "T \<le> Unix now"
  shows "wp (admitLoop n nfkc c m k now)
    (\<lambda>r w'. parked T c (NormalizeModel nfkc m) k (db w') \<and> (\<forall>e. r \<noteq> (True, e)))
    (\<lambda>_ w'. parked T c (NormalizeModel nfkc m) k (db w')) w"
  using assms(1)
proof (induction n arbitrary: w)
  case (Suc n)
  obtain h where h: "findHealth c (NormalizeModel nfkc m) k (db w) = Some h"
    using Suc.prems by (auto simp: parked_def split: option.splits)
  have "wp (admitProbe h now)
      (\<lambda>r. wp (case r of Some res \<Rightarrow> retM res | None \<Rightarrow> admitLoop n nfkc c m k now)
        (\<lambda>r w'. parked T c (NormalizeModel nfkc m) k (db w') \<and> (\<forall>e. r \<noteq> (True, e)))
        (\<lambda>_ w'. parked T c (NormalizeModel nfkc m) k (db w')))
      (\<lambda>_ w'. parked T c (NormalizeModel nfkc m) k (db w')) (tick w)"
    by (rule wp_mono [OF admit_parked [of T c "NormalizeModel nfkc m" k "tick w" h now]])
      (use Suc h assms(2) in \<open>auto simp: wp_retM split: option.split\<close>)
  then show ?case
    using h Suc.prems by (simp add: wp_bindM wp_tryM wp_firstM wp_retM wp_throwM
      loadRouteHealthScope_def Let_def)
qed (simp add: wp_retM)

text \<open>Requests that ask for admission one after the other.\<close>

fun admissions ::
  "(string \<Rightarrow> string) \<Rightarrow> int \<Rightarrow> string \<Rightarrow> string \<Rightarrow> int list \<Rightarrow> world \<Rightarrow> (err + bool \<times> int) list" where
  "admissions nfkc c m k [] w = []"
| "admissions nfkc c m k (now # nows) w =
     (case routeHealthScopeUsable nfkc c m k now w of (r, w') \<Rightarrow> r # admissions nfkc c m k nows w')"

lemma admissions_parked:
  assumes "parked T c (NormalizeModel nfkc m) k (db w)" "\<forall>now \<in> set nows. T \<le> Unix now"
  shows "\<forall>r \<in> set (admissions nfkc c m k nows w). \<forall>e. r \<noteq> Inr (True, e)"
  using assms
proof (induction nows arbitrary: w)
  case (Cons now nows)
  obtain r w' where run: "routeHealthScopeUsable nfkc c m k now w = (r, w')" by fastforce
  have "wp (admitLoop 2 nfkc c m k now)
      (\<lambda>r w'. parked T c (NormalizeModel nfkc m) k (db w') \<and> (\<forall>e. r \<noteq> (True, e)))
      (\<lambda>_ w'. parked T c (NormalizeModel nfkc m) k (db w')) w"
    using Cons.prems by (intro admitLoop_parked) simp_all
  from wp_result [OF this run [unfolded routeHealthScopeUsable_def]] Cons.IH [of w'] Cons.prems run
  show ?case by (auto split: sum.splits)
qed simp

text \<open>
  C28.  A half-open probe whose owner never reports (a crash, a cancelled request, or a candidate
  that was probed and not selected) takes its route out of service.  Once the probe window is
  over, no request that asks for admission is admitted, however many ask and however late: the
  first one re-arms the row as open with a cooldown of zero, which the admission test
  \<open>CooldownUntil <= 0\<close> then refuses.
\<close>

theorem expired_probe_never_readmitted:
  assumes "findHealth c (NormalizeModel nfkc m) k (db w) = Some h"
    and "chState h = RouteHealthStateHalfOpen"
    and "\<forall>now \<in> set nows. chCooldownUntil h \<le> Unix now"
  shows "\<forall>r \<in> set (admissions nfkc c m k nows w). \<forall>e. r \<noteq> Inr (True, e)"
  by (rule admissions_parked [of "chCooldownUntil h"]) (use assms in \<open>auto simp: parked_def\<close>)

theorem expired_probe_never_readmitted_witness:
  "let h = breakerRow RouteHealthStateHalfOpen 130; w = breakerWorld h;
       nows = [130 * Second, 131 * Second, 1000000 * Second] in
   findHealth 5 (NormalizeModel id ''gpt'') [] (db w) = Some h \<and>
   admissions id 5 ''gpt'' [] nows w = [Inr (False, 3), Inr (False, 3), Inr (False, 3)] \<and>
   (\<forall>r \<in> set (admissions id 5 ''gpt'' [] nows w). \<forall>e. r \<noteq> Inr (True, e))"
proof -
  let ?h = "breakerRow RouteHealthStateHalfOpen 130"
  have row: "findHealth 5 (NormalizeModel id ''gpt'') [] (db (breakerWorld ?h)) = Some ?h"
    by code_simp
  have late: "\<forall>now \<in> set [130 * Second, 131 * Second, 1000000 * Second]. chCooldownUntil ?h \<le> Unix now"
    by code_simp
  have "admissions id 5 ''gpt'' [] [130 * Second, 131 * Second, 1000000 * Second] (breakerWorld ?h)
      = [Inr (False, 3), Inr (False, 3), Inr (False, 3)]"
    by code_simp
  moreover have "chState ?h = RouteHealthStateHalfOpen" by (simp add: breakerRow_def)
  ultimately show ?thesis
    unfolding Let_def using row expired_probe_never_readmitted [OF row _ late] by blast
qed

end
