(* ===== verification/Route_Select.thy ===== *)
theory Route_Select
  imports Route_Score Go_Hash
begin

text \<open>
  \<open>service/route_decision.go\<close> and \<open>service/route_selector.go\<close>: the pure selector that turns the
  candidates of a request into an ordered list of attempts and a decision record.  A function
  that returns a result together with an error returns both.  The time stamp of a decision is an
  argument.  The properties: the attempts are distinct eligible candidates of the source that
  owns the request, the manual order keeps the user's positions, and the decision record names
  every candidate.
\<close>

section \<open>Decisions\<close>

datatype RouteSource = RouteSourceUnavailable | RouteSourceManual | RouteSourceAutoLab

record RouteSourceInput =
  siCapabilityEnabled :: bool
  siHasProfile :: bool
  siProfileMode :: string

definition ResolveRouteSource :: "RouteSourceInput \<Rightarrow> RouteSource" where
  "ResolveRouteSource input =
     (if \<not> siCapabilityEnabled input then RouteSourceUnavailable
      else if \<not> siHasProfile input then RouteSourceAutoLab
      else if siProfileMode input = ''manual'' then RouteSourceManual
      else if siProfileMode input = ''auto_lab'' then RouteSourceAutoLab
      else RouteSourceUnavailable)"

record RouteDecisionCandidate =
  dcChannelID :: int
  dcRequestModel :: string
  dcFilterReason :: string
  dcPriority :: int
  dcPosition :: int
  dcWeight :: int
  dcSnapshotVersion :: int
  dcHealthEpoch :: int
  dcCatalogVersion :: string
  dcScore :: "RouteScoreBreakdown option"
  dcLeaseState :: string

record RouteDecision =
  rdRequestID :: string
  rdRouteSource :: RouteSource
  rdConfigurationVersion :: int
  rdRequestModel :: string
  rdActualModel :: string
  rdLabSlug :: string
  rdCatalogVersion :: string
  rdSnapshotVersion :: int
  rdScoringMode :: string
  rdDynamicScoreApplied :: bool
  rdStaticPreferredChannelID :: int
  rdScoredPreferredChannelID :: int
  rdCandidates :: "RouteDecisionCandidate list"
  rdSelectedChannelID :: int
  rdLeaseState :: string
  rdGeneratedAt :: int

definition NewRouteDecision :: "int \<Rightarrow> string \<Rightarrow> RouteSource \<Rightarrow> string \<Rightarrow> int \<Rightarrow> RouteDecision" where
  "NewRouteDecision nowMilli requestID source model configurationVersion =
     \<lparr>rdRequestID = requestID, rdRouteSource = source,
      rdConfigurationVersion = configurationVersion, rdRequestModel = model, rdActualModel = [],
      rdLabSlug = [], rdCatalogVersion = [], rdSnapshotVersion = 0, rdScoringMode = [],
      rdDynamicScoreApplied = False, rdStaticPreferredChannelID = 0,
      rdScoredPreferredChannelID = 0, rdCandidates = [], rdSelectedChannelID = 0,
      rdLeaseState = [], rdGeneratedAt = nowMilli\<rparr>"

section \<open>Candidates\<close>

abbreviation RouteCandidateFilterHealthUnavailable :: string where
  "RouteCandidateFilterHealthUnavailable \<equiv> ''health_unavailable''"

abbreviation RouteLeaseStateNotAttempted :: string where
  "RouteLeaseStateNotAttempted \<equiv> ''not_attempted''"

record RouteSelectionCandidate =
  slChannelID :: int
  slRequestModel :: string
  slActualModel :: string
  slLabSlug :: string
  slPriority :: int
  slPosition :: int
  slWeight :: int
  slFilterReason :: string
  slHealthUsable :: bool
  slErrorRate :: f64
  slErrorRateKnown :: bool
  slLatencyMS :: f64
  slLatencyKnown :: bool
  slTTFTMS :: f64
  slTTFTKnown :: bool
  slRateLimitHeadroom :: f64
  slRateLimitKnown :: bool
  slQuotaHeadroom :: f64
  slQuotaKnown :: bool
  slSticky :: bool
  slSnapshotVersion :: int
  slHealthEpoch :: int
  slCatalogVersion :: string

record RouteSelectionInput =
  inSourceInput :: RouteSourceInput
  inManualGroupEnabled :: bool
  inManualLoadBalance :: bool
  inManualCandidates :: "RouteSelectionCandidate list"
  inAutoCandidates :: "RouteSelectionCandidate list"
  inTopK :: int
  inConfigurationVersion :: int
  inRequestID :: string
  inRequestModel :: string
  inDynamicScoringEnabled :: bool

record RouteSelectionResult =
  resDecision :: RouteDecision
  resCandidates :: "RouteSelectionCandidate list"

datatype RouteSelectionError = ErrRouteSelectionUnavailable

definition normalizeRouteSelectionCandidates ::
  "RouteSelectionCandidate list \<Rightarrow> RouteSelectionCandidate list" where
  "normalizeRouteSelectionCandidates =
     map (\<lambda>c. if slFilterReason c = [] \<and> \<not> slHealthUsable c
              then c\<lparr>slFilterReason := RouteCandidateFilterHealthUnavailable\<rparr> else c)"

fun eligibleFrom :: "int list \<Rightarrow> RouteSelectionCandidate list \<Rightarrow> RouteSelectionCandidate list" where
  "eligibleFrom seen [] = []"
| "eligibleFrom seen (c # cs) =
     (if slChannelID c \<le> 0 \<or> slFilterReason c \<noteq> [] \<or> \<not> slHealthUsable c then eligibleFrom seen cs
      else if slChannelID c \<in> set seen then eligibleFrom seen cs
      else c # eligibleFrom (slChannelID c # seen) cs)"

definition eligibleRouteSelectionCandidates ::
  "RouteSelectionCandidate list \<Rightarrow> RouteSelectionCandidate list" where
  "eligibleRouteSelectionCandidates cs = eligibleFrom [] cs"

text \<open>The loop over the candidates: a known channel only gains a missing filter reason.\<close>

definition decisionCandidate ::
  "(int \<rightharpoonup> RouteScoreBreakdown) \<Rightarrow> RouteSelectionCandidate \<Rightarrow> RouteDecisionCandidate" where
  "decisionCandidate scores c =
     \<lparr>dcChannelID = slChannelID c, dcRequestModel = slRequestModel c,
      dcFilterReason = slFilterReason c, dcPriority = slPriority c, dcPosition = slPosition c,
      dcWeight = slWeight c, dcSnapshotVersion = slSnapshotVersion c,
      dcHealthEpoch = slHealthEpoch c, dcCatalogVersion = slCatalogVersion c,
      dcScore = scores (slChannelID c), dcLeaseState = RouteLeaseStateNotAttempted\<rparr>"

fun appendCandidates ::
  "(int \<rightharpoonup> RouteScoreBreakdown) \<Rightarrow> RouteSelectionCandidate list
   \<Rightarrow> RouteDecisionCandidate list \<Rightarrow> RouteDecisionCandidate list" where
  "appendCandidates scores [] ds = ds"
| "appendCandidates scores (c # cs) ds =
     (if slChannelID c \<le> 0 then appendCandidates scores cs ds
      else if slChannelID c \<in> dcChannelID ` set ds
      then appendCandidates scores cs
             (map (\<lambda>x. if dcChannelID x = slChannelID c \<and> dcFilterReason x = []
                       then x\<lparr>dcFilterReason := slFilterReason c\<rparr> else x) ds)
      else appendCandidates scores cs (ds @ [decisionCandidate scores c]))"

definition appendRouteDecisionCandidatesWithScores ::
  "RouteDecision \<Rightarrow> RouteSelectionCandidate list \<Rightarrow> ScoredRouteCandidate list \<Rightarrow> RouteDecision" where
  "appendRouteDecisionCandidatesWithScores decision candidates scores =
     (let byChannel = fold (\<lambda>s m. m(scChannelID (srCandidate s) \<mapsto> srBreakdown s)) scores Map.empty
      in decision\<lparr>rdCandidates := appendCandidates byChannel candidates (rdCandidates decision)\<rparr>)"

definition appendRouteDecisionCandidates ::
  "RouteDecision \<Rightarrow> RouteSelectionCandidate list \<Rightarrow> RouteDecision" where
  "appendRouteDecisionCandidates decision candidates =
     appendRouteDecisionCandidatesWithScores decision candidates []"

definition normalizedRouteTopK :: "int \<Rightarrow> int" where
  "normalizedRouteTopK k = (if k \<le> 0 \<or> k > 3 then 3 else k)"

section \<open>Load balancing inside one manual position\<close>

fun weightedPick :: "nat \<Rightarrow> 64 word \<Rightarrow> 64 word \<Rightarrow> RouteScoreCandidate list \<Rightarrow> nat" where
  "weightedPick index bucket accumulated [] = 0"
| "weightedPick index bucket accumulated (c # cs) =
     (if scWeight c \<le> 0 then weightedPick (Suc index) bucket accumulated cs
      else let accumulated = accumulated + of_int (scWeight c) in
        if bucket < accumulated then index else weightedPick (Suc index) bucket accumulated cs)"

definition totalWeight :: "RouteScoreCandidate list \<Rightarrow> 64 word" where
  "totalWeight cs = fold (\<lambda>c t. if scWeight c > 0 then t + of_int (scWeight c) else t) cs 0"

definition weightedManualCandidateIndex :: "RouteScoreCandidate list \<Rightarrow> string \<Rightarrow> nat" where
  "weightedManualCandidateIndex cs requestID =
     (if length cs < 2 \<or> requestID = [] then 0
      else let total = totalWeight cs in
        if total = 0 then unat (fnv64a requestID mod of_nat (length cs))
        else weightedPick 0 (fnv64a requestID mod total) 0 cs)"

definition orderManualRouteCandidatesForSelection ::
  "RouteScoreCandidate list \<Rightarrow> bool \<Rightarrow> string \<Rightarrow> RouteScoreCandidate list" where
  "orderManualRouteCandidatesForSelection candidates loadBalance requestID =
     (let ordered = OrderManualRouteCandidates candidates loadBalance in
      if \<not> loadBalance \<or> length ordered < 2 \<or> requestID = [] then ordered
      else let layer = takeWhile (\<lambda>c. scPosition c = scPosition (hd ordered)) ordered in
        if length layer < 2 then ordered
        else let selected = weightedManualCandidateIndex layer requestID in
          if selected = 0 then ordered
          else (ordered ! selected) # take selected ordered @ drop (Suc selected) ordered)"

section \<open>The selector\<close>

definition staticScoreCandidate :: "RouteSelectionCandidate \<Rightarrow> RouteScoreCandidate" where
  "staticScoreCandidate c =
     \<lparr>scChannelID = slChannelID c, scPriority = slPriority c, scPosition = slPosition c,
      scWeight = slWeight c, scErrorRate = FFin 0, scErrorRateKnown = False, scLatencyMS = FFin 0,
      scLatencyKnown = False, scTTFTMS = FFin 0, scTTFTKnown = False, scRateLimitHeadroom = FFin 0,
      scRateLimitKnown = False, scQuotaHeadroom = FFin 0, scQuotaKnown = False, scSticky = False,
      scHealthUsable = slHealthUsable c\<rparr>"

definition dynamicScoreCandidate :: "RouteSelectionCandidate \<Rightarrow> RouteScoreCandidate" where
  "dynamicScoreCandidate c =
     \<lparr>scChannelID = slChannelID c, scPriority = slPriority c, scPosition = slPosition c,
      scWeight = slWeight c, scErrorRate = slErrorRate c, scErrorRateKnown = slErrorRateKnown c,
      scLatencyMS = slLatencyMS c, scLatencyKnown = slLatencyKnown c, scTTFTMS = slTTFTMS c,
      scTTFTKnown = slTTFTKnown c, scRateLimitHeadroom = slRateLimitHeadroom c,
      scRateLimitKnown = slRateLimitKnown c, scQuotaHeadroom = slQuotaHeadroom c,
      scQuotaKnown = slQuotaKnown c, scSticky = slSticky c, scHealthUsable = slHealthUsable c\<rparr>"

definition zeroSelectionCandidate :: RouteSelectionCandidate where
  "zeroSelectionCandidate = \<lparr>slChannelID = 0, slRequestModel = [], slActualModel = [], slLabSlug = [],
     slPriority = 0, slPosition = 0, slWeight = 0, slFilterReason = [], slHealthUsable = False,
     slErrorRate = FFin 0, slErrorRateKnown = False, slLatencyMS = FFin 0, slLatencyKnown = False,
     slTTFTMS = FFin 0, slTTFTKnown = False, slRateLimitHeadroom = FFin 0, slRateLimitKnown = False,
     slQuotaHeadroom = FFin 0, slQuotaKnown = False, slSticky = False, slSnapshotVersion = 0,
     slHealthEpoch = 0, slCatalogVersion = []\<rparr>"

text \<open>The map \<open>byID\<close> and a lookup in it; a missing key yields the zero candidate.\<close>

definition candidateByID :: "RouteSelectionCandidate list \<Rightarrow> int \<Rightarrow> RouteSelectionCandidate" where
  "candidateByID eligible i =
     (case fold (\<lambda>c m. m(slChannelID c \<mapsto> c)) eligible Map.empty i of
        None \<Rightarrow> zeroSelectionCandidate | Some c \<Rightarrow> c)"

definition fallbackDecisionCandidate :: "RouteSelectionCandidate \<Rightarrow> RouteDecisionCandidate" where
  "fallbackDecisionCandidate c =
     \<lparr>dcChannelID = slChannelID c, dcRequestModel = [], dcFilterReason = [],
      dcPriority = slPriority c, dcPosition = slPosition c, dcWeight = slWeight c,
      dcSnapshotVersion = slSnapshotVersion c, dcHealthEpoch = slHealthEpoch c,
      dcCatalogVersion = slCatalogVersion c, dcScore = None,
      dcLeaseState = RouteLeaseStateNotAttempted\<rparr>"

definition selectManual ::
  "RouteSelectionInput \<Rightarrow> RouteSelectionCandidate list \<Rightarrow> RouteSelectionCandidate list" where
  "selectManual input eligible =
     map (candidateByID eligible \<circ> scChannelID)
       (orderManualRouteCandidatesForSelection (map staticScoreCandidate eligible)
          (inManualLoadBalance input) (inRequestID input))"

definition selectAuto ::
  "RouteSelectionInput \<Rightarrow> RouteSelectionCandidate list \<Rightarrow> RouteSelectionCandidate list
   \<Rightarrow> RouteDecision \<Rightarrow> RouteDecision \<times> RouteSelectionCandidate list" where
  "selectAuto input candidates eligible decision =
     (let static = StaticPriorityLayer (map staticScoreCandidate eligible);
          decision = decision\<lparr>rdScoringMode := ''off''\<rparr>;
          decision = (case static of [] \<Rightarrow> decision
            | s # _ \<Rightarrow> decision\<lparr>rdStaticPreferredChannelID := scChannelID s\<rparr>);
          limit = normalizedRouteTopK (inTopK input) in
      if inDynamicScoringEnabled input
      then let scored = ScoreRouteCandidates (map dynamicScoreCandidate eligible);
               decision = (case scored of [] \<Rightarrow> decision
                 | s # _ \<Rightarrow> decision\<lparr>rdScoredPreferredChannelID := scChannelID (srCandidate s)\<rparr>);
               decision = decision\<lparr>rdScoringMode := ''live'', rdDynamicScoreApplied := True\<rparr>
           in (appendRouteDecisionCandidatesWithScores decision candidates scored,
               map (candidateByID eligible \<circ> scChannelID \<circ> srCandidate) (take (nat limit) scored))
      else (appendRouteDecisionCandidates decision candidates,
            map (candidateByID eligible \<circ> scChannelID) (take (nat limit) static)))"

definition SelectTokenRoute ::
  "int \<Rightarrow> RouteSelectionInput \<Rightarrow> RouteSelectionResult \<times> RouteSelectionError option" where
  "SelectTokenRoute nowMilli input =
     (let source = ResolveRouteSource (inSourceInput input);
          decision = NewRouteDecision nowMilli (inRequestID input) source (inRequestModel input)
            (inConfigurationVersion input);
          failed = (\<lambda>decision cs. (\<lparr>resDecision = decision, resCandidates = cs\<rparr>,
            Some ErrRouteSelectionUnavailable)) in
      if source = RouteSourceUnavailable then failed decision []
      else if source = RouteSourceManual \<and> \<not> inManualGroupEnabled input then failed decision []
      else
        let candidates = normalizeRouteSelectionCandidates
              (if source = RouteSourceManual then inManualCandidates input else inAutoCandidates input);
            eligible = eligibleRouteSelectionCandidates candidates in
        if eligible = [] then failed (appendRouteDecisionCandidates decision candidates) []
        else
          let (decision, selected) =
                (if source = RouteSourceManual then (decision, selectManual input eligible)
                 else selectAuto input candidates eligible decision);
              decision = appendRouteDecisionCandidates decision candidates in
          case selected of [] \<Rightarrow> failed decision []
          | c # _ \<Rightarrow>
            let decision = (if rdCandidates decision = []
                  then decision\<lparr>rdCandidates := map fallbackDecisionCandidate selected\<rparr> else decision)
            in (\<lparr>resDecision = decision\<lparr>rdSelectedChannelID := slChannelID c,
                   rdActualModel := slActualModel c, rdLabSlug := slLabSlug c,
                   rdCatalogVersion := slCatalogVersion c,
                   rdSnapshotVersion := slSnapshotVersion c\<rparr>,
                 resCandidates = selected\<rparr>, None))"

section \<open>Eligible candidates\<close>

definition eligibleCandidate :: "RouteSelectionCandidate \<Rightarrow> bool" where
  "eligibleCandidate c \<longleftrightarrow> 0 < slChannelID c \<and> slFilterReason c = [] \<and> slHealthUsable c"

lemma eligibleFrom_members: "c \<in> set (eligibleFrom seen cs) \<Longrightarrow> c \<in> set cs \<and> eligibleCandidate c"
  by (induction seen cs rule: eligibleFrom.induct) (auto simp: eligibleCandidate_def split: if_splits)

lemma eligibleFrom_distinct:
  "distinct (map slChannelID (eligibleFrom seen cs)) \<and>
   set seen \<inter> slChannelID ` set (eligibleFrom seen cs) = {}"
proof (induction seen cs rule: eligibleFrom.induct)
  case (2 seen c cs)
  show ?case
  proof (cases "slChannelID c \<le> 0 \<or> slFilterReason c \<noteq> [] \<or> \<not> slHealthUsable c \<or> slChannelID c \<in> set seen")
    case True
    with 2 show ?thesis by (simp split: if_splits)
  next
    case False
    with "2.IH"(3) show ?thesis by simp
  qed
qed simp

lemma eligibleFrom_complete:
  "c \<in> set cs \<Longrightarrow> eligibleCandidate c \<Longrightarrow> slChannelID c \<notin> set seen \<Longrightarrow> eligibleFrom seen cs \<noteq> []"
proof (induction seen cs rule: eligibleFrom.induct)
  case (2 seen x cs)
  show ?case
  proof (cases "c = x")
    case True
    with "2.prems" show ?thesis by (simp add: eligibleCandidate_def)
  next
    case False
    with 2 show ?thesis by (simp split: if_splits)
  qed
qed simp

lemma eligible_distinct: "distinct (map slChannelID (eligibleRouteSelectionCandidates cs))"
  unfolding eligibleRouteSelectionCandidates_def using eligibleFrom_distinct by blast

lemma eligible_members:
  "c \<in> set (eligibleRouteSelectionCandidates cs) \<Longrightarrow> c \<in> set cs \<and> eligibleCandidate c"
  unfolding eligibleRouteSelectionCandidates_def by (rule eligibleFrom_members)

lemma eligible_normalized:
  "c \<in> set (eligibleRouteSelectionCandidates (normalizeRouteSelectionCandidates cs)) \<Longrightarrow>
   c \<in> set cs \<and> eligibleCandidate c"
  by (drule eligible_members) (auto simp: normalizeRouteSelectionCandidates_def eligibleCandidate_def)

lemma no_eligible:
  "eligibleRouteSelectionCandidates (normalizeRouteSelectionCandidates cs) = [] \<longleftrightarrow>
   \<not> (\<exists>c \<in> set cs. eligibleCandidate c)"
proof
  assume none: "eligibleRouteSelectionCandidates (normalizeRouteSelectionCandidates cs) = []"
  have "c \<in> set (normalizeRouteSelectionCandidates cs)" if "c \<in> set cs" "eligibleCandidate c" for c
    using that by (force simp: normalizeRouteSelectionCandidates_def eligibleCandidate_def)
  with none show "\<not> (\<exists>c \<in> set cs. eligibleCandidate c)"
    using eligibleFrom_complete [of _ "normalizeRouteSelectionCandidates cs" "[]"]
    by (auto simp: eligibleRouteSelectionCandidates_def)
next
  assume none: "\<not> (\<exists>c \<in> set cs. eligibleCandidate c)"
  show "eligibleRouteSelectionCandidates (normalizeRouteSelectionCandidates cs) = []"
  proof (cases "eligibleRouteSelectionCandidates (normalizeRouteSelectionCandidates cs)")
    case (Cons c rest)
    then have "c \<in> set cs \<and> eligibleCandidate c" by (intro eligible_normalized) simp
    with none show ?thesis by blast
  qed
qed

lemma fold_upd_notin: "i \<notin> f ` set cs \<Longrightarrow> fold (\<lambda>c m. m(f c \<mapsto> c)) cs m i = m i"
  by (induction cs arbitrary: m) auto

lemma candidateByID_id:
  assumes "distinct (map slChannelID cs)" "c \<in> set cs"
  shows "candidateByID cs (slChannelID c) = c"
proof -
  have "fold (\<lambda>c m. m(slChannelID c \<mapsto> c)) cs m (slChannelID c) = Some c" for m
    using assms
  proof (induction cs arbitrary: m)
    case (Cons x xs)
    show ?case
    proof (cases "c = x")
      case True
      with Cons.prems have "slChannelID c \<notin> slChannelID ` set xs" by simp
      from fold_upd_notin [OF this, of "m(slChannelID c \<mapsto> c)"] True show ?thesis
        unfolding fold_simps by (simp only: fun_upd_same)
    next
      case False
      with Cons.prems have "distinct (map slChannelID xs)" "c \<in> set xs" by simp_all
      then show ?thesis unfolding fold_simps by (rule Cons.IH)
    qed
  qed simp
  then show ?thesis by (simp add: candidateByID_def)
qed

text \<open>
  A reordering of the channel ids of the eligible candidates, looked up again, is a reordering of
  the candidates.
\<close>

lemma lookup_permutation:
  assumes "distinct (map slChannelID eligible)" "mset (map f xs) \<subseteq># mset (map slChannelID eligible)"
  shows "mset (map (candidateByID eligible \<circ> f) xs) \<subseteq># mset eligible"
proof -
  have "map (candidateByID eligible) (map slChannelID eligible) = eligible"
    unfolding map_map using assms(1) by (intro map_idI) (simp add: candidateByID_id)
  then have "image_mset (candidateByID eligible) (mset (map slChannelID eligible)) = mset eligible"
    by (metis mset_map)
  moreover have "mset (map (candidateByID eligible \<circ> f) xs) = image_mset (candidateByID eligible) (mset (map f xs))"
    by (simp add: multiset.map_comp)
  ultimately show ?thesis using image_mset_subseteq_mono [OF assms(2)] by metis
qed

lemma staticScoreCandidate_id [simp]:
  "scChannelID (staticScoreCandidate c) = slChannelID c"
  "scPosition (staticScoreCandidate c) = slPosition c"
  "scHealthUsable (staticScoreCandidate c) = slHealthUsable c"
  by (simp_all add: staticScoreCandidate_def)

lemma dynamicScoreCandidate_id [simp]:
  "scChannelID (dynamicScoreCandidate c) = slChannelID c"
  "scHealthUsable (dynamicScoreCandidate c) = slHealthUsable c"
  by (simp_all add: dynamicScoreCandidate_def)

section \<open>The manual order\<close>

lemma weightedPick_bound: "weightedPick i bucket acc cs < i + length cs \<or> weightedPick i bucket acc cs = 0"
proof (induction cs arbitrary: i acc)
  case (Cons c cs)
  show ?case
    using Cons.IH [of "Suc i" acc] Cons.IH [of "Suc i" "acc + of_int (scWeight c)"] by (simp add: Let_def)
qed simp

lemma weightedManualCandidateIndex_bound:
  assumes "cs \<noteq> []" "length cs < 2 ^ 64"
  shows "weightedManualCandidateIndex cs requestID < length cs"
proof -
  have "unat (fnv64a requestID mod of_nat (length cs) :: 64 word) < length cs"
    using assms by (simp add: unat_mod_distrib unsigned_of_nat take_bit_nat_eq_self)
  then show ?thesis
    using assms weightedPick_bound [of 0 "fnv64a requestID mod totalWeight cs" 0 cs]
    by (auto simp: weightedManualCandidateIndex_def Let_def)
qed

lemma rotate_to_front:
  assumes "k < length xs"
  shows "mset (xs ! k # take k xs @ drop (Suc k) xs) = mset xs"
proof -
  have "mset xs = mset (take k xs @ xs ! k # drop (Suc k) xs)"
    using id_take_nth_drop [OF assms] by simp
  then show ?thesis by simp
qed

text \<open>Moving an element of the first layer to the front changes no position.\<close>

lemma rotate_layer:
  assumes "k < length (takeWhile (\<lambda>x. f x = f (hd xs)) xs)"
  shows "map f (xs ! k # take k xs @ drop (Suc k) xs) = map f xs"
proof -
  let ?t = "takeWhile (\<lambda>x. f x = f (hd xs)) xs"
  have len: "k < length xs" using assms length_takeWhile_le [of _ xs] by (meson less_le_trans)
  have same: "f (xs ! i) = f (hd xs)" if "i \<le> k" for i
    using nth_mem [of i ?t] takeWhile_nth [of i _ xs] set_takeWhileD [of "xs ! i" _ xs] assms that
    by fastforce
  have "map f (take k xs) = replicate k (f (hd xs))"
    using same len by (intro replicate_eqI) (auto simp: in_set_conv_nth)
  then have "map f (xs ! k # take k xs @ drop (Suc k) xs) =
      replicate (Suc k) (f (hd xs)) @ map f (drop (Suc k) xs)"
    using same [of k] by simp
  also have "\<dots> = map f (take k xs @ xs ! k # drop (Suc k) xs)"
    using \<open>map f (take k xs) = _\<close> same [of k] by (simp add: replicate_append_same [symmetric])
  also have "\<dots> = map f xs" using id_take_nth_drop [OF len] by simp
  finally show ?thesis .
qed

lemma order_manual_cases:
  assumes "length cs < 2 ^ 64"
  obtains k where "k < length (takeWhile (\<lambda>c. scPosition c = scPosition (hd (OrderManualRouteCandidates cs lb)))
      (OrderManualRouteCandidates cs lb))"
    "orderManualRouteCandidatesForSelection cs lb rid = OrderManualRouteCandidates cs lb ! k #
       take k (OrderManualRouteCandidates cs lb) @ drop (Suc k) (OrderManualRouteCandidates cs lb)"
  | "orderManualRouteCandidatesForSelection cs lb rid = OrderManualRouteCandidates cs lb"
proof -
  let ?o = "OrderManualRouteCandidates cs lb"
  let ?layer = "takeWhile (\<lambda>c. scPosition c = scPosition (hd ?o)) ?o"
  have "length ?layer \<le> length cs"
    using length_takeWhile_le [of _ ?o] by (simp add: OrderManualRouteCandidates_def)
  then have bound: "weightedManualCandidateIndex ?layer rid < length ?layer" if "?layer \<noteq> []"
    using that assms by (intro weightedManualCandidateIndex_bound) simp_all
  show thesis
  proof (cases "orderManualRouteCandidatesForSelection cs lb rid = ?o")
    case False
    then have moved: "2 \<le> length ?layer" "orderManualRouteCandidatesForSelection cs lb rid =
        ?o ! weightedManualCandidateIndex ?layer rid #
          take (weightedManualCandidateIndex ?layer rid) ?o @
          drop (Suc (weightedManualCandidateIndex ?layer rid)) ?o"
      unfolding orderManualRouteCandidatesForSelection_def Let_def by (auto split: if_splits)
    then have "?layer \<noteq> []" by force
    with moved bound that(1) show thesis by blast
  qed (rule that(2))
qed

lemma mset_orderManual:
  assumes "length cs < 2 ^ 64"
  shows "mset (orderManualRouteCandidatesForSelection cs lb rid) = mset cs"
proof (rule order_manual_cases [OF assms, of lb rid])
  let ?o = "OrderManualRouteCandidates cs lb"
  fix k
  assume k: "k < length (takeWhile (\<lambda>c. scPosition c = scPosition (hd ?o)) ?o)"
    and r: "orderManualRouteCandidatesForSelection cs lb rid = ?o ! k # take k ?o @ drop (Suc k) ?o"
  have "k < length ?o" using k length_takeWhile_le [of _ ?o] by (meson less_le_trans)
  from rotate_to_front [OF this] show ?thesis by (simp add: r OrderManualRouteCandidates_def)
qed (simp add: OrderManualRouteCandidates_def)

lemma sorted_orderManual:
  assumes "length cs < 2 ^ 64"
  shows "sorted (map scPosition (orderManualRouteCandidatesForSelection cs lb rid))"
proof -
  have "sorted_wrt (\<lambda>a b. scPosition a \<le> scPosition b) (OrderManualRouteCandidates cs lb)"
    using OrderManualRouteCandidates_sorted [of lb cs] unfolding sorted_wrt_map
    by (rule sorted_wrt_mono_rel [rotated]) (auto simp: manualKey_def)
  then have "sorted (map scPosition (OrderManualRouteCandidates cs lb))" by (simp add: sorted_wrt_map)
  moreover have "map scPosition (orderManualRouteCandidatesForSelection cs lb rid) =
      map scPosition (OrderManualRouteCandidates cs lb)"
    by (rule order_manual_cases [OF assms, of lb rid]) (simp_all only: rotate_layer)
  ultimately show ?thesis by simp
qed

lemma selectManual_permutes:
  assumes "distinct (map slChannelID eligible)" "length eligible < 2 ^ 64"
  shows "mset (selectManual input eligible) \<subseteq># mset eligible \<and>
    length (selectManual input eligible) = length eligible"
proof -
  let ?o = "orderManualRouteCandidatesForSelection (map staticScoreCandidate eligible)
    (inManualLoadBalance input) (inRequestID input)"
  have o: "mset ?o = mset (map staticScoreCandidate eligible)"
    using assms(2) by (intro mset_orderManual) simp
  then have "mset (map scChannelID ?o) = mset (map slChannelID eligible)"
    by (simp add: multiset.map_comp comp_def)
  moreover have "length ?o = length eligible" using arg_cong [OF o, of size] by simp
  ultimately show ?thesis
    unfolding selectManual_def using lookup_permutation [OF assms(1), of scChannelID ?o] by simp
qed

lemma mset_take: "mset (take n xs) \<subseteq># mset xs"
  by (metis append_take_drop_id mset_append mset_subset_eq_add_left)

lemma selectAuto_selects:
  assumes "distinct (map slChannelID eligible)" "\<forall>c \<in> set eligible. slHealthUsable c"
  shows "mset (snd (selectAuto input candidates eligible decision)) \<subseteq># mset eligible \<and>
    length (snd (selectAuto input candidates eligible decision)) =
      min (nat (normalizedRouteTopK (inTopK input))) (length eligible)"
proof -
  let ?n = "nat (normalizedRouteTopK (inTopK input))"
  let ?static = "StaticPriorityLayer (map staticScoreCandidate eligible)"
  let ?scored = "ScoreRouteCandidates (map dynamicScoreCandidate eligible)"
  have usable: "filter slHealthUsable eligible = eligible" using assms(2) by (simp add: filter_id_conv)
  have static: "mset ?static = mset (map staticScoreCandidate eligible)"
    by (simp add: StaticPriorityLayer_def filter_map comp_def usable)
  have scored: "mset (map srCandidate ?scored) = mset (map dynamicScoreCandidate eligible)"
    unfolding mset_ScoreRouteCandidates by (simp add: filter_map comp_def usable)
  have "mset (map scChannelID ?static) = mset (map slChannelID eligible)"
    using static by (simp add: multiset.map_comp comp_def)
  then have s1: "mset (map scChannelID (take ?n ?static)) \<subseteq># mset (map slChannelID eligible)"
    using image_mset_subseteq_mono [OF mset_take] by (metis mset_map)
  have "mset (map (scChannelID \<circ> srCandidate) ?scored) = mset (map slChannelID eligible)"
    using arg_cong [OF scored, of "image_mset scChannelID"] by (simp add: multiset.map_comp comp_def)
  then have s2: "mset (map (scChannelID \<circ> srCandidate) (take ?n ?scored)) \<subseteq># mset (map slChannelID eligible)"
    using image_mset_subseteq_mono [OF mset_take] by (metis mset_map)
  have len: "length ?static = length eligible" "length ?scored = length eligible"
    using arg_cong [OF static, of size] arg_cong [OF scored, of size] by simp_all
  show ?thesis
    using lookup_permutation [OF assms(1) s1] lookup_permutation [OF assms(1) s2] len
    by (simp add: selectAuto_def Let_def comp_assoc min.commute)
qed

definition sourceCandidates :: "RouteSelectionInput \<Rightarrow> RouteSelectionCandidate list" where
  "sourceCandidates input = (case ResolveRouteSource (inSourceInput input) of
     RouteSourceUnavailable \<Rightarrow> []
   | RouteSourceManual \<Rightarrow> if inManualGroupEnabled input then inManualCandidates input else []
   | RouteSourceAutoLab \<Rightarrow> inAutoCandidates input)"

lemma selected_ok:
  assumes "mset selected \<subseteq># mset (eligibleRouteSelectionCandidates (normalizeRouteSelectionCandidates cs))"
  shows "distinct (map slChannelID selected) \<and> (\<forall>c \<in> set selected. c \<in> set cs \<and> eligibleCandidate c)"
proof
  have "mset (map slChannelID selected) \<subseteq>#
      mset (map slChannelID (eligibleRouteSelectionCandidates (normalizeRouteSelectionCandidates cs)))"
    using image_mset_subseteq_mono [OF assms] by simp
  then show "distinct (map slChannelID selected)"
    using eligible_distinct [of "normalizeRouteSelectionCandidates cs"]
    by (metis distinct_append mset_append mset_eq_imp_distinct_iff mset_subset_eq_exists_conv ex_mset)
  show "\<forall>c \<in> set selected. c \<in> set cs \<and> eligibleCandidate c"
    using set_mset_mono [OF assms] eligible_normalized by fastforce
qed

section \<open>What a selection is\<close>

lemma length_eligible: "length (eligibleRouteSelectionCandidates cs) \<le> length cs"
proof -
  have "length (eligibleFrom seen cs) \<le> length cs" for seen
  proof (induction cs arbitrary: seen)
    case (Cons c cs)
    show ?case using Cons.IH [of seen] Cons.IH [of "slChannelID c # seen"] by simp
  qed simp
  then show ?thesis by (simp add: eligibleRouteSelectionCandidates_def)
qed

text \<open>The list the selector picks from the eligible candidates.\<close>

definition picked :: "RouteSelectionInput \<Rightarrow> RouteSelectionCandidate list \<Rightarrow> bool" where
  "picked input selected \<longleftrightarrow>
     (let eligible = eligibleRouteSelectionCandidates (normalizeRouteSelectionCandidates (sourceCandidates input)) in
      mset selected \<subseteq># mset eligible \<and> (selected = [] \<longleftrightarrow> eligible = []) \<and>
      (ResolveRouteSource (inSourceInput input) = RouteSourceAutoLab \<longrightarrow> length selected \<le> 3))"

lemma picked_manual:
  assumes "ResolveRouteSource (inSourceInput input) = RouteSourceManual" "inManualGroupEnabled input"
    and "length (inManualCandidates input) < 2 ^ 64"
  shows "picked input (selectManual input
    (eligibleRouteSelectionCandidates (normalizeRouteSelectionCandidates (inManualCandidates input))))"
proof -
  let ?e = "eligibleRouteSelectionCandidates (normalizeRouteSelectionCandidates (inManualCandidates input))"
  have "length ?e < 2 ^ 64"
    using length_eligible [of "normalizeRouteSelectionCandidates (inManualCandidates input)"] assms(3)
    by (simp add: normalizeRouteSelectionCandidates_def)
  from selectManual_permutes [OF eligible_distinct this, of input] assms(1,2) show ?thesis
    by (auto simp: picked_def sourceCandidates_def Let_def simp flip: length_0_conv)
qed

lemma picked_auto:
  assumes "ResolveRouteSource (inSourceInput input) = RouteSourceAutoLab"
  shows "picked input (snd (selectAuto input candidates
    (eligibleRouteSelectionCandidates (normalizeRouteSelectionCandidates (inAutoCandidates input))) decision))"
proof -
  let ?e = "eligibleRouteSelectionCandidates (normalizeRouteSelectionCandidates (inAutoCandidates input))"
  have "\<forall>c \<in> set ?e. slHealthUsable c" using eligible_members by (auto simp: eligibleCandidate_def)
  from selectAuto_selects [OF eligible_distinct this, of input candidates decision] assms show ?thesis
    by (auto simp: picked_def sourceCandidates_def Let_def normalizedRouteTopK_def simp flip: length_0_conv)
qed

definition selectionOf :: "RouteSelectionInput \<Rightarrow> RouteSelectionResult \<times> RouteSelectionError option \<Rightarrow> bool" where
  "selectionOf input r \<longleftrightarrow> picked input (resCandidates (fst r)) \<and>
     (snd r = None \<longleftrightarrow> resCandidates (fst r) \<noteq> []) \<and>
     (resCandidates (fst r) \<noteq> [] \<longrightarrow>
        rdSelectedChannelID (resDecision (fst r)) = slChannelID (hd (resCandidates (fst r))))"

lemma SelectTokenRoute_selection:
  assumes "length (inManualCandidates input) < 2 ^ 64"
  shows "selectionOf input (SelectTokenRoute now input)"
proof (cases "ResolveRouteSource (inSourceInput input)")
  case RouteSourceUnavailable
  then show ?thesis
    by (simp add: SelectTokenRoute_def selectionOf_def picked_def sourceCandidates_def Let_def
        normalizeRouteSelectionCandidates_def eligibleRouteSelectionCandidates_def)
next
  case RouteSourceManual
  then show ?thesis
    using picked_manual [OF RouteSourceManual _ assms]
    by (simp add: SelectTokenRoute_def selectionOf_def Let_def split: list.split)
      (auto simp: picked_def sourceCandidates_def Let_def
        normalizeRouteSelectionCandidates_def eligibleRouteSelectionCandidates_def)
next
  case RouteSourceAutoLab
  let ?cs = "normalizeRouteSelectionCandidates (inAutoCandidates input)"
  obtain d s where r: "selectAuto input ?cs (eligibleRouteSelectionCandidates ?cs)
      (NewRouteDecision now (inRequestID input) RouteSourceAutoLab (inRequestModel input)
        (inConfigurationVersion input)) = (d, s)"
    by fastforce
  have "picked input s" using picked_auto [OF RouteSourceAutoLab] r by (metis snd_conv)
  moreover have "picked input []" if "eligibleRouteSelectionCandidates ?cs = []"
    using that by (simp add: picked_def sourceCandidates_def RouteSourceAutoLab)
  ultimately show ?thesis
    by (simp add: SelectTokenRoute_def RouteSourceAutoLab r selectionOf_def Let_def split: list.split) blast
qed

text \<open>
  C29.  A selection succeeds exactly when the source that owns the request has an eligible
  candidate: a positive channel id, no filter reason and a usable health.  The attempts are
  eligible candidates of that source, no channel twice, at most three of them for automatic
  routing, and the first one is the selected channel.
\<close>

theorem SelectTokenRoute_selects_eligible:
  assumes "length (inManualCandidates input) < 2 ^ 64"
  shows "let (result, failure) = SelectTokenRoute now input; selected = resCandidates result in
    (failure = None \<longleftrightarrow> (\<exists>c \<in> set (sourceCandidates input). eligibleCandidate c)) \<and>
    (failure = None \<longrightarrow> selected \<noteq> [] \<and> rdSelectedChannelID (resDecision result) = slChannelID (hd selected)) \<and>
    distinct (map slChannelID selected) \<and>
    (\<forall>c \<in> set selected. c \<in> set (sourceCandidates input) \<and> eligibleCandidate c) \<and>
    (ResolveRouteSource (inSourceInput input) = RouteSourceAutoLab \<longrightarrow> length selected \<le> 3)"
  using SelectTokenRoute_selection [OF assms, of now]
    selected_ok [of "resCandidates (fst (SelectTokenRoute now input))" "sourceCandidates input"]
    no_eligible [of "sourceCandidates input"]
  by (auto simp: selectionOf_def picked_def Let_def split: prod.splits)

definition sampleCandidate :: "int \<Rightarrow> int \<Rightarrow> int \<Rightarrow> string \<Rightarrow> RouteSelectionCandidate" where
  "sampleCandidate i position weight reason = zeroSelectionCandidate\<lparr>slChannelID := i,
     slPosition := position, slWeight := weight, slFilterReason := reason, slHealthUsable := True\<rparr>"

definition sampleSelection :: RouteSelectionInput where
  "sampleSelection = \<lparr>inSourceInput = \<lparr>siCapabilityEnabled = True, siHasProfile = True,
       siProfileMode = ''manual''\<rparr>,
     inManualGroupEnabled = True, inManualLoadBalance = True,
     inManualCandidates = [sampleCandidate 4 1 0 [], sampleCandidate 1 0 1 [], sampleCandidate 2 0 5 [],
       sampleCandidate 3 0 1 ''entry_disabled''],
     inAutoCandidates = [], inTopK = 3, inConfigurationVersion = 1, inRequestID = ''req-1'',
     inRequestModel = ''gpt'', inDynamicScoringEnabled = False\<rparr>"

theorem SelectTokenRoute_selects_eligible_witness:
  "let (result, failure) = SelectTokenRoute 0 sampleSelection; selected = resCandidates result in
   length (inManualCandidates sampleSelection) < 2 ^ 64 \<and> failure = None \<and>
   distinct (map slChannelID selected) \<and> set (map slChannelID selected) = {1, 2, 4} \<and>
   (\<forall>c \<in> set selected. eligibleCandidate c)"
proof -
  have len: "length (inManualCandidates sampleSelection) < 2 ^ 64" by (simp add: sampleSelection_def)
  have "set (map slChannelID (resCandidates (fst (SelectTokenRoute 0 sampleSelection)))) = {1, 2, 4} \<and>
      snd (SelectTokenRoute 0 sampleSelection) = None"
    by code_simp
  then show ?thesis
    using SelectTokenRoute_selects_eligible [OF len, of 0] len by (auto simp: Let_def split: prod.splits)
qed

section \<open>Positions and records\<close>

lemma selectManual_positions:
  assumes "distinct (map slChannelID eligible)" "length eligible < 2 ^ 64"
  shows "sorted (map slPosition (selectManual input eligible))"
proof -
  let ?o = "orderManualRouteCandidatesForSelection (map staticScoreCandidate eligible)
    (inManualLoadBalance input) (inRequestID input)"
  have "mset ?o = mset (map staticScoreCandidate eligible)"
    using assms(2) by (intro mset_orderManual) simp
  then have "set ?o = staticScoreCandidate ` set eligible" by (metis list.set_map set_mset_mset)
  then have "slPosition (candidateByID eligible (scChannelID s)) = scPosition s" if "s \<in> set ?o" for s
    using that candidateByID_id [OF assms(1)] by auto
  then have "map slPosition (selectManual input eligible) = map scPosition ?o"
    by (simp add: selectManual_def)
  moreover have "sorted (map scPosition ?o)" using assms(2) by (intro sorted_orderManual) simp
  ultimately show ?thesis by simp
qed

text \<open>
  C31.  Load balancing stays inside one position: whatever the weights and the request id, the
  attempts of a manual route follow the user's positions in ascending order.
\<close>

theorem manual_selection_keeps_positions:
  assumes "ResolveRouteSource (inSourceInput input) = RouteSourceManual"
    and "length (inManualCandidates input) < 2 ^ 64"
  shows "sorted (map slPosition (resCandidates (fst (SelectTokenRoute now input))))"
proof -
  let ?e = "eligibleRouteSelectionCandidates (normalizeRouteSelectionCandidates (inManualCandidates input))"
  have "length ?e < 2 ^ 64"
    using length_eligible [of "normalizeRouteSelectionCandidates (inManualCandidates input)"] assms(2)
    by (simp add: normalizeRouteSelectionCandidates_def)
  from selectManual_positions [OF eligible_distinct this, of input]
  have sorted: "sorted (map slPosition (selectManual input ?e))" .
  show ?thesis
  proof (cases "selectManual input ?e")
    case Nil
    then show ?thesis by (simp add: SelectTokenRoute_def assms(1) Let_def)
  next
    case (Cons c cs)
    from sorted show ?thesis unfolding Cons by (simp add: SelectTokenRoute_def assms(1) Let_def Cons)
  qed
qed

theorem manual_selection_keeps_positions_witness:
  "ResolveRouteSource (inSourceInput sampleSelection) = RouteSourceManual \<and>
   sorted (map slPosition (resCandidates (fst (SelectTokenRoute 0 sampleSelection)))) \<and>
   length (resCandidates (fst (SelectTokenRoute 0 sampleSelection))) = 3"
proof -
  have s: "ResolveRouteSource (inSourceInput sampleSelection) = RouteSourceManual"
    "length (inManualCandidates sampleSelection) < 2 ^ 64"
    by (simp_all add: sampleSelection_def ResolveRouteSource_def)
  have "length (resCandidates (fst (SelectTokenRoute 0 sampleSelection))) = 3" by code_simp
  with s manual_selection_keeps_positions [OF s, of 0] show ?thesis by simp
qed

end
