(* ===== verification/Route_Retry.thy ===== *)
theory Route_Retry
  imports Route_Select Route_Health
begin

text \<open>
  \<open>service/route_live.go\<close> and the attempt loop of \<open>controller/relay.go\<close>: the attempts of a live
  selection, the retry policy and the counters, and the loop as a state machine.  Its step either
  drops a candidate the price or lease check rejected, or records an upstream attempt that failed
  and moves to the candidate the retry policy allows next.  The upstream call, the key choice and
  the class of its error are the environment's.  Every run of the loop is finite and makes at most
  three upstream attempts.
\<close>

section \<open>Policies\<close>

record RouteLiveRetryPolicy =
  rpMode :: string
  rpMaxSameResourceAttempts :: int
  rpMaxFailoverAttempts :: int

abbreviation RoutePolicyRetryNone :: string where "RoutePolicyRetryNone \<equiv> ''none''"
abbreviation RoutePolicyRetrySameChannel :: string where "RoutePolicyRetrySameChannel \<equiv> ''same_channel''"
abbreviation RoutePolicyRetryNextChannel :: string where "RoutePolicyRetryNextChannel \<equiv> ''next_channel''"
abbreviation RoutePolicyRetrySameThenNext :: string where "RoutePolicyRetrySameThenNext \<equiv> ''same_then_next''"

definition DefaultSameChannelAttempts :: int where "DefaultSameChannelAttempts = 1"
definition DefaultFailoverAttempts :: int where "DefaultFailoverAttempts = 2"
definition DefaultTotalAttempts :: int where "DefaultTotalAttempts = 3"

definition clampAttempts :: "int \<Rightarrow> int \<Rightarrow> int" where
  "clampAttempts limit n = (let n = (if n < 0 then 0 else n) in if n > limit then limit else n)"

definition Budget :: "RouteLiveRetryPolicy \<Rightarrow> RouteRetryBudget" where
  "Budget policy =
     (if rpMode policy = [] then DefaultRouteRetryBudget
      else \<lparr>rbSameKeyAttempts = 0,
            rbSameChannelAttempts = clampAttempts DefaultSameChannelAttempts (rpMaxSameResourceAttempts policy),
            rbFailoverAttempts = clampAttempts DefaultFailoverAttempts (rpMaxFailoverAttempts policy),
            rbTotalAttempts = DefaultTotalAttempts\<rparr>)"

record LiveRouteSelection =
  lvSource :: RouteSource
  lvDecision :: RouteDecision
  lvAttempts :: "RouteDecisionCandidate list"
  lvMaxRatio :: f64
  lvRetry :: RouteLiveRetryPolicy

definition AllowsPriceRatio :: "LiveRouteSelection \<Rightarrow> f64 \<Rightarrow> bool" where
  "AllowsPriceRatio selection actualRatio =
     (if lvSource selection \<noteq> RouteSourceManual \<or> fle (lvMaxRatio selection) (FFin 0) then True
      else if actualRatio = FNaN \<or> actualRatio = FPInf \<or> actualRatio = FNInf \<or> flt actualRatio (FFin 0)
      then False
      else fle actualRatio (lvMaxRatio selection))"

section \<open>Attempts\<close>

definition availableRouteAttemptCandidates :: "RouteSelectionResult \<Rightarrow> RouteDecisionCandidate list" where
  "availableRouteAttemptCandidates result =
     List.map_filter (\<lambda>c. find (\<lambda>d. dcChannelID d = slChannelID c \<and> dcFilterReason d = [])
         (rdCandidates (resDecision result))) (resCandidates result)"

definition selectedRouteAttemptCandidates :: "RouteSelectionResult \<Rightarrow> RouteDecisionCandidate list" where
  "selectedRouteAttemptCandidates result =
     concat (map (\<lambda>c. if DefaultSameChannelAttempts > 0 then [c, c] else [c])
       (availableRouteAttemptCandidates result))"

definition manualRouteAttemptCandidates ::
  "RouteSelectionResult \<Rightarrow> RouteLiveRetryPolicy \<Rightarrow> RouteDecisionCandidate list" where
  "manualRouteAttemptCandidates result policy =
     (let available = availableRouteAttemptCandidates result;
          mode = (if rpMode policy = [] then RoutePolicyRetryNextChannel else rpMode policy);
          same = (\<lambda>c. replicate (Suc (nat (clampAttempts DefaultSameChannelAttempts
                   (rpMaxSameResourceAttempts policy)))) c);
          failovers = nat (clampAttempts DefaultFailoverAttempts (rpMaxFailoverAttempts policy)) in
      case available of [] \<Rightarrow> []
      | first # _ \<Rightarrow>
        if mode = RoutePolicyRetryNone then [first]
        else if mode = RoutePolicyRetrySameChannel then same first
        else if mode = RoutePolicyRetrySameThenNext
        then concat (map same (take (Suc failovers) available))
        else take (Suc failovers) available)"

text \<open>The scans of \<open>Attempts\<close> return the index of the first acceptable attempt.\<close>

fun scanAttempts ::
  "(RouteDecisionCandidate \<Rightarrow> bool) \<Rightarrow> nat \<Rightarrow> RouteDecisionCandidate list
   \<Rightarrow> (RouteDecisionCandidate \<times> nat) option" where
  "scanAttempts P index [] = None"
| "scanAttempts P index (c # cs) = (if P c then Some (c, index) else scanAttempts P (Suc index) cs)"

definition CandidateAtOrAfter ::
  "LiveRouteSelection \<Rightarrow> nat \<Rightarrow> (RouteDecisionCandidate \<times> nat) option" where
  "CandidateAtOrAfter selection attempt =
     scanAttempts (\<lambda>c. dcFilterReason c = []) attempt (drop attempt (lvAttempts selection))"

definition retryRelation :: "int \<Rightarrow> RouteDecisionCandidate \<Rightarrow> RouteRetryRelation" where
  "retryRelation currentChannelID c =
     (if dcChannelID c = currentChannelID then RouteRetrySameChannel else RouteRetryFailover)"

definition NextCandidateForError ::
  "LiveRouteSelection \<Rightarrow> nat \<Rightarrow> int \<Rightarrow> RouteErrorClassification \<Rightarrow> RouteRetryCounters
   \<Rightarrow> (RouteDecisionCandidate \<times> nat) option" where
  "NextCandidateForError selection currentAttempt currentChannelID class counters =
     (let mode = rpMode (lvRetry selection) in
      if mode = RoutePolicyRetryNone then None
      else scanAttempts (\<lambda>c. dcFilterReason c = [] \<and>
          \<not> (mode = RoutePolicyRetrySameChannel \<and> retryRelation currentChannelID c \<noteq> RouteRetrySameChannel) \<and>
          \<not> (mode = RoutePolicyRetryNextChannel \<and> retryRelation currentChannelID c \<noteq> RouteRetryFailover) \<and>
          Allows (Budget (lvRetry selection)) class (retryRelation currentChannelID c) counters)
        (Suc currentAttempt) (drop (Suc currentAttempt) (lvAttempts selection)))"

section \<open>The attempt loop\<close>

text \<open>What the request context holds of the live route.\<close>

record live_ctx =
  lcSelection :: LiveRouteSelection
  lcRetry :: nat
  lcCounters :: RouteRetryCounters
  lcPrevious :: "(int \<times> int) option"

definition noCounters :: RouteRetryCounters where
  "noCounters = \<lparr>rkSameKeyAttempts = 0, rkSameChannelAttempts = 0, rkFailoverAttempts = 0,
     rkTotalAttempts = 0\<rparr>"

definition beginLiveRouteUpstreamAttempt :: "int \<Rightarrow> int \<Rightarrow> live_ctx \<Rightarrow> live_ctx" where
  "beginLiveRouteUpstreamAttempt channelID keyIndex c =
     (let k = lcCounters c;
          k = (case lcPrevious c of None \<Rightarrow> k
               | Some (previousChannelID, previousKeyIndex) \<Rightarrow>
                   if previousChannelID \<noteq> channelID
                   then k\<lparr>rkFailoverAttempts := rkFailoverAttempts k + 1\<rparr>
                   else if previousKeyIndex = keyIndex
                   then k\<lparr>rkSameKeyAttempts := rkSameKeyAttempts k + 1\<rparr>
                   else k\<lparr>rkSameChannelAttempts := rkSameChannelAttempts k + 1\<rparr>)
      in c\<lparr>lcCounters := k\<lparr>rkTotalAttempts := rkTotalAttempts k + 1\<rparr>,
           lcPrevious := Some (channelID, keyIndex)\<rparr>)"

definition markLiveRouteCandidateFiltered :: "int \<Rightarrow> string \<Rightarrow> live_ctx \<Rightarrow> live_ctx" where
  "markLiveRouteCandidateFiltered channelID reason c =
     (let s = lcSelection c; d = lvDecision s in
      if channelID \<le> 0 \<or> reason = [] \<or> lvSource s = RouteSourceUnavailable then c
      else c\<lparr>lcSelection := s\<lparr>
        lvDecision := d\<lparr>
          rdCandidates := map (\<lambda>x. if dcChannelID x = channelID \<and> dcFilterReason x = []
            then x\<lparr>dcFilterReason := reason, dcLeaseState := ''qualification_failed''\<rparr> else x) (rdCandidates d),
          rdLeaseState := ''qualification_failed'',
          rdSelectedChannelID := (if rdSelectedChannelID d = channelID then 0 else rdSelectedChannelID d)\<rparr>,
        lvAttempts := map (\<lambda>x. if dcChannelID x = channelID then x\<lparr>dcFilterReason := reason\<rparr> else x)
          (lvAttempts s)\<rparr>\<rparr>)"

definition relayRetryLimit :: "LiveRouteSelection \<Rightarrow> int" where
  "relayRetryLimit s = (if lvAttempts s \<noteq> [] then int (length (lvAttempts s)) - 1 else DefaultTotalAttempts - 1)"

text \<open>The loop is entered again only while attempts are left and the index is in range.\<close>

definition loopContinues :: "live_ctx \<Rightarrow> bool" where
  "loopContinues c \<longleftrightarrow> rkTotalAttempts (lcCounters c) < DefaultTotalAttempts \<and>
     int (lcRetry c) \<le> relayRetryLimit (lcSelection c)"

inductive live_step :: "live_ctx \<Rightarrow> live_ctx \<Rightarrow> bool" where
  rejected:
    "loopContinues c \<Longrightarrow> c1 = markLiveRouteCandidateFiltered channelID reason c \<or> c1 = c \<Longrightarrow>
     CandidateAtOrAfter (lcSelection c1) (Suc (lcRetry c)) = Some (candidate, index) \<Longrightarrow>
     live_step c (c1\<lparr>lcRetry := index\<rparr>)"
| failed:
    "loopContinues c \<Longrightarrow> c1 = beginLiveRouteUpstreamAttempt channelID keyIndex c \<Longrightarrow>
     NextCandidateForError (lcSelection c1) (lcRetry c) channelID class (lcCounters c1) = Some (candidate, index) \<Longrightarrow>
     live_step c (c1\<lparr>lcRetry := index\<rparr>)"

inductive_cases live_stepE: "live_step c c'"

section \<open>The loop stops\<close>

lemma scanAttempts_index:
  "scanAttempts P i cs = Some (c, j) \<Longrightarrow> i \<le> j \<and> j < i + length cs \<and> P c"
  by (induction P i cs rule: scanAttempts.induct) (auto split: if_splits)

lemma length_mark [simp]:
  "length (lvAttempts (lcSelection (markLiveRouteCandidateFiltered channelID reason c))) =
   length (lvAttempts (lcSelection c))"
  "lcRetry (markLiveRouteCandidateFiltered channelID reason c) = lcRetry c"
  "lcCounters (markLiveRouteCandidateFiltered channelID reason c) = lcCounters c"
  "lcPrevious (markLiveRouteCandidateFiltered channelID reason c) = lcPrevious c"
  by (simp_all add: markLiveRouteCandidateFiltered_def Let_def)

lemma begin_simps [simp]:
  "lcSelection (beginLiveRouteUpstreamAttempt channelID keyIndex c) = lcSelection c"
  "lcRetry (beginLiveRouteUpstreamAttempt channelID keyIndex c) = lcRetry c"
  "rkTotalAttempts (lcCounters (beginLiveRouteUpstreamAttempt channelID keyIndex c)) =
     rkTotalAttempts (lcCounters c) + 1"
  by (simp_all add: beginLiveRouteUpstreamAttempt_def Let_def split: option.split)

lemma live_step_advances:
  assumes "live_step c c'"
  shows "lcRetry c < lcRetry c' \<and> lcRetry c' < length (lvAttempts (lcSelection c')) \<and>
    length (lvAttempts (lcSelection c')) = length (lvAttempts (lcSelection c))"
  using assms
proof cases
  case (rejected c1 channelID reason candidate index)
  then have "length (lvAttempts (lcSelection c1)) = length (lvAttempts (lcSelection c))" by auto
  with rejected scanAttempts_index [of _ "Suc (lcRetry c)" "drop (Suc (lcRetry c)) (lvAttempts (lcSelection c1))"]
  show ?thesis by (fastforce simp: CandidateAtOrAfter_def)
next
  case (failed c1 channelID keyIndex cls candidate index)
  with scanAttempts_index [of _ "Suc (lcRetry c)" "drop (Suc (lcRetry c)) (lvAttempts (lcSelection c))"]
  show ?thesis by (fastforce simp: NextCandidateForError_def Let_def split: if_splits)
qed

text \<open>Every attempt but the first is a retry of exactly one kind.\<close>

definition attemptsOk :: "live_ctx \<Rightarrow> bool" where
  "attemptsOk c \<longleftrightarrow> (let k = lcCounters c in
     0 \<le> rkSameKeyAttempts k \<and> 0 \<le> rkSameChannelAttempts k \<and> 0 \<le> rkFailoverAttempts k \<and>
     rkTotalAttempts k \<le> DefaultTotalAttempts \<and> (lcPrevious c = None \<longrightarrow> rkTotalAttempts k = 0) \<and>
     rkSameKeyAttempts k + rkSameChannelAttempts k + rkFailoverAttempts k +
       (if lcPrevious c = None then 0 else 1) = rkTotalAttempts k)"

lemma live_step_attemptsOk: "attemptsOk c \<Longrightarrow> live_step c c' \<Longrightarrow> attemptsOk c'"
  by (erule live_stepE)
    (auto simp: attemptsOk_def loopContinues_def beginLiveRouteUpstreamAttempt_def Let_def split: option.splits)

interpretation live: step_system live_step attemptsOk
  by unfold_locales (rule live_step_attemptsOk)

lemma live_steps_advance:
  "(live_step ^^ n) c c' \<Longrightarrow>
   lcRetry c + n \<le> lcRetry c' \<and> length (lvAttempts (lcSelection c')) = length (lvAttempts (lcSelection c)) \<and>
   (0 < n \<longrightarrow> lcRetry c' < length (lvAttempts (lcSelection c)))"
proof (induction n arbitrary: c')
  case (Suc n)
  then obtain c1 where "(live_step ^^ n) c c1" "live_step c1 c'" by auto
  with Suc.IH [of c1] live_step_advances [of c1 c'] show ?case by auto
qed simp


definition sampleAttempt :: "int \<Rightarrow> RouteDecisionCandidate" where
  "sampleAttempt i = fallbackDecisionCandidate (zeroSelectionCandidate\<lparr>slChannelID := i\<rparr>)"

definition sampleLive :: live_ctx where
  "sampleLive = \<lparr>lcSelection = \<lparr>lvSource = RouteSourceAutoLab,
       lvDecision = NewRouteDecision 0 ''r'' RouteSourceAutoLab ''gpt'' 0,
       lvAttempts = [sampleAttempt 1, sampleAttempt 1, sampleAttempt 2, sampleAttempt 2],
       lvMaxRatio = FFin 0,
       lvRetry = \<lparr>rpMode = ''auto'', rpMaxSameResourceAttempts = 1, rpMaxFailoverAttempts = 2\<rparr>\<rparr>,
     lcRetry = 0, lcCounters = noCounters, lcPrevious = None\<rparr>"


end
