(* ===== verification/Route_Lease.thy ===== *)
theory Route_Lease
  imports Route_Health Quota_Store
begin

text \<open>
  \<open>service/route_lease.go\<close> and \<open>service/route_policy.go\<close>: distributed admission.  A lease occupies
  a slot in the sorted set of every resource it names, with its expiry as the score, and is
  described by a hash and a request key that expire with it.  The three Lua scripts run
  atomically, so each is a function on the Redis state; times are Redis milliseconds, and a key
  with a time to live is visible until its deadline, as in \<open>Store\<close>.  A script call may fail before
  or after it ran.  The theory shows that the unexpired leases of a resource never exceed its
  capacity and that releasing a lease undoes acquiring it.  Context cancellation and the renewal
  ticker are not modelled; a lease id is the caller's, and a time to live is in whole
  milliseconds (Redis refuses the positive duration below one that the Go guard lets through).
\<close>

section \<open>Keys\<close>

definition routeLeasePrefix :: string where "routeLeasePrefix = ''route:lease:v1''"

definition UserRouteLeaseKey :: "int \<Rightarrow> string" where
  "UserRouteLeaseKey userID = routeLeasePrefix @ '':user:'' @ dec_int userID"

definition TokenRouteLeaseKey :: "int \<Rightarrow> string" where
  "TokenRouteLeaseKey tokenID = routeLeasePrefix @ '':token:'' @ dec_int tokenID"

definition ChannelRouteLeaseKey :: "int \<Rightarrow> string" where
  "ChannelRouteLeaseKey channelID = routeLeasePrefix @ '':channel:'' @ dec_int channelID"

definition routeLeaseMetaKey :: "string \<Rightarrow> string" where
  "routeLeaseMetaKey leaseID = routeLeasePrefix @ '':meta:'' @ leaseID"

definition routeLeaseRequestKey :: "string \<Rightarrow> string" where
  "routeLeaseRequestKey requestID = routeLeasePrefix @ '':request:'' @ requestID"

lemma meta_key_inj [simp]: "routeLeaseMetaKey a = routeLeaseMetaKey b \<longleftrightarrow> a = b"
  by (simp add: routeLeaseMetaKey_def)

lemma request_key_inj [simp]: "routeLeaseRequestKey a = routeLeaseRequestKey b \<longleftrightarrow> a = b"
  by (simp add: routeLeaseRequestKey_def)

text \<open>The three kinds of keys are disjoint, so each kind is a map of its own below.\<close>

lemma lease_keys_disjoint:
  "ChannelRouteLeaseKey c \<noteq> routeLeaseMetaKey l" "ChannelRouteLeaseKey c \<noteq> routeLeaseRequestKey r"
  "routeLeaseMetaKey l \<noteq> routeLeaseRequestKey r"
  by (simp_all add: ChannelRouteLeaseKey_def routeLeaseMetaKey_def routeLeaseRequestKey_def)

section \<open>The scripts\<close>

record lease_meta =
  lmLeaseID :: string
  lmRequestID :: string
  lmExpiresAt :: int
  lmResources :: "string list"

text \<open>A sorted set is a list of members with their scores, a member at most once.\<close>

record lease_redis =
  zsets :: "string \<Rightarrow> (string \<times> int) list"
  metas :: "string \<rightharpoonup> lease_meta \<times> int"
  requestKeys :: "string \<rightharpoonup> string \<times> int"

definition zrem :: "string \<Rightarrow> (string \<times> int) list \<Rightarrow> (string \<times> int) list" where
  "zrem member z = filter (\<lambda>(m, _). m \<noteq> member) z"

definition zadd :: "int \<Rightarrow> string \<Rightarrow> (string \<times> int) list \<Rightarrow> (string \<times> int) list" where
  "zadd score member z = (member, score) # zrem member z"

definition zpurge :: "int \<Rightarrow> (string \<times> int) list \<Rightarrow> (string \<times> int) list" where
  "zpurge now z = filter (\<lambda>(_, score). now < score) z"

definition onZset :: "string \<Rightarrow> ((string \<times> int) list \<Rightarrow> (string \<times> int) list) \<Rightarrow> lease_redis \<Rightarrow> lease_redis" where
  "onZset key f st = st\<lparr>zsets := (zsets st)(key := f (zsets st key))\<rparr>"

record RouteLeaseResource =
  lrKey :: string
  lrCapacity :: int

text \<open>The first loop of the acquire script; a full resource stops it after the purge.\<close>

fun admitResources :: "int \<Rightarrow> RouteLeaseResource list \<Rightarrow> lease_redis \<Rightarrow> bool \<times> lease_redis" where
  "admitResources now [] st = (True, st)"
| "admitResources now (r # rs) st =
     (let st = onZset (lrKey r) (zpurge now) st in
      if int (length (zsets st (lrKey r))) \<ge> lrCapacity r then (False, st)
      else admitResources now rs st)"

definition routeLeaseAcquireScript ::
  "int \<Rightarrow> string \<Rightarrow> string \<Rightarrow> int \<Rightarrow> RouteLeaseResource list \<Rightarrow> lease_redis \<Rightarrow> int \<times> lease_redis" where
  "routeLeaseAcquireScript now leaseID requestID ttl resources st =
     (if live now (metas st (routeLeaseMetaKey leaseID)) \<noteq> None \<or>
         live now (requestKeys st (routeLeaseRequestKey requestID)) \<noteq> None
      then (0, st)
      else case admitResources now resources st of
        (False, st) \<Rightarrow> (- 1, st)
      | (True, st) \<Rightarrow>
          let expiry = now + ttl;
              st = fold (\<lambda>r. onZset (lrKey r) (zadd expiry leaseID)) resources st
          in (1, st\<lparr>
            metas := (metas st)(routeLeaseMetaKey leaseID \<mapsto>
              (\<lparr>lmLeaseID = leaseID, lmRequestID = requestID, lmExpiresAt = expiry,
                lmResources = map lrKey resources\<rparr>, expiry)),
            requestKeys := (requestKeys st)(routeLeaseRequestKey requestID \<mapsto> (leaseID, expiry))\<rparr>))"

text \<open>The ownership test that opens the release and renew scripts.\<close>

definition ownsLease :: "int \<Rightarrow> string \<Rightarrow> string \<Rightarrow> string list \<Rightarrow> lease_redis \<Rightarrow> bool" where
  "ownsLease now leaseID requestID keys st =
     (case live now (metas st (routeLeaseMetaKey leaseID)) of
        None \<Rightarrow> False
      | Some m \<Rightarrow> lmLeaseID m = leaseID \<and> lmRequestID m = requestID \<and>
          live now (requestKeys st (routeLeaseRequestKey requestID)) = Some leaseID \<and>
          length (lmResources m) = length keys \<and> lmResources m = keys)"

definition routeLeaseReleaseScript ::
  "int \<Rightarrow> string \<Rightarrow> string \<Rightarrow> string list \<Rightarrow> lease_redis \<Rightarrow> int \<times> lease_redis" where
  "routeLeaseReleaseScript now leaseID requestID keys st =
     (if \<not> ownsLease now leaseID requestID keys st then (0, st)
      else let st = fold (\<lambda>k. onZset k (zrem leaseID)) keys st
        in (1, st\<lparr>metas := (metas st)(routeLeaseMetaKey leaseID := None),
                  requestKeys := (requestKeys st)(routeLeaseRequestKey requestID := None)\<rparr>))"

definition routeLeaseRenewScript ::
  "int \<Rightarrow> string \<Rightarrow> string \<Rightarrow> int \<Rightarrow> string list \<Rightarrow> lease_redis \<Rightarrow> int \<times> lease_redis" where
  "routeLeaseRenewScript now leaseID requestID ttl keys st =
     (if \<not> ownsLease now leaseID requestID keys st then (0, st)
      else let expiry = now + ttl;
          st = st\<lparr>
            metas := (metas st)(routeLeaseMetaKey leaseID := map_option
              (\<lambda>(m, _). (m\<lparr>lmExpiresAt := expiry\<rparr>, expiry)) (metas st (routeLeaseMetaKey leaseID))),
            requestKeys := (requestKeys st)(routeLeaseRequestKey requestID := map_option
              (\<lambda>(l, _). (l, expiry)) (requestKeys st (routeLeaseRequestKey requestID)))\<rparr>
        in (1, fold (\<lambda>k. onZset k (zadd expiry leaseID)) keys st))"

section \<open>The Go functions\<close>

record RouteLease =
  rlLeaseID :: string
  rlRequestID :: string
  rlChannelID :: int
  rlResources :: "RouteLeaseResource list"
  rlExpiresAt :: int

datatype lease_err =
    ErrRouteLeaseUnavailable
  | ErrRouteLeaseConflict
  | ErrRouteLeaseCapacity
  | ErrRouteLeaseOwnership
  | ErrRouteLeaseRuntime
  | ErrLeaseStore err

record lease_world =
  lwWorld :: world
  lwRedis :: lease_redis
  lwNow :: int
  lwOps :: nat
  lwFate :: "nat \<Rightarrow> fate"
  AcquireFailures :: nat
  RenewFailures :: nat
  ReleaseFailures :: nat

type_synonym 'a leaseM = "(lease_world, lease_err, 'a) go"

definition scriptM :: "(lease_redis \<Rightarrow> int \<times> lease_redis) \<Rightarrow> int leaseM" where
  "scriptM f w =
     (let w1 = w\<lparr>lwOps := Suc (lwOps w)\<rparr> in
      case lwFate w (lwOps w) of
        FOk \<Rightarrow> (Inr (fst (f (lwRedis w))), w1\<lparr>lwRedis := snd (f (lwRedis w))\<rparr>)
      | FFail \<Rightarrow> (Inl ErrRouteLeaseUnavailable, w1)
      | FLost \<Rightarrow> (Inl ErrRouteLeaseUnavailable, w1\<lparr>lwRedis := snd (f (lwRedis w))\<rparr>))"

definition acquireFailed :: "lease_err \<Rightarrow> 'a leaseM" where
  "acquireFailed e = seqM (modifyM (\<lambda>w. w\<lparr>AcquireFailures := Suc (AcquireFailures w)\<rparr>)) (throwM e)"

definition releaseFailed :: "lease_err \<Rightarrow> 'a leaseM" where
  "releaseFailed e = seqM (modifyM (\<lambda>w. w\<lparr>ReleaseFailures := Suc (ReleaseFailures w)\<rparr>)) (throwM e)"

definition renewFailed :: "lease_err \<Rightarrow> 'a leaseM" where
  "renewFailed e = seqM (modifyM (\<lambda>w. w\<lparr>RenewFailures := Suc (RenewFailures w)\<rparr>)) (throwM e)"

definition validResources :: "RouteLeaseResource list \<Rightarrow> bool" where
  "validResources rs = (distinct (map lrKey rs) \<and> (\<forall>r \<in> set rs. TrimSpace (lrKey r) \<noteq> [] \<and> lrCapacity r > 0))"

definition AcquireRouteLease ::
  "string \<Rightarrow> string \<Rightarrow> int \<Rightarrow> RouteLeaseResource list \<Rightarrow> RouteLease leaseM" where
  "AcquireRouteLease requestID leaseID ttl resources =
     (if TrimSpace requestID = [] \<or> TrimSpace leaseID = [] \<or> ttl \<le> 0 \<or> resources = []
      then acquireFailed ErrRouteLeaseUnavailable
      else if \<not> validResources resources then acquireFailed ErrRouteLeaseUnavailable
      else bindM (getsM lwNow) (\<lambda>now.
        bindM (tryM (scriptM (routeLeaseAcquireScript now leaseID requestID ttl resources))) (\<lambda>r.
          case r of Inl e \<Rightarrow> acquireFailed e
          | Inr n \<Rightarrow>
              if n = 0 then acquireFailed ErrRouteLeaseConflict
              else if n = - 1 then acquireFailed ErrRouteLeaseCapacity
              else retM \<lparr>rlLeaseID = leaseID, rlRequestID = requestID, rlChannelID = 0,
                         rlResources = resources, rlExpiresAt = now + ttl\<rparr>)))"

definition ReleaseRouteLease :: "RouteLease \<Rightarrow> unit leaseM" where
  "ReleaseRouteLease lease =
     (if TrimSpace (rlLeaseID lease) = [] \<or> TrimSpace (rlRequestID lease) = [] \<or> rlResources lease = []
      then releaseFailed ErrRouteLeaseUnavailable
      else bindM (getsM lwNow) (\<lambda>now.
        bindM (tryM (scriptM (routeLeaseReleaseScript now (rlLeaseID lease) (rlRequestID lease)
            (map lrKey (rlResources lease))))) (\<lambda>r.
          case r of Inl e \<Rightarrow> releaseFailed e
          | Inr n \<Rightarrow> if n = 0 then releaseFailed ErrRouteLeaseOwnership else retM ())))"

definition RenewRouteLease :: "RouteLease \<Rightarrow> int \<Rightarrow> int leaseM" where
  "RenewRouteLease lease ttl =
     (if TrimSpace (rlLeaseID lease) = [] \<or> TrimSpace (rlRequestID lease) = [] \<or> ttl \<le> 0
      then renewFailed ErrRouteLeaseUnavailable
      else bindM (getsM lwNow) (\<lambda>now.
        bindM (tryM (scriptM (routeLeaseRenewScript now (rlLeaseID lease) (rlRequestID lease) ttl
            (map lrKey (rlResources lease))))) (\<lambda>r.
          case r of Inl e \<Rightarrow> renewFailed e
          | Inr n \<Rightarrow> if n = 0 then renewFailed ErrRouteLeaseOwnership else retM (now + ttl))))"

section \<open>Configured leases\<close>

definition storeM :: "'a goM \<Rightarrow> 'a leaseM" where
  "storeM m w = (case m (lwWorld w) of
      (Inl e, w1) \<Rightarrow> (Inl (ErrLeaseStore e), w\<lparr>lwWorld := w1\<rparr>)
    | (Inr x, w1) \<Rightarrow> (Inr x, w\<lparr>lwWorld := w1\<rparr>))"

definition RoutingSettings :: "Channel \<Rightarrow> err + int \<times> f64" where
  "RoutingSettings channel =
     (let capacity = (if cCapacityTotal channel = 0 then 20 else cCapacityTotal channel);
          ratio = (if feq (cChannelRatio channel) (FFin 0) then FFin 1 else cChannelRatio channel) in
      if capacity < 1 \<or> capacity > 1000000 \<or> fle ratio (FFin 0) \<or> flt (FFin 1000) ratio \<or>
         ratio = FNaN \<or> ratio = FPInf \<or> ratio = FNInf
      then Inl (ErrText ''invalid channel capacity or price ratio'') else Inr (capacity, ratio))"

definition loadRouteChannel :: "int \<Rightarrow> Channel leaseM" where
  "loadRouteChannel channelID =
     (if channelID \<le> 0 then throwM ErrRouteLeaseRuntime
      else bindM (storeM (firstM (\<lambda>d. channels d channelID))) (\<lambda>channel.
        case RoutingSettings channel of Inl e \<Rightarrow> throwM (ErrLeaseStore e)
        | Inr (capacity, ratio) \<Rightarrow>
            let channel = channel\<lparr>cCapacityTotal := capacity, cChannelRatio := ratio\<rparr> in
            if cStatus channel \<noteq> ChannelStatusEnabled then throwM ErrRouteLeaseRuntime
            else retM channel))"

definition AcquireConfiguredRouteLease ::
  "string \<Rightarrow> string \<Rightarrow> int \<Rightarrow> int \<Rightarrow> int \<Rightarrow> string \<Rightarrow> int \<Rightarrow> (RouteLease \<times> Channel) leaseM" where
  "AcquireConfiguredRouteLease requestID newLeaseID channelID userID tokenID requestModel ttl =
     bindM (loadRouteChannel channelID) (\<lambda>channel.
       if userID \<le> 0 \<or> tokenID < 0 \<or> TrimSpace requestModel = [] then throwM ErrRouteLeaseRuntime
       else bindM (getsM (RedisEnabled \<circ> lwWorld)) (\<lambda>enabled.
         if \<not> enabled then throwM ErrRouteLeaseUnavailable
         else bindM (AcquireRouteLease requestID newLeaseID ttl
             [\<lparr>lrKey = ChannelRouteLeaseKey channelID, lrCapacity = cCapacityTotal channel\<rparr>]) (\<lambda>lease.
           retM (lease\<lparr>rlChannelID := channelID\<rparr>, channel))))"

definition ReleaseConfiguredRouteLease :: "RouteLease \<Rightarrow> unit leaseM" where
  "ReleaseConfiguredRouteLease lease =
     bindM (getsM (RedisEnabled \<circ> lwWorld)) (\<lambda>enabled.
       if \<not> enabled then throwM ErrRouteLeaseUnavailable else ReleaseRouteLease lease)"

record RouteLeaseRuntimeState =
  rsChannelEnabled :: bool
  rsHealthEpoch :: int
  rsCapabilityVersion :: int
  rsCapacity :: int
  rsChannelRatio :: f64

definition GetChannelCapabilitySnapshotFence :: "int \<Rightarrow> int goM" where
  "GetChannelCapabilitySnapshotFence channelID =
     bindM (tryM (firstM (\<lambda>d. snapshots d channelID))) (\<lambda>r.
       case r of Inr version \<Rightarrow> retM version
       | Inl e \<Rightarrow> if errIs e ErrRecordNotFound then retM 0 else throwM e)"

definition GetRouteRuntimeState ::
  "(string \<Rightarrow> string) \<Rightarrow> int \<Rightarrow> string \<Rightarrow> RouteLeaseRuntimeState leaseM" where
  "GetRouteRuntimeState nfkc channelID requestModel =
     (let canonicalModel = NormalizeModel nfkc requestModel in
      if canonicalModel = [] then throwM ErrRouteLeaseRuntime
      else bindM (loadRouteChannel channelID) (\<lambda>channel.
        bindM (storeM (GetChannelCapabilitySnapshotFence channelID)) (\<lambda>version.
        bindM (tryM (storeM (firstM (findHealth channelID canonicalModel [])))) (\<lambda>r.
          let state = (\<lambda>epoch. \<lparr>rsChannelEnabled = True, rsHealthEpoch = epoch,
                rsCapabilityVersion = version, rsCapacity = cCapacityTotal channel,
                rsChannelRatio = cChannelRatio channel\<rparr>) in
          case r of Inr health \<Rightarrow> retM (state (chHealthEpoch health))
          | Inl e \<Rightarrow> if e = ErrLeaseStore ErrRecordNotFound then retM (state 1) else throwM e))))"

definition RecheckRouteLeaseRuntime ::
  "RouteLeaseRuntimeState \<Rightarrow> RouteLeaseRuntimeState \<Rightarrow> lease_err option" where
  "RecheckRouteLeaseRuntime expected current =
     (if \<not> rsChannelEnabled expected \<or> \<not> rsChannelEnabled current \<or>
         rsCapacity expected \<le> 0 \<or> rsCapacity expected \<noteq> rsCapacity current \<or>
         fle (rsChannelRatio expected) (FFin 0) \<or>
         \<not> feq (rsChannelRatio expected) (rsChannelRatio current) \<or>
         rsHealthEpoch expected \<noteq> rsHealthEpoch current \<or>
         rsCapabilityVersion expected \<noteq> rsCapabilityVersion current
      then Some ErrRouteLeaseRuntime else None)"

section \<open>Slots\<close>

lemma zrem_simps [simp]:
  "zrem l [] = []" "zrem l ((m, s) # z) = (if m = l then zrem l z else (m, s) # zrem l z)"
  by (simp_all add: zrem_def)

lemma zpurge_simps [simp]:
  "zpurge now [] = []" "zpurge now ((m, s) # z) = (if now < s then (m, s) # zpurge now z else zpurge now z)"
  by (simp_all add: zpurge_def)

lemma set_zrem: "set (zrem l z) = {x \<in> set z. fst x \<noteq> l}"
  by (auto simp: zrem_def)

lemma set_zpurge: "set (zpurge now z) = {x \<in> set z. now < snd x}"
  by (auto simp: zpurge_def)

lemma zpurge_idem [simp]: "zpurge now (zpurge now z) = zpurge now z"
  by (simp add: zpurge_def)

lemma zpurge_mono: "now \<le> now' \<Longrightarrow> length (zpurge now' z) \<le> length (zpurge now z)"
  by (induction z) auto

lemma zrem_absent: "l \<notin> fst ` set z \<Longrightarrow> zrem l z = z"
  by (induction z) auto

lemma length_purge_zrem: "length (zpurge now (zrem l z)) \<le> length (zpurge now z)"
  by (induction z) auto

lemma length_purge_zadd:
  assumes "distinct (map fst z)" "(l, s) \<in> set z" "now < s" "now < e"
  shows "length (zpurge now (zadd e l z)) = length (zpurge now z)"
proof -
  have "Suc (length (zpurge now (zrem l z))) = length (zpurge now z)"
    using assms(1-3)
  proof (induction z)
    case (Cons x z)
    show ?case
    proof (cases "fst x = l")
      case True
      with Cons.prems have "l \<notin> fst ` set z" by auto
      with Cons.prems True show ?thesis by (cases x) (auto simp: zrem_absent image_iff)
    next
      case False
      with Cons show ?thesis by (cases x) auto
    qed
  qed simp
  with assms(4) show ?thesis by (simp add: zadd_def)
qed

lemma distinct_slots [simp]:
  "distinct (map fst z) \<Longrightarrow> distinct (map fst (zrem l z))"
  "distinct (map fst z) \<Longrightarrow> distinct (map fst (zpurge now z))"
  "distinct (map fst z) \<Longrightarrow> distinct (map fst (zadd e l z))"
  by (auto simp: zrem_def zpurge_def zadd_def distinct_map_filter)

lemma onZset_simps [simp]:
  "zsets (onZset k f st) = (zsets st)(k := f (zsets st k))"
  "metas (onZset k f st) = metas st" "requestKeys (onZset k f st) = requestKeys st"
  by (simp_all add: onZset_def)

lemma fold_onZset:
  assumes "distinct ks"
  shows "zsets (fold (\<lambda>k. onZset k f) ks st) = (\<lambda>k. if k \<in> set ks then f (zsets st k) else zsets st k)"
    and "metas (fold (\<lambda>k. onZset k f) ks st) = metas st"
    and "requestKeys (fold (\<lambda>k. onZset k f) ks st) = requestKeys st"
  using assms by (induction ks arbitrary: st) auto

lemma fold_resources:
  "fold (\<lambda>r. onZset (lrKey r) f) rs st = fold (\<lambda>k. onZset k f) (map lrKey rs) st"
  by (induction rs arbitrary: st) auto

lemma admitResources_result:
  assumes "distinct (map lrKey rs)" "admitResources now rs st = (ok, st')"
  shows "metas st' = metas st \<and> requestKeys st' = requestKeys st \<and>
    (\<forall>k. zsets st' k = zsets st k \<or> zsets st' k = zpurge now (zsets st k)) \<and>
    (ok \<longrightarrow> (\<forall>k. k \<notin> lrKey ` set rs \<longrightarrow> zsets st' k = zsets st k) \<and>
      (\<forall>r \<in> set rs. zsets st' (lrKey r) = zpurge now (zsets st (lrKey r)) \<and>
         int (length (zpurge now (zsets st (lrKey r)))) < lrCapacity r))"
  using assms
proof (induction rs arbitrary: st)
  case (Cons r rs)
  let ?st = "onZset (lrKey r) (zpurge now) st"
  show ?case
  proof (cases "int (length (zsets ?st (lrKey r))) \<ge> lrCapacity r")
    case True
    with Cons.prems show ?thesis by (auto simp: Let_def)
  next
    case False
    with Cons.prems have run: "admitResources now rs ?st = (ok, st')" by (simp add: Let_def)
    have "distinct (map lrKey rs)" "lrKey r \<notin> lrKey ` set rs" using Cons.prems(1) by auto
    with Cons.IH [OF _ run] False show ?thesis by (auto split: if_splits)
  qed
qed simp

section \<open>The invariant of the slots\<close>

definition leaseInv :: "(string \<Rightarrow> nat) \<Rightarrow> int \<Rightarrow> lease_redis \<Rightarrow> bool" where
  "leaseInv cap now st \<longleftrightarrow>
     (\<forall>k. distinct (map fst (zsets st k)) \<and> length (zpurge now (zsets st k)) \<le> cap k) \<and>
     (\<forall>l m e. metas st (routeLeaseMetaKey l) = Some (m, e) \<and> now < e \<longrightarrow>
        distinct (lmResources m) \<and> (\<forall>k \<in> set (lmResources m). (l, e) \<in> set (zsets st k)))"

lemma leaseInvD:
  assumes "leaseInv cap now st"
  shows "distinct (map fst (zsets st k))" "length (zpurge now (zsets st k)) \<le> cap k"
    and "metas st (routeLeaseMetaKey l) = Some (m, e) \<Longrightarrow> now < e \<Longrightarrow> distinct (lmResources m)"
    and "metas st (routeLeaseMetaKey l) = Some (m, e) \<Longrightarrow> now < e \<Longrightarrow> j \<in> set (lmResources m) \<Longrightarrow>
      (l, e) \<in> set (zsets st j)"
  using assms unfolding leaseInv_def by auto

lemma leaseInvI:
  assumes "\<And>k. distinct (map fst (zsets st k))" "\<And>k. length (zpurge now (zsets st k)) \<le> cap k"
    and "\<And>l m e. metas st (routeLeaseMetaKey l) = Some (m, e) \<Longrightarrow> now < e \<Longrightarrow>
      distinct (lmResources m) \<and> (\<forall>k \<in> set (lmResources m). (l, e) \<in> set (zsets st k))"
  shows "leaseInv cap now st"
  using assms unfolding leaseInv_def by blast

lemma leaseInv_time: "leaseInv cap now st \<Longrightarrow> now \<le> now' \<Longrightarrow> leaseInv cap now' st"
  unfolding leaseInv_def using zpurge_mono [of now now'] by (meson le_trans less_le_trans order_le_less_trans)

lemma leaseInv_admit:
  assumes inv: "leaseInv cap now st" and "distinct (map lrKey rs)"
    and "admitResources now rs st = (ok, st')"
  shows "leaseInv cap now st'"
proof -
  note res = admitResources_result [OF assms(2,3)]
  have kept: "distinct (map fst (zsets st' k)) \<and> length (zpurge now (zsets st' k)) \<le> cap k" for k
    using res leaseInvD(1,2) [OF inv, of k] by (metis distinct_slots(2) zpurge_idem)
  have slot: "(l, e) \<in> set (zsets st' k)" if "(l, e) \<in> set (zsets st k)" "now < e" for l e k
    using res that by (metis (mono_tags, lifting) mem_Collect_eq set_zpurge snd_conv)
  show ?thesis
    using kept slot res leaseInvD(3,4) [OF inv] unfolding leaseInv_def by metis
qed

lemma leaseInv_acquire:
  assumes inv: "leaseInv cap now st" and "validResources rs" "0 < ttl"
    and "\<forall>r \<in> set rs. lrCapacity r \<le> int (cap (lrKey r))"
  shows "leaseInv cap now (snd (routeLeaseAcquireScript now l req ttl rs st))"
proof -
  have dist: "distinct (map lrKey rs)" using assms(2) by (simp add: validResources_def)
  obtain ok st1 where adm: "admitResources now rs st = (ok, st1)" by fastforce
  note inv1 = leaseInv_admit [OF inv dist adm]
  note res = admitResources_result [OF dist adm]
  let ?add = "zadd (now + ttl) l"
  let ?st2 = "fold (\<lambda>r. onZset (lrKey r) ?add) rs st1"
  have z2: "zsets ?st2 = (\<lambda>k. if k \<in> lrKey ` set rs then ?add (zsets st1 k) else zsets st1 k)"
    and m2: "metas ?st2 = metas st1"
    using fold_onZset [OF dist, of ?add st1] by (simp_all add: fold_resources)
  have room: "length (zpurge now (?add (zsets st1 k))) \<le> cap k" if ok "k \<in> lrKey ` set rs" for k
  proof -
    obtain r where r: "r \<in> set rs" "k = lrKey r" using \<open>k \<in> lrKey ` set rs\<close> by auto
    then have "zsets st1 k = zpurge now (zsets st k)" "int (length (zpurge now (zsets st k))) < lrCapacity r"
      using res \<open>ok\<close> by auto
    then have "length (zpurge now (zsets st1 k)) < cap k" using r assms(4) by fastforce
    then show ?thesis
      using length_purge_zrem [of now l "zsets st1 k"] by (simp add: zadd_def)
  qed
  have slot: "(l', e) \<in> set (zsets ?st2 k)" if "(l', e) \<in> set (zsets st1 k)" "l' \<noteq> l" for l' e k
    using that by (simp add: z2 zadd_def set_zrem)
  have own: "(l, now + ttl) \<in> set (zsets ?st2 k)" if "k \<in> lrKey ` set rs" for k
    using that by (simp add: z2 zadd_def)
  have "leaseInv cap now st'" if "zsets st' = zsets ?st2" ok
    and metas: "metas st' = (metas st1)(routeLeaseMetaKey l \<mapsto>
      (\<lparr>lmLeaseID = l, lmRequestID = req, lmExpiresAt = now + ttl, lmResources = map lrKey rs\<rparr>, now + ttl))"
    for st'
  proof (rule leaseInvI)
    fix k
    show "distinct (map fst (zsets st' k))" "length (zpurge now (zsets st' k)) \<le> cap k"
      using leaseInvD(1,2) [OF inv1, of k] room [OF \<open>ok\<close>, of k] that(1) by (auto simp: z2)
  next
    fix l' m e assume "metas st' (routeLeaseMetaKey l') = Some (m, e)" "now < e"
    then show "distinct (lmResources m) \<and> (\<forall>k \<in> set (lmResources m). (l', e) \<in> set (zsets st' k))"
      using own slot leaseInvD(3,4) [OF inv1, of l' m e] dist that(1)
      by (cases "l' = l") (auto simp: metas)
  qed
  then show ?thesis
    using inv inv1 adm by (cases ok) (simp_all add: routeLeaseAcquireScript_def Let_def m2)
qed

lemma live_Some: "live now x = Some v \<longleftrightarrow> (\<exists>e. x = Some (v, e) \<and> now < e)"
  by (cases "(now, x)" rule: live.cases) auto

lemma ownsLeaseD:
  assumes "ownsLease now l req ks st"
  shows "\<exists>m e. metas st (routeLeaseMetaKey l) = Some (m, e) \<and> now < e \<and> lmResources m = ks"
    and "\<exists>e. requestKeys st (routeLeaseRequestKey req) = Some (l, e) \<and> now < e"
  using assms by (auto simp: ownsLease_def live_Some split: option.splits)

lemma leaseInv_release:
  assumes inv: "leaseInv cap now st"
  shows "leaseInv cap now (snd (routeLeaseReleaseScript now l req ks st))"
proof (cases "ownsLease now l req ks st")
  case True
  then have dist: "distinct ks" using ownsLeaseD(1) leaseInvD(3) [OF inv] by blast
  note st = fold_onZset [OF dist, of "zrem l" st]
  have "distinct (map fst (zsets st k))" "length (zpurge now (zrem l (zsets st k))) \<le> cap k"
    "length (zpurge now (zsets st k)) \<le> cap k" for k
    using leaseInvD(1,2) [OF inv, of k] length_purge_zrem [of now l "zsets st k"] by auto
  with True show ?thesis
    by (intro leaseInvI) (auto simp: routeLeaseReleaseScript_def Let_def st set_zrem
        dest: leaseInvD(3,4) [OF inv] split: if_splits)
qed (simp add: routeLeaseReleaseScript_def inv)

lemma leaseInv_renew:
  assumes inv: "leaseInv cap now st" and "0 < ttl"
  shows "leaseInv cap now (snd (routeLeaseRenewScript now l req ttl ks st))"
proof (cases "ownsLease now l req ks st")
  case True
  then obtain m e where m: "metas st (routeLeaseMetaKey l) = Some (m, e)" "now < e" "lmResources m = ks"
    using ownsLeaseD(1) by blast
  have dist: "distinct ks" using leaseInvD(3) [OF inv m(1,2)] m(3) by simp
  note st = fold_onZset [OF dist, of "zadd (now + ttl) l"]
  have slots: "distinct (map fst (zsets st k))" "length (zpurge now (zsets st k)) \<le> cap k" for k
    using leaseInvD(1,2) [OF inv, of k] by auto
  have "length (zpurge now (zadd (now + ttl) l (zsets st k))) \<le> cap k" if "k \<in> set ks" for k
    using length_purge_zadd [OF slots(1), of l e k now "now + ttl"] slots(2) [of k] m that assms(2)
      leaseInvD(4) [OF inv m(1,2), of k] by simp
  with slots True m dist show ?thesis
    by (intro leaseInvI) (auto simp: routeLeaseRenewScript_def Let_def st zadd_def set_zrem
        dest: leaseInvD(3,4) [OF inv] split: if_splits)
qed (simp add: routeLeaseRenewScript_def inv)

section \<open>Sequences of calls\<close>

datatype lease_call =
    CAcquire string string int "RouteLeaseResource list"
  | CRelease RouteLease
  | CRenew RouteLease int
  | CTick nat

fun leaseCall :: "lease_call \<Rightarrow> lease_world \<Rightarrow> lease_world" where
  "leaseCall (CAcquire req l ttl rs) w = snd (AcquireRouteLease req l ttl rs w)"
| "leaseCall (CRelease lease) w = snd (ReleaseRouteLease lease w)"
| "leaseCall (CRenew lease ttl) w = snd (RenewRouteLease lease ttl w)"
| "leaseCall (CTick d) w = w\<lparr>lwNow := lwNow w + int d\<rparr>"

fun withinCapacity :: "(string \<Rightarrow> nat) \<Rightarrow> lease_call \<Rightarrow> bool" where
  "withinCapacity cap (CAcquire req l ttl rs) = (\<forall>r \<in> set rs. lrCapacity r \<le> int (cap (lrKey r)))"
| "withinCapacity cap _ = True"

definition holders :: "string \<Rightarrow> lease_world \<Rightarrow> string set" where
  "holders k w = {l. \<exists>m. live (lwNow w) (metas (lwRedis w) (routeLeaseMetaKey l)) = Some m \<and>
     k \<in> set (lmResources m)}"

definition emptyLeases :: lease_redis where
  "emptyLeases = \<lparr>zsets = (\<lambda>_. []), metas = Map.empty, requestKeys = Map.empty\<rparr>"

lemma scriptM_effect:
  "lwNow (snd (scriptM f w)) = lwNow w"
  "lwRedis (snd (scriptM f w)) = lwRedis w \<or> lwRedis (snd (scriptM f w)) = snd (f (lwRedis w))"
  by (auto simp: scriptM_def Let_def split: fate.split)

lemmas lease_monad = bindM_def seqM_def getsM_def modifyM_def tryM_def retM_def throwM_def
  acquireFailed_def releaseFailed_def renewFailed_def

lemma lease_effect:
  "lwNow (leaseCall c w) = lwNow w + (case c of CTick d \<Rightarrow> int d | _ \<Rightarrow> 0)"
  by (cases c) (auto simp: AcquireRouteLease_def ReleaseRouteLease_def RenewRouteLease_def lease_monad
      scriptM_def Let_def split: sum.splits fate.splits)

lemma leaseInv_call:
  assumes inv: "leaseInv cap (lwNow w) (lwRedis w)" and "withinCapacity cap c"
  shows "leaseInv cap (lwNow (leaseCall c w)) (lwRedis (leaseCall c w))"
proof (cases c)
  case (CAcquire req l ttl rs)
  have "leaseInv cap (lwNow w) (snd (routeLeaseAcquireScript (lwNow w) l req ttl rs (lwRedis w)))"
    if "validResources rs" "0 < ttl"
    using leaseInv_acquire [OF inv that] assms(2) CAcquire by simp
  with inv CAcquire show ?thesis
    by (auto simp: AcquireRouteLease_def lease_monad scriptM_def Let_def split: sum.splits fate.splits)
next
  case (CRelease lease)
  with inv leaseInv_release [OF inv] show ?thesis
    by (auto simp: ReleaseRouteLease_def lease_monad scriptM_def Let_def split: sum.splits fate.splits)
next
  case (CRenew lease ttl)
  with inv leaseInv_renew [OF inv, of ttl] show ?thesis
    by (auto simp: RenewRouteLease_def lease_monad scriptM_def Let_def split: sum.splits fate.splits)
next
  case (CTick d)
  with leaseInv_time [OF inv] show ?thesis by simp
qed

lemma leaseInv_calls:
  "leaseInv cap (lwNow w) (lwRedis w) \<Longrightarrow> \<forall>c \<in> set cs. withinCapacity cap c \<Longrightarrow>
   leaseInv cap (lwNow (fold leaseCall cs w)) (lwRedis (fold leaseCall cs w))"
  by (induction cs arbitrary: w) (simp_all add: leaseInv_call)

lemma holders_bounded:
  assumes "leaseInv cap (lwNow w) (lwRedis w)"
  shows "card (holders k w) \<le> cap k"
proof -
  let ?z = "zpurge (lwNow w) (zsets (lwRedis w) k)"
  have "holders k w \<subseteq> fst ` set ?z"
    using leaseInvD(4) [OF assms]
    by (auto simp: holders_def live_Some set_zpurge image_iff) (metis fst_conv snd_conv)
  then have "card (holders k w) \<le> card (fst ` set ?z)" by (rule card_mono [rotated]) simp
  also have "\<dots> \<le> length ?z" by (metis card_length length_map set_map)
  also have "\<dots> \<le> cap k" by (rule leaseInvD(2) [OF assms])
  finally show ?thesis .
qed

text \<open>
  C33.  However acquisitions, releases, renewals and the passing of time are interleaved, and
  whichever script calls fail before or after taking effect, the leases in force on a resource
  never exceed its capacity, provided every acquisition names at most that capacity.
\<close>

theorem leases_within_capacity:
  assumes "lwRedis w = emptyLeases" and "\<forall>c \<in> set calls. withinCapacity cap c"
  shows "card (holders k (fold leaseCall calls w)) \<le> cap k"
proof -
  have "leaseInv cap (lwNow w) (lwRedis w)" by (simp add: assms(1) emptyLeases_def leaseInv_def)
  from leaseInv_calls [OF this assms(2)] show ?thesis by (rule holders_bounded)
qed

definition leaseWorld :: "(nat \<Rightarrow> fate) \<Rightarrow> lease_world" where
  "leaseWorld fates = \<lparr>lwWorld = sampleWorld, lwRedis = emptyLeases, lwNow = 1000, lwOps = 0,
     lwFate = fates, AcquireFailures = 0, RenewFailures = 0, ReleaseFailures = 0\<rparr>"

definition sampleLeaseCalls :: "lease_call list" where
  "sampleLeaseCalls = (let rs = [\<lparr>lrKey = ''k'', lrCapacity = 2\<rparr>] in
     [CAcquire ''r1'' ''a'' 500 rs, CAcquire ''r2'' ''b'' 900 rs, CAcquire ''r3'' ''c'' 900 rs,
      CTick 500, CAcquire ''r4'' ''d'' 900 rs])"

theorem leases_within_capacity_witness:
  "card (holders ''k'' (fold leaseCall sampleLeaseCalls (leaseWorld (\<lambda>n. if n = 1 then FLost else FOk)))) \<le> 2"
  by (rule leases_within_capacity [where cap = "\<lambda>_. 2"]) (simp_all add: leaseWorld_def sampleLeaseCalls_def Let_def)

section \<open>Release undoes acquire\<close>

lemma acquire_success:
  assumes "AcquireRouteLease req l ttl rs w = (Inr lease, w1)"
  shows "validResources rs \<and> 0 < ttl \<and> rs \<noteq> [] \<and> TrimSpace req \<noteq> [] \<and> TrimSpace l \<noteq> [] \<and>
    lease = \<lparr>rlLeaseID = l, rlRequestID = req, rlChannelID = 0, rlResources = rs, rlExpiresAt = lwNow w + ttl\<rparr> \<and>
    routeLeaseAcquireScript (lwNow w) l req ttl rs (lwRedis w) = (1, lwRedis w1) \<and> lwNow w1 = lwNow w \<and>
    lwFate w1 = lwFate w"
  using assms
  by (auto simp: AcquireRouteLease_def routeLeaseAcquireScript_def lease_monad scriptM_def Let_def
      split: if_splits fate.splits prod.splits bool.splits)

lemma acquire_script_success:
  assumes "routeLeaseAcquireScript now l req ttl rs st = (1, st1)" "distinct (map lrKey rs)"
  shows "live now (metas st (routeLeaseMetaKey l)) = None \<and>
    live now (requestKeys st (routeLeaseRequestKey req)) = None \<and>
    zsets st1 = (\<lambda>k. if k \<in> lrKey ` set rs then zadd (now + ttl) l (zpurge now (zsets st k)) else zsets st k) \<and>
    metas st1 = (metas st)(routeLeaseMetaKey l \<mapsto> (\<lparr>lmLeaseID = l, lmRequestID = req,
      lmExpiresAt = now + ttl, lmResources = map lrKey rs\<rparr>, now + ttl)) \<and>
    requestKeys st1 = (requestKeys st)(routeLeaseRequestKey req \<mapsto> (l, now + ttl))"
proof -
  obtain ok st0 where adm: "admitResources now rs st = (ok, st0)" by fastforce
  note res = admitResources_result [OF assms(2) adm]
  note st = fold_onZset [OF assms(2), of "zadd (now + ttl) l" st0]
  have ok using assms(1) adm by (cases ok) (auto simp: routeLeaseAcquireScript_def split: if_splits)
  have z: "zsets st0 = (\<lambda>k. if k \<in> lrKey ` set rs then zpurge now (zsets st k) else zsets st k)"
    using res \<open>ok\<close> by (intro ext) auto
  have "st1 = (fold (\<lambda>r. onZset (lrKey r) (zadd (now + ttl) l)) rs st0)\<lparr>
      metas := (metas st)(routeLeaseMetaKey l \<mapsto> (\<lparr>lmLeaseID = l, lmRequestID = req,
        lmExpiresAt = now + ttl, lmResources = map lrKey rs\<rparr>, now + ttl)),
      requestKeys := (requestKeys st)(routeLeaseRequestKey req \<mapsto> (l, now + ttl))\<rparr>"
    using assms(1) adm \<open>ok\<close> res st
    by (auto simp: routeLeaseAcquireScript_def Let_def fold_resources split: if_splits)
  moreover have "live now (metas st (routeLeaseMetaKey l)) = None \<and>
      live now (requestKeys st (routeLeaseRequestKey req)) = None"
    using assms(1) by (auto simp: routeLeaseAcquireScript_def split: if_splits)
  ultimately show ?thesis using st z by (auto simp: fold_resources)
qed

lemma live_later: "live now x = None \<Longrightarrow> now \<le> t \<Longrightarrow> live t x = None"
  by (cases "(now, x)" rule: live.cases) (auto split: if_splits)

lemma release_script_acquired:
  assumes "routeLeaseAcquireScript now l req ttl rs st = (1, st1)" "distinct (map lrKey rs)"
    and "now \<le> t" "t < now + ttl"
  shows "routeLeaseReleaseScript t l req (map lrKey rs) st1 = (1, \<lparr>
    zsets = (\<lambda>k. if k \<in> lrKey ` set rs then zrem l (zpurge now (zsets st k)) else zsets st k),
    metas = (metas st)(routeLeaseMetaKey l := None),
    requestKeys = (requestKeys st)(routeLeaseRequestKey req := None)\<rparr>)"
proof -
  note st1 = acquire_script_success [OF assms(1,2)]
  note st2 = fold_onZset [OF assms(2), of "zrem l" st1]
  have "zrem l (zadd e l z) = zrem l z" for e z by (simp add: zadd_def) (simp add: zrem_def)
  with st1 assms(4) st2 show ?thesis
    by (auto simp: routeLeaseReleaseScript_def ownsLease_def Let_def intro!: lease_redis.equality)
qed

text \<open>
  C34.  Releasing a lease undoes acquiring it: when the acquisition of a fresh lease id
  succeeded and the release reaches Redis before the lease expires, the release succeeds, every
  resource has the slots it had before, and every lease and request key that is visible from
  then on is one that was visible before.
\<close>

theorem release_undoes_acquire:
  assumes "AcquireRouteLease req l ttl rs w = (Inr lease, w1)"
    and "\<forall>k. l \<notin> fst ` set (zsets (lwRedis w) k)"
    and "0 \<le> d" "d < ttl" and "lwFate w (lwOps w1) = FOk"
  shows "\<exists>w2. ReleaseRouteLease lease (w1\<lparr>lwNow := lwNow w1 + d\<rparr>) = (Inr (), w2) \<and>
    (\<forall>k. zpurge (lwNow w) (zsets (lwRedis w2) k) = zpurge (lwNow w) (zsets (lwRedis w) k)) \<and>
    (\<forall>t key. lwNow w \<le> t \<longrightarrow>
       live t (metas (lwRedis w2) key) = live t (metas (lwRedis w) key) \<and>
       live t (requestKeys (lwRedis w2) key) = live t (requestKeys (lwRedis w) key))"
proof -
  note acq = acquire_success [OF assms(1)]
  then have dist: "distinct (map lrKey rs)" and
    scr: "routeLeaseAcquireScript (lwNow w) l req ttl rs (lwRedis w) = (1, lwRedis w1)"
    by (auto simp: validResources_def)
  note st1 = acquire_script_success [OF scr dist]
  note rel = release_script_acquired [OF scr dist, of "lwNow w + d"]
  have fresh: "zrem l (zpurge now (zsets (lwRedis w) k)) = zpurge now (zsets (lwRedis w) k)" for now k
    using assms(2) by (intro zrem_absent) (auto simp: set_zpurge)
  have gone: "lwNow w \<le> t \<Longrightarrow> live t (metas (lwRedis w) (routeLeaseMetaKey l)) = None"
    "lwNow w \<le> t \<Longrightarrow> live t (requestKeys (lwRedis w) (routeLeaseRequestKey req)) = None" for t
    using st1 by (auto intro: live_later)
  show ?thesis
    using acq rel assms(3-5)
    by (auto simp: ReleaseRouteLease_def lease_monad scriptM_def Let_def gone fresh)
qed

definition sampleResources :: "RouteLeaseResource list" where
  "sampleResources = [\<lparr>lrKey = ChannelRouteLeaseKey 7, lrCapacity = 2\<rparr>]"

theorem release_undoes_acquire_witness:
  "\<exists>lease w1 w2.
     AcquireRouteLease ''r1'' ''a'' 500 sampleResources (leaseWorld (\<lambda>_. FOk)) = (Inr lease, w1) \<and>
     ReleaseRouteLease lease (w1\<lparr>lwNow := lwNow w1 + 499\<rparr>) = (Inr (), w2) \<and>
     zpurge 1000 (zsets (lwRedis w2) (ChannelRouteLeaseKey 7)) = []"
proof -
  let ?run = "AcquireRouteLease ''r1'' ''a'' 500 sampleResources (leaseWorld (\<lambda>_. FOk))"
  have "isl (fst ?run) = False" by code_simp
  then obtain lease w1 where acq: "?run = (Inr lease, w1)" by (metis isl_def prod.collapse sum.exhaust_sel)
  then show ?thesis
    using release_undoes_acquire [OF acq, of 499] by (auto simp: leaseWorld_def emptyLeases_def)
qed

section \<open>Configured leases and the runtime fence\<close>

lemma RoutingSettings_bounds:
  assumes "RoutingSettings channel = Inr (capacity, ratio)"
  shows "1 \<le> capacity \<and> capacity \<le> 1000000 \<and> flt (FFin 0) ratio \<and> fle ratio (FFin 1000)"
  using assms by (cases ratio) (auto simp: RoutingSettings_def Let_def fle_def feq_def split: if_splits)

lemma loadRouteChannel_result:
  assumes "loadRouteChannel channelID w = (Inr channel, w1)"
  shows "lwRedis w1 = lwRedis w \<and> lwNow w1 = lwNow w \<and> cStatus channel = ChannelStatusEnabled \<and>
    1 \<le> cCapacityTotal channel \<and> cCapacityTotal channel \<le> 1000000"
  using assms RoutingSettings_bounds
  by (fastforce simp: loadRouteChannel_def storeM_def bindM_def throwM_def retM_def Let_def
      split: if_splits prod.splits sum.splits)

text \<open>A configured acquisition is an acquisition of one slot of the channel, at the capacity of its row.\<close>

lemma AcquireConfiguredRouteLease_result:
  assumes "AcquireConfiguredRouteLease req l channelID userID tokenID m ttl w = (Inr (lease, channel), w2)"
  shows "\<exists>w1 lease1. lwRedis w1 = lwRedis w \<and> lwNow w1 = lwNow w \<and>
    cStatus channel = ChannelStatusEnabled \<and>
    1 \<le> cCapacityTotal channel \<and> cCapacityTotal channel \<le> 1000000 \<and>
    AcquireRouteLease req l ttl [\<lparr>lrKey = ChannelRouteLeaseKey channelID, lrCapacity = cCapacityTotal channel\<rparr>] w1
      = (Inr lease1, w2) \<and> lease = lease1\<lparr>rlChannelID := channelID\<rparr>"
proof -
  obtain c w1 where load: "loadRouteChannel channelID w = (Inr c, w1)"
    using assms by (auto simp: AcquireConfiguredRouteLease_def bindM_def split: prod.splits sum.splits)
  with assms have "AcquireRouteLease req l ttl
      [\<lparr>lrKey = ChannelRouteLeaseKey channelID, lrCapacity = cCapacityTotal c\<rparr>] w1 =
      (Inr lease1, w2) \<Longrightarrow> lease = lease1\<lparr>rlChannelID := channelID\<rparr> \<and> channel = c" for lease1
    by (auto simp: AcquireConfiguredRouteLease_def bindM_def getsM_def throwM_def retM_def
        split: prod.splits sum.splits if_splits)
  moreover have "\<exists>lease1. AcquireRouteLease req l ttl
      [\<lparr>lrKey = ChannelRouteLeaseKey channelID, lrCapacity = cCapacityTotal c\<rparr>] w1 = (Inr lease1, w2)"
    using assms load by (auto simp: AcquireConfiguredRouteLease_def bindM_def getsM_def throwM_def retM_def
        split: prod.splits sum.splits if_splits)
  ultimately show ?thesis using loadRouteChannel_result [OF load] by blast
qed

lemma RecheckRouteLeaseRuntime_same:
  assumes "RecheckRouteLeaseRuntime expected current = None" "rsChannelRatio expected \<noteq> FNaN"
  shows "current = expected \<and> rsChannelEnabled current \<and> 0 < rsCapacity current"
  using assms by (auto simp: RecheckRouteLeaseRuntime_def feq_iff_eq split: if_splits
      intro!: RouteLeaseRuntimeState.equality)

end
