(* ===== verification/Go_Time.thy ===== *)
theory Go_Time
  imports Go_Base
begin

text \<open>
  The part of Go's \<open>time\<close> package that the subscription code uses.  A time is its Unix second, the
  calendar is the proleptic Gregorian one counted in days since 1970-01-01, and a \<open>Location\<close> is
  the list of its transitions: \<open>lookup\<close> returns the offset in force with the interval it is in
  force for.  \<open>Date\<close> resolves a wall-clock reading the way the package does, by looking up the
  reading as if it were UTC and correcting once, so readings that a transition skips resolve as
  they do in Go.  \<open>Duration\<close> arithmetic wraps at 64 bits.
\<close>

section \<open>The calendar\<close>

definition isLeap :: "int \<Rightarrow> bool" where
  "isLeap y = (4 dvd y \<and> (\<not> 100 dvd y \<or> 400 dvd y))"

definition daysBeforeYear :: "int \<Rightarrow> int" where
  "daysBeforeYear y = (let p = y - 1 in 365 * p + p div 4 - p div 100 + p div 400)"

definition monthLengths :: "int \<Rightarrow> int list" where
  "monthLengths y = [31, if isLeap y then 29 else 28, 31, 30, 31, 30, 31, 31, 30, 31, 30, 31]"

text \<open>Days from 0001-01-01 to 1970-01-01.\<close>

definition epochDays :: int where "epochDays = 719162"

text \<open>A month outside 1..12 carries into the year, a day outside the month into the days.\<close>

definition dateDays :: "int \<Rightarrow> int \<Rightarrow> int \<Rightarrow> int" where
  "dateDays year month day =
     (let y = year + (month - 1) div 12; m = (month - 1) mod 12 in
      daysBeforeYear y + sum_list (take (nat m) (monthLengths y)) + (day - 1) - epochDays)"

definition yearAndDay :: "int \<Rightarrow> int \<times> int" where
  "yearAndDay days =
     (let d = days + epochDays;
          n400 = d div 146097; d = d mod 146097;
          n100 = min 3 (d div 36524); d = d - 36524 * n100;
          n4 = d div 1461; d = d mod 1461;
          n1 = min 3 (d div 365); d = d - 365 * n1
      in (400 * n400 + 100 * n100 + 4 * n4 + n1 + 1, d))"

fun splitMonth :: "int list \<Rightarrow> int \<Rightarrow> nat \<times> int" where
  "splitMonth [] d = (0, d)"
| "splitMonth (l # ls) d =
     (if d < l then (0, d) else case splitMonth ls (d - l) of (m, r) \<Rightarrow> (Suc m, r))"

definition civil :: "int \<Rightarrow> int \<times> int \<times> int" where
  "civil days =
     (case yearAndDay days of (y, d) \<Rightarrow>
      case splitMonth (monthLengths y) d of (m, r) \<Rightarrow> (y, int m + 1, r + 1))"

section \<open>Zones and times\<close>

record Location =
  firstOffset :: int
  transitions :: "(int \<times> int) list"

definition alpha :: int where "alpha = - (2 ^ 63)"
definition omega :: int where "omega = 2 ^ 63 - 1"

fun lookupTx :: "int \<Rightarrow> int \<Rightarrow> (int \<times> int) list \<Rightarrow> int \<Rightarrow> int \<times> int \<times> int" where
  "lookupTx off from [] sec = (off, from, omega)"
| "lookupTx off from ((since, off') # tx) sec =
     (if sec < since then (off, from, since) else lookupTx off' since tx sec)"

definition lookup :: "Location \<Rightarrow> int \<Rightarrow> int \<times> int \<times> int" where
  "lookup loc sec = lookupTx (firstOffset loc) alpha (transitions loc) sec"

definition wallClock :: "Location \<Rightarrow> int \<Rightarrow> int" where
  "wallClock loc t = t + fst (lookup loc t)"

definition DateOf :: "Location \<Rightarrow> int \<Rightarrow> int \<times> int \<times> int" where
  "DateOf loc t = civil (wallClock loc t div 86400)"

definition ClockOf :: "Location \<Rightarrow> int \<Rightarrow> int" where
  "ClockOf loc t = wallClock loc t mod 86400"

text \<open>Sunday is 0; the first of January 1970 was a Thursday.\<close>

definition Weekday :: "Location \<Rightarrow> int \<Rightarrow> int" where
  "Weekday loc t = (wallClock loc t div 86400 + 4) mod 7"

definition Date :: "Location \<Rightarrow> int \<Rightarrow> int \<Rightarrow> int \<Rightarrow> int \<Rightarrow> int" where
  "Date loc year month day secs =
     (let unix = dateDays year month day * 86400 + secs in
      case lookup loc unix of (offset, from, till) \<Rightarrow>
        if offset = 0 then unix
        else let utc = unix - offset in
          if utc < from \<or> utc \<ge> till then unix - fst (lookup loc utc) else utc)"

definition AddDate :: "Location \<Rightarrow> int \<Rightarrow> int \<Rightarrow> int \<Rightarrow> int \<Rightarrow> int" where
  "AddDate loc t years months days =
     (case DateOf loc t of (y, m, d) \<Rightarrow> Date loc (y + years) (m + months) (d + days) (ClockOf loc t))"

definition wrap64 :: "int \<Rightarrow> int" where
  "wrap64 x = (x + 2 ^ 63) mod 2 ^ 64 - 2 ^ 63"

text \<open>\<open>t.Add(time.Duration(n) * unit).Unix()\<close> for a whole second \<open>t\<close>; the unit is in seconds.\<close>

definition AddDuration :: "int \<Rightarrow> int \<Rightarrow> int \<Rightarrow> int" where
  "AddDuration t n unit = t + wrap64 (n * (unit * 1000000000)) div 1000000000"

section \<open>Facts about the calendar\<close>

lemma dvd_top: "n dvd n * q + r \<longleftrightarrow> r = n" if "0 < r" "r \<le> n" for n q r :: int
  using that zdvd_imp_le [of n r] by (auto simp: dvd_add_right_iff)

lemma year_parts:
  fixes a b c e :: int
  assumes "0 \<le> b" "b \<le> 3" "0 \<le> c" "c \<le> 24" "0 \<le> e" "e \<le> 3"
  shows "daysBeforeYear (400 * a + 100 * b + 4 * c + e + 1) = 146097 * a + 36524 * b + 1461 * c + 365 * e"
    and "isLeap (400 * a + 100 * b + 4 * c + e + 1) \<longleftrightarrow> e = 3 \<and> (c \<noteq> 24 \<or> b = 3)"
proof -
  let ?p = "400 * a + 100 * b + 4 * c + e"
  have "?p div 4 = 100 * a + 25 * b + c" "?p div 100 = 4 * a + b" "?p div 400 = a"
    using assms by (auto intro!: int_div_pos_eq)
  then show "daysBeforeYear (?p + 1) = 146097 * a + 36524 * b + 1461 * c + 365 * e"
    by (simp add: daysBeforeYear_def Let_def)
  have "4 dvd ?p + 1 \<longleftrightarrow> e = 3" using dvd_top [of "e + 1" 4 "100 * a + 25 * b + c"] assms by (simp add: algebra_simps)
  moreover have "100 dvd ?p + 1 \<longleftrightarrow> 4 * c + e + 1 = 100"
    using dvd_top [of "4 * c + e + 1" 100 "4 * a + b"] assms by (simp add: algebra_simps)
  moreover have "400 dvd ?p + 1 \<longleftrightarrow> 100 * b + 4 * c + e + 1 = 400"
    using dvd_top [of "100 * b + 4 * c + e + 1" 400 a] assms by (simp add: algebra_simps)
  ultimately show "isLeap (?p + 1) \<longleftrightarrow> e = 3 \<and> (c \<noteq> 24 \<or> b = 3)"
    using assms unfolding isLeap_def by linarith
qed

definition yearLength :: "int \<Rightarrow> int" where
  "yearLength y = (if isLeap y then 366 else 365)"

lemma capped_div:
  fixes d n :: int
  assumes "0 < n" "0 \<le> d" "d \<le> 4 * n"
  shows "0 \<le> min 3 (d div n)" "min 3 (d div n) \<le> 3" "0 \<le> d - n * min 3 (d div n)"
    "d - n * min 3 (d div n) \<le> n" "min 3 (d div n) < 3 \<longrightarrow> d - n * min 3 (d div n) < n"
proof -
  define q r where "q = d div n" and "r = d mod n"
  have d: "d = n * q + r" "0 \<le> r" "r < n" using assms by (simp_all add: q_def r_def)
  have q: "0 \<le> q" using assms by (simp add: q_def pos_imp_zdiv_nonneg_iff)
  have "0 \<le> min 3 q \<and> min 3 q \<le> 3 \<and> 0 \<le> d - n * min 3 q \<and> d - n * min 3 q \<le> n \<and>
      (min 3 q < 3 \<longrightarrow> d - n * min 3 q < n)"
  proof (cases "3 \<le> q")
    case True
    then have "min 3 q = 3" "n * 3 \<le> n * q" using assms by simp_all
    with d assms show ?thesis by (simp only:) linarith
  next
    case False
    then have "min 3 q = q" by simp
    with d q False assms show ?thesis by simp
  qed
  then show "0 \<le> min 3 (d div n)" "min 3 (d div n) \<le> 3" "0 \<le> d - n * min 3 (d div n)"
    "d - n * min 3 (d div n) \<le> n" "min 3 (d div n) < 3 \<longrightarrow> d - n * min 3 (d div n) < n"
    unfolding q_def by auto
qed

lemma yearAndDay_bounds:
  assumes "yearAndDay z = (y, d)"
  shows "daysBeforeYear y + d = z + epochDays" "0 \<le> d" "d < yearLength y"
proof -
  define d0 where "d0 = z + epochDays"
  define a d1 where "a = d0 div 146097" and "d1 = d0 mod 146097"
  define b where "b = min 3 (d1 div 36524)"
  define d2 where "d2 = d1 - 36524 * b"
  define c d3 where "c = d2 div 1461" and "d3 = d2 mod 1461"
  define e where "e = min 3 (d3 div 365)"
  have "(400 * a + 100 * b + 4 * c + e + 1, d3 - 365 * e) = (y, d)"
    using assms unfolding yearAndDay_def Let_def a_def d1_def b_def d2_def c_def d3_def e_def d0_def .
  then have y: "y = 400 * a + 100 * b + 4 * c + e + 1" and d: "d = d3 - 365 * e"
    by (simp_all only: prod.inject)
  have 1: "d0 = 146097 * a + d1" "0 \<le> d1" "d1 < 146097"
    unfolding a_def d1_def by (simp_all only: mult_div_mod_eq pos_mod_sign pos_mod_bound zero_less_numeral)
  have 2: "0 \<le> b" "b \<le> 3" "0 \<le> d2" "d2 \<le> 36524" "b < 3 \<longrightarrow> d2 < 36524"
    using capped_div [of 36524 d1] 1(2,3) unfolding d2_def b_def by simp_all
  have 3: "d2 = 1461 * c + d3" "0 \<le> d3" "d3 < 1461"
    unfolding c_def d3_def by (simp_all only: mult_div_mod_eq pos_mod_sign pos_mod_bound zero_less_numeral)
  have 4: "0 \<le> c" "c \<le> 24" using 2 3 by linarith+
  have 5: "0 \<le> e" "e \<le> 3" "0 \<le> d" "d \<le> 365" "e < 3 \<longrightarrow> d < 365"
    using capped_div [of 365 d3] 3(2,3) unfolding d e_def by simp_all
  show "daysBeforeYear y + d = z + epochDays" "0 \<le> d"
    using year_parts(1) [OF 2(1,2) 4 5(1,2), of a] y d 1 3 5 d2_def d0_def by auto
  show "d < yearLength y"
    using year_parts(2) [OF 2(1,2) 4 5(1,2), of a] y 5 2 3 d by (auto simp: yearLength_def)
qed

lemma splitMonth_bounds:
  assumes "0 \<le> d" "d < sum_list ls" "splitMonth ls d = (m, r)"
  shows "m < length ls \<and> d = sum_list (take m ls) + r \<and> 0 \<le> r \<and> r < ls ! m"
  using assms
proof (induction ls arbitrary: d m)
  case (Cons l ls)
  then show ?case
  proof (cases "d < l")
    case False
    then obtain m' where "splitMonth ls (d - l) = (m', r)" "m = Suc m'"
      using Cons.prems(3) by (auto split: prod.splits)
    with Cons.IH [of "d - l" m'] Cons.prems False show ?thesis by auto
  qed auto
qed simp

lemma sum_monthLengths: "sum_list (monthLengths y) = yearLength y" "length (monthLengths y) = 12"
  by (simp_all add: monthLengths_def yearLength_def)

lemma daysBeforeYear_Suc: "daysBeforeYear (y + 1) = daysBeforeYear y + yearLength y"
proof -
  have "y div n = (y - 1) div n + (if n dvd y then 1 else 0)" if "0 < n" for n
  proof (cases "n dvd y")
    case True
    then obtain k where "y = n * k" by blast
    moreover have "(n * k - 1) div n = k - 1" by (rule int_div_pos_eq [of _ _ _ "n - 1"]) (use that in \<open>auto simp: algebra_simps\<close>)
    ultimately show ?thesis using that by simp
  next
    case False
    then have "0 < y mod n" using that by (metis dvd_eq_mod_eq_0 less_le pos_mod_sign)
    then have "(y - 1) div n = y div n"
      using that pos_mod_bound [OF that, of y] by (intro int_div_pos_eq [of _ _ _ "y mod n - 1"]) auto
    with False show ?thesis by simp
  qed
  note divs = this [of 4] this [of 100] this [of 400]
  have "100 dvd y" if "400 dvd y" using _ that by (rule dvd_trans) simp
  moreover have "4 dvd y" if "100 dvd y" using _ that by (rule dvd_trans) simp
  ultimately have "yearLength y = 365 + (if 4 dvd y then 1 else 0) - (if 100 dvd y then 1 else 0) +
      (if 400 dvd y then 1 else 0)"
    unfolding yearLength_def isLeap_def by presburger
  moreover have "365 * y + (a + p) - (b + q) + (c + r) = 365 * (y - 1) + a - b + c + (365 + p - q + r)"
    for a b c p q r :: int by simp
  ultimately show ?thesis using divs by (simp only: daysBeforeYear_def Let_def add_diff_cancel_right')
qed

text \<open>Months are numbered through, so that \<open>monthStart\<close> is the first day of a month.\<close>

definition monthStart :: "int \<Rightarrow> int" where
  "monthStart k = dateDays (k div 12) (k mod 12 + 1) 1"

lemma dateDays_monthStart: "dateDays y m d = monthStart (12 * y + (m - 1)) + (d - 1)"
  by (simp add: monthStart_def dateDays_def Let_def)

lemma monthStart_eq:
  assumes "0 \<le> m" "m < 12"
  shows "monthStart (12 * y + m) = daysBeforeYear y + sum_list (take (nat m) (monthLengths y)) - epochDays"
  using assms int_div_pos_eq [of "12 * y + m" 12 y m] int_mod_pos_eq [of "12 * y + m" 12 y m]
  by (simp add: monthStart_def dateDays_def Let_def)

text \<open>The first of a month is as many days after the first of the month before as that has.\<close>

lemma monthStart_Suc:
  assumes "n < 12"
  shows "monthStart (12 * y + int n + 1) = monthStart (12 * y + int n) + monthLengths y ! n"
proof (cases "n = 11")
  case True
  have "monthStart (12 * (y + 1) + 0) = daysBeforeYear y + yearLength y - epochDays"
    by (subst monthStart_eq) (simp_all add: daysBeforeYear_Suc)
  with True show ?thesis
    using monthStart_eq [of 11 y] by (simp add: algebra_simps yearLength_def monthLengths_def split: if_splits)
next
  case False
  with assms have "nat (int n + 1) = Suc n" "n < length (monthLengths y)"
    by (simp_all add: sum_monthLengths nat_add_distrib)
  with False assms show ?thesis
    using monthStart_eq [of "int n" y] monthStart_eq [of "int n + 1" y]
    by (simp add: add.assoc take_Suc_conv_app_nth)
qed

lemma monthStart_less: "monthStart k < monthStart (k + 1)"
proof -
  define n where "n = nat (k mod 12)"
  have k: "k = 12 * (k div 12) + int n" and n: "n < 12" by (simp_all add: n_def nat_less_iff)
  have "0 < monthLengths (k div 12) ! n"
    using nth_mem [of n "monthLengths (k div 12)"] n by (auto simp: monthLengths_def)
  with monthStart_Suc [OF n, of "k div 12"] k show ?thesis by simp
qed

lemma monthStart_mono: "i < j \<Longrightarrow> monthStart i < monthStart j"
proof (induction j rule: int_gr_induct)
  case base
  show ?case by (rule monthStart_less)
next
  case (step j)
  with monthStart_less [of j] show ?case by simp
qed

lemma monthStart_le: "i \<le> j \<Longrightarrow> monthStart i \<le> monthStart j"
  using monthStart_mono [of i j] by (cases "i = j") auto

definition monthIndex :: "int \<Rightarrow> int" where
  "monthIndex z = (case civil z of (y, m, d) \<Rightarrow> 12 * y + (m - 1))"

lemma civil_bounds:
  assumes "civil z = (y, m, d)"
  shows "1 \<le> m \<and> m \<le> 12 \<and> dateDays y m d = z \<and> monthStart (12 * y + (m - 1)) \<le> z \<and>
    z < monthStart (12 * y + (m - 1) + 1)"
proof -
  obtain yd n r where yd: "yearAndDay z = (y, yd)" and n: "splitMonth (monthLengths y) yd = (n, r)"
    and mn: "m = int n + 1" and dr: "d = r + 1"
    using assms by (auto simp: civil_def split: prod.splits)
  note year = yearAndDay_bounds [OF yd]
  note mon = splitMonth_bounds [OF year(2) _ n, unfolded sum_monthLengths, OF year(3)]
  have "dateDays y m d = z"
    using year(1) mon mn dr by (simp add: dateDays_def Let_def)
  moreover have "monthStart (12 * y + int n) = z - r"
    using year(1) mon monthStart_eq [of "int n" y] by (simp add: sum_monthLengths)
  moreover have "n < 12" using mon by (simp add: sum_monthLengths)
  ultimately show ?thesis using mon mn monthStart_Suc [of n y] by (simp add: add.assoc)
qed

lemma monthIndex_bounds: "monthStart (monthIndex z) \<le> z" "z < monthStart (monthIndex z + 1)"
  using civil_bounds by (auto simp: monthIndex_def split: prod.splits)

lemma monthIndex_unique:
  assumes "monthStart k \<le> z" "z < monthStart (k + 1)"
  shows "monthIndex z = k"
proof (rule ccontr)
  assume "monthIndex z \<noteq> k"
  then consider "monthIndex z + 1 \<le> k" | "k + 1 \<le> monthIndex z" by linarith
  then show False
    using assms monthIndex_bounds [of z] monthStart_le [of "monthIndex z + 1" k]
      monthStart_le [of "k + 1" "monthIndex z"] by cases auto
qed

end
