(* ===== verification/Subscription_Period.thy ===== *)
theory Subscription_Period
  imports Store Go_Time
begin

text \<open>
  The time rules of subscriptions in \<open>model/subscription.go\<close>: when a plan ends, when its quota is
  reset next, and the loop of \<open>maybeResetUserSubscriptionWithPlanTx\<close> that catches up on the resets
  that have passed.  Times are computed in the server's location \<open>loc\<close>.  The loop may run forever,
  so it is a partial function and not returning is \<open>None\<close>: in a location with a fixed offset it
  returns and agrees with a single step from the present, and in a location west of Greenwich
  whose clocks go forward at midnight it does not return.
\<close>

section \<open>Definitions\<close>

definition calcPlanEndTime :: "Location \<Rightarrow> int \<Rightarrow> SubscriptionPlan \<Rightarrow> err + int" where
  "calcPlanEndTime loc start plan =
     (if spDurationValue plan \<le> 0 \<and> spDurationUnit plan \<noteq> ''custom''
      then Inl (ErrText ''duration_value must be > 0'')
      else if spDurationUnit plan = ''year'' then Inr (AddDate loc start (spDurationValue plan) 0 0)
      else if spDurationUnit plan = ''month'' then Inr (AddDate loc start 0 (spDurationValue plan) 0)
      else if spDurationUnit plan = ''day'' then Inr (AddDuration start (spDurationValue plan) 86400)
      else if spDurationUnit plan = ''hour'' then Inr (AddDuration start (spDurationValue plan) 3600)
      else if spDurationUnit plan = ''custom'' then
        (if spCustomSeconds plan \<le> 0 then Inl (ErrText ''custom_seconds must be > 0'')
         else Inr (AddDuration start (spCustomSeconds plan) 1))
      else Inl (ErrText (''invalid duration_unit: '' @ spDurationUnit plan)))"

definition NormalizeResetPeriod :: "string \<Rightarrow> string" where
  "NormalizeResetPeriod period =
     (if TrimSpace period \<in> set [''daily'', ''weekly'', ''monthly'', ''custom''] then TrimSpace period
      else ''never'')"

definition nextReset :: "Location \<Rightarrow> int \<Rightarrow> SubscriptionPlan \<Rightarrow> string \<Rightarrow> int option" where
  "nextReset loc base plan period =
     (case DateOf loc base of (y, m, d) \<Rightarrow>
        if period = ''daily'' then Some (AddDate loc (Date loc y m d 0) 0 0 1)
        else if period = ''weekly'' then
          let weekday = (if Weekday loc base = 0 then 7 else Weekday loc base) in
          Some (AddDate loc (Date loc y m d 0) 0 0 (8 - weekday))
        else if period = ''monthly'' then Some (AddDate loc (Date loc y m 1 0) 0 1 0)
        else if period = ''custom'' then
          (if spQuotaResetCustomSeconds plan \<le> 0 then None
           else Some (AddDuration base (spQuotaResetCustomSeconds plan) 1))
        else None)"

definition calcNextResetTime :: "Location \<Rightarrow> int \<Rightarrow> SubscriptionPlan \<Rightarrow> int \<Rightarrow> int" where
  "calcNextResetTime loc base plan endUnix =
     (let period = NormalizeResetPeriod (spQuotaResetPeriod plan) in
      if period = ''never'' then 0
      else case nextReset loc base plan period of
        None \<Rightarrow> 0
      | Some next \<Rightarrow> if endUnix > 0 \<and> next > endUnix then 0 else next)"

text \<open>The loop of \<open>maybeResetUserSubscriptionWithPlanTx\<close>.\<close>

partial_function (option) resetLoop ::
  "Location \<Rightarrow> SubscriptionPlan \<Rightarrow> int \<Rightarrow> int \<Rightarrow> bool \<Rightarrow> int \<Rightarrow> int \<Rightarrow> (bool \<times> int \<times> int) option" where
  "resetLoop loc plan endUnix now advanced base next =
     (if next > 0 \<and> next \<le> now
      then resetLoop loc plan endUnix now True next (calcNextResetTime loc next plan endUnix)
      else Some (advanced, base, next))"

section \<open>Locations with a fixed offset\<close>

definition fixedZone :: "int \<Rightarrow> Location" where
  "fixedZone off = \<lparr>firstOffset = off, transitions = []\<rparr>"

lemma fixedZone_simps [simp]:
  "wallClock (fixedZone off) t = t + off"
  "Date (fixedZone off) y m d s = dateDays y m d * 86400 + s - off"
  by (simp_all add: fixedZone_def wallClock_def Date_def lookup_def Let_def)

lemma AddDate_midnight:
  "AddDate (fixedZone off) (z * 86400 - off) 0 0 n = (z + n) * 86400 - off"
proof -
  obtain y m d where c: "civil z = (y, m, d)" by (metis prod_cases3)
  then have "dateDays y m (d + n) = z + n" using civil_bounds [OF c] by (simp add: dateDays_monthStart)
  with c show ?thesis by (simp add: AddDate_def DateOf_def ClockOf_def)
qed

lemma AddDate_month:
  "AddDate (fixedZone off) (monthStart k * 86400 - off) 0 n 0 = monthStart (k + n) * 86400 - off"
proof -
  obtain y m d where c: "civil (monthStart k) = (y, m, d)" by (metis prod_cases3)
  have "monthIndex (monthStart k) = k" by (rule monthIndex_unique) (simp_all add: monthStart_less)
  with c have k: "k = 12 * y + (m - 1)" by (simp add: monthIndex_def)
  with civil_bounds [OF c] have "d = 1" by (simp add: dateDays_monthStart)
  moreover have "monthStart (12 * y + (m + n - 1)) = monthStart (k + n)"
    by (rule arg_cong [where f = monthStart]) (use k in simp)
  ultimately show ?thesis by (simp add: AddDate_def DateOf_def ClockOf_def c dateDays_monthStart)
qed

definition dailyBoundary :: "int \<Rightarrow> int \<Rightarrow> int" where
  "dailyBoundary off t = ((t + off) div 86400 + 1) * 86400 - off"

text \<open>Day -3 was a Monday.\<close>

definition weeklyBoundary :: "int \<Rightarrow> int \<Rightarrow> int" where
  "weeklyBoundary off t = (7 * (((t + off) div 86400 + 3) div 7 + 1) - 3) * 86400 - off"

definition monthlyBoundary :: "int \<Rightarrow> int \<Rightarrow> int" where
  "monthlyBoundary off t = monthStart (monthIndex ((t + off) div 86400) + 1) * 86400 - off"

lemma nextReset_boundary:
  "nextReset (fixedZone off) t plan ''daily'' = Some (dailyBoundary off t)"
  "nextReset (fixedZone off) t plan ''weekly'' = Some (weeklyBoundary off t)"
  "nextReset (fixedZone off) t plan ''monthly'' = Some (monthlyBoundary off t)"
proof -
  define z where "z = (t + off) div 86400"
  obtain y m d where c: "civil z = (y, m, d)" by (metis prod_cases3)
  note b = civil_bounds [OF c]
  have date: "DateOf (fixedZone off) t = (y, m, d)" using c by (simp add: DateOf_def z_def)
  show "nextReset (fixedZone off) t plan ''daily'' = Some (dailyBoundary off t)"
    using b AddDate_midnight [of off z 1] by (simp add: nextReset_def date dailyBoundary_def z_def)
  have "nextReset (fixedZone off) t plan ''weekly'' = Some (AddDate (fixedZone off) (z * 86400 - off) 0 0
      (8 - (if (z + 4) mod 7 = 0 then 7 else (z + 4) mod 7)))"
    using b by (simp add: nextReset_def date Weekday_def Let_def z_def [symmetric])
  moreover have "z + (8 - (if (z + 4) mod 7 = 0 then 7 else (z + 4) mod 7)) = 7 * ((z + 3) div 7 + 1) - 3"
    by presburger
  ultimately show "nextReset (fixedZone off) t plan ''weekly'' = Some (weeklyBoundary off t)"
    by (simp only: AddDate_midnight weeklyBoundary_def z_def)
  have "monthIndex z = 12 * y + (m - 1)" using c by (simp add: monthIndex_def)
  then show "nextReset (fixedZone off) t plan ''monthly'' = Some (monthlyBoundary off t)"
    using AddDate_month [of off "12 * y + (m - 1)" 1]
    by (simp add: nextReset_def date monthlyBoundary_def dateDays_monthStart z_def)
qed

section \<open>Catching up\<close>

definition cutAt :: "int \<Rightarrow> int \<Rightarrow> int" where
  "cutAt endUnix next = (if endUnix > 0 \<and> next > endUnix then 0 else next)"

text \<open>
  A reset period: the next boundary lies ahead, and it is the same from everywhere before it.
\<close>

locale reset_period =
  fixes boundary :: "int \<Rightarrow> int"
  assumes ahead: "t < boundary t"
    and stable: "t \<le> u \<Longrightarrow> u < boundary t \<Longrightarrow> boundary u = boundary t"
begin

lemma mono: "t \<le> u \<Longrightarrow> boundary t \<le> boundary u"
  using stable [of t u] ahead [of u] by (cases "u < boundary t") auto

text \<open>Stepping from boundary to boundary ends at the boundary that follows \<open>now\<close>.\<close>

lemma catch_up:
  assumes step: "\<And>t. calcNextResetTime loc t plan endUnix = cutAt endUnix (boundary t)"
    and "endUnix \<le> 0 \<or> now \<le> endUnix" "0 < base" "base \<le> now"
  shows "\<exists>last. resetLoop loc plan endUnix now adv base (cutAt endUnix (boundary base)) =
      Some (adv \<or> boundary base \<le> now, last, cutAt endUnix (boundary now)) \<and> base \<le> last \<and> last \<le> now \<and>
      boundary last = boundary now \<and> (last = base \<or> (\<exists>t. base \<le> t \<and> last = boundary t))"
  using assms(3,4)
proof (induction "nat (now - base)" arbitrary: base adv rule: less_induct)
  case less
  show ?case
  proof (cases "boundary base \<le> now")
    case True
    let ?b = "boundary base"
    have b: "base < ?b" "0 < ?b" using ahead [of base] less.prems by auto
    have "nat (now - ?b) < nat (now - base)" using b True less.prems by simp
    from less.hyps [OF this b(2) True, of True]
    obtain last where last: "resetLoop loc plan endUnix now True ?b (cutAt endUnix (boundary ?b)) =
        Some (True, last, cutAt endUnix (boundary now))" "?b \<le> last" "last \<le> now" "boundary last = boundary now"
      "last = ?b \<or> (\<exists>t. ?b \<le> t \<and> last = boundary t)" by auto
    have eq: "resetLoop loc plan endUnix now adv base (cutAt endUnix ?b) = resetLoop loc plan endUnix now True ?b (cutAt endUnix (boundary ?b))"
      using True b assms(2) by (subst resetLoop.simps) (auto simp: step cutAt_def)
    have "\<exists>t. base \<le> t \<and> last = boundary t"
      using last(5) b by (metis less_imp_le order.trans order_refl)
    with last b True eq show ?thesis by (intro exI [of _ last]) simp
  next
    case False
    then have "boundary base = boundary now" using stable less.prems by force
    moreover have "\<not> (0 < cutAt endUnix (boundary base) \<and> cutAt endUnix (boundary base) \<le> now)"
      using False by (simp add: cutAt_def)
    ultimately show ?thesis using False less.prems by (subst resetLoop.simps) auto
  qed
qed

end

text \<open>Days and weeks are grids of a fixed width.\<close>

definition gridBoundary :: "int \<Rightarrow> int \<Rightarrow> int \<Rightarrow> int" where
  "gridBoundary width shift t = ((t + shift) div width + 1) * width - shift"

lemma cell_bounds: "0 < w \<Longrightarrow> x div w * w \<le> x \<and> x < (x div w + 1) * w" for x w :: int
  using div_mult_mod_eq [of x w] pos_mod_sign [of w x] pos_mod_bound [of w x]
  unfolding distrib_right mult_1 by linarith

lemma gridBoundary_period:
  assumes "0 < width"
  shows "reset_period (gridBoundary width shift)"
proof
  note cell = cell_bounds [OF assms]
  fix t u
  show "t < gridBoundary width shift t"
    using cell [of "t + shift"] unfolding gridBoundary_def by linarith
  assume tu: "t \<le> u" "u < gridBoundary width shift t"
  have "(u + shift) div width = (t + shift) div width"
  proof (rule antisym)
    have "u + shift < ((t + shift) div width + 1) * width" using tu(2) by (simp add: gridBoundary_def)
    then have "(u + shift) div width * width < ((t + shift) div width + 1) * width"
      using cell [of "u + shift"] by linarith
    then have "(u + shift) div width < (t + shift) div width + 1"
      using assms by (simp only: mult_less_cancel_right_pos)
    then show "(u + shift) div width \<le> (t + shift) div width" by linarith
    show "(t + shift) div width \<le> (u + shift) div width" using tu(1) assms by (simp add: zdiv_mono1)
  qed
  then show "gridBoundary width shift u = gridBoundary width shift t" by (simp add: gridBoundary_def)
qed

lemma dailyBoundary_grid: "dailyBoundary off = gridBoundary 86400 off"
  by (rule ext) (simp add: dailyBoundary_def gridBoundary_def)

lemma weeklyBoundary_grid: "weeklyBoundary off = gridBoundary 604800 (off + 259200)"
proof
  fix t
  have "((t + off) div 86400 + 3) div 7 = (t + off + 3 * 86400) div (86400 * 7)"
    by (simp only: zdiv_zmult2_eq div_mult_self1 zero_le_numeral)
  then show "weeklyBoundary off t = gridBoundary 604800 (off + 259200) t"
    by (simp add: weeklyBoundary_def gridBoundary_def algebra_simps)
qed

interpretation daily: reset_period "dailyBoundary off" for off
  unfolding dailyBoundary_grid by (rule gridBoundary_period) simp

interpretation weekly: reset_period "weeklyBoundary off" for off
  unfolding weeklyBoundary_grid by (rule gridBoundary_period) simp

interpretation monthly: reset_period "monthlyBoundary off" for off
proof
  fix t u
  let ?z = "\<lambda>t. (t + off) div 86400"
  note m = monthIndex_bounds [of "?z t"]
  have day: "?z t * 86400 \<le> t + off \<and> t + off < (?z t + 1) * 86400" for t
    using cell_bounds [of 86400 "t + off"] by simp
  have "(?z t + 1) * 86400 \<le> monthStart (monthIndex (?z t) + 1) * 86400" using m by simp
  with day [of t] show "t < monthlyBoundary off t" unfolding monthlyBoundary_def by linarith
  assume tu: "t \<le> u" "u < monthlyBoundary off t"
  have "?z t \<le> ?z u" using tu(1) by (simp add: zdiv_mono1)
  moreover have "?z u * 86400 < monthStart (monthIndex (?z t) + 1) * 86400"
    using tu(2) day [of u] unfolding monthlyBoundary_def by linarith
  ultimately have "monthIndex (?z u) = monthIndex (?z t)" using m by (intro monthIndex_unique) simp_all
  then show "monthlyBoundary off u = monthlyBoundary off t" by (simp add: monthlyBoundary_def)
qed

section \<open>The loop returns\<close>

definition calendarPeriod :: "SubscriptionPlan \<Rightarrow> bool" where
  "calendarPeriod plan = (NormalizeResetPeriod (spQuotaResetPeriod plan) \<in> set [''daily'', ''weekly'', ''monthly''])"

lemma NormalizeResetPeriod_cases:
  "NormalizeResetPeriod p \<in> {''daily'', ''weekly'', ''monthly'', ''custom'', ''never''}"
  by (simp add: NormalizeResetPeriod_def)

lemma calcNextResetTime_cut:
  assumes "nextReset loc t plan (NormalizeResetPeriod (spQuotaResetPeriod plan)) = Some b"
  shows "calcNextResetTime loc t plan endUnix = cutAt endUnix b"
  using assms by (auto simp: calcNextResetTime_def cutAt_def Let_def nextReset_def split: prod.splits)

lemma calendar_boundary:
  assumes "calendarPeriod plan"
  shows "\<exists>boundary. reset_period boundary \<and>
    (\<forall>t endUnix. calcNextResetTime (fixedZone off) t plan endUnix = cutAt endUnix (boundary t))"
proof -
  consider "NormalizeResetPeriod (spQuotaResetPeriod plan) = ''daily''"
    | "NormalizeResetPeriod (spQuotaResetPeriod plan) = ''weekly''"
    | "NormalizeResetPeriod (spQuotaResetPeriod plan) = ''monthly''"
    using assms by (auto simp: calendarPeriod_def)
  then show ?thesis
  proof cases
    case 1
    show ?thesis
      by (intro exI [of _ "dailyBoundary off"] conjI allI daily.reset_period_axioms calcNextResetTime_cut)
        (simp only: 1 nextReset_boundary)
  next
    case 2
    show ?thesis
      by (intro exI [of _ "weeklyBoundary off"] conjI allI weekly.reset_period_axioms calcNextResetTime_cut)
        (simp only: 2 nextReset_boundary)
  next
    case 3
    show ?thesis
      by (intro exI [of _ "monthlyBoundary off"] conjI allI monthly.reset_period_axioms calcNextResetTime_cut)
        (simp only: 3 nextReset_boundary)
  qed
qed

text \<open>
  C37.  In a location with a fixed offset, catching up on missed daily, weekly or monthly resets one
  by one ends, and it ends at the next reset time that a single step from the present gives; the
  last reset it passes lies between the old one and the present, in the same period as the present.
\<close>

theorem catch_up_is_one_step:
  assumes "calendarPeriod plan" and "endUnix \<le> 0 \<or> now \<le> endUnix" and "0 < base" "base \<le> now"
  shows "\<exists>advanced last.
    resetLoop (fixedZone off) plan endUnix now False base (calcNextResetTime (fixedZone off) base plan endUnix) =
      Some (advanced, last, calcNextResetTime (fixedZone off) now plan endUnix) \<and>
    base \<le> last \<and> last \<le> now \<and>
    calcNextResetTime (fixedZone off) last plan endUnix = calcNextResetTime (fixedZone off) now plan endUnix \<and>
    (advanced \<longleftrightarrow> calcNextResetTime (fixedZone off) base plan 0 \<le> now)"
proof -
  from calendar_boundary [OF assms(1), of off]
  obtain boundary where per: "reset_period boundary"
    and "\<forall>t endUnix. calcNextResetTime (fixedZone off) t plan endUnix = cutAt endUnix (boundary t)"
    by (elim exE conjE)
  then have step: "calcNextResetTime (fixedZone off) t plan e = cutAt e (boundary t)" for t e by simp
  obtain last where last: "resetLoop (fixedZone off) plan endUnix now False base (cutAt endUnix (boundary base)) =
      Some (boundary base \<le> now, last, cutAt endUnix (boundary now))" "base \<le> last" "last \<le> now"
    "boundary last = boundary now"
    using reset_period.catch_up [OF per step assms(2-4), of False] by auto
  have "cutAt 0 (boundary base) = boundary base" by (simp add: cutAt_def)
  with last show ?thesis
    unfolding step by (intro exI [of _ "boundary base \<le> now"] exI [of _ last]) simp
qed

definition periodPlan :: "string \<Rightarrow> SubscriptionPlan" where
  "periodPlan period = \<lparr>spId = 1, spTitle = ''plan'', spDurationUnit = ''month'', spDurationValue = 1,
     spCustomSeconds = 0, spEnabled = True, spAllowBalancePay = None, spAllowWalletOverflow = None,
     spMaxPurchasePerUser = 0, spUpgradeGroup = [], spDowngradeGroup = [], spTotalAmount = 100,
     spQuotaResetPeriod = period, spQuotaResetCustomSeconds = 0\<rparr>"

text \<open>From 2025-09-06 12:00 UTC to 2025-12-15 08:00 at eight hours east, three firsts of a month later.\<close>

theorem catch_up_is_one_step_witness:
  "calcNextResetTime (fixedZone 28800) 1765756800 (periodPlan ''monthly'') 0 = 1767196800 \<and>
   (\<exists>last. resetLoop (fixedZone 28800) (periodPlan ''monthly'') 0 1765756800 False 1757160000
     (calcNextResetTime (fixedZone 28800) 1757160000 (periodPlan ''monthly'') 0) = Some (True, last, 1767196800))"
proof -
  have "calcNextResetTime (fixedZone 28800) 1765756800 (periodPlan ''monthly'') 0 = 1767196800"
    "calcNextResetTime (fixedZone 28800) 1757160000 (periodPlan ''monthly'') 0 \<le> 1765756800"
    "calendarPeriod (periodPlan ''monthly'')"
    by code_simp+
  with catch_up_is_one_step [of "periodPlan ''monthly''" 0 1765756800 1757160000 28800] show ?thesis by auto
qed

lemma calcNextResetTime_advances:
  assumes "spQuotaResetCustomSeconds plan \<le> 9223372036"
  shows "calcNextResetTime (fixedZone off) t plan endUnix = 0 \<or> t < calcNextResetTime (fixedZone off) t plan endUnix"
proof (cases "calendarPeriod plan")
  case True
  from calendar_boundary [OF True, of off]
  obtain boundary where "reset_period boundary"
    "\<forall>t endUnix. calcNextResetTime (fixedZone off) t plan endUnix = cutAt endUnix (boundary t)"
    by (elim exE conjE)
  then show ?thesis by (simp add: cutAt_def reset_period.ahead)
next
  case False
  let ?n = "spQuotaResetCustomSeconds plan"
  have "t < AddDuration t ?n 1" if "0 < ?n"
    using that assms by (simp add: AddDuration_def wrap64_def)
  with False NormalizeResetPeriod_cases [of "spQuotaResetPeriod plan"] show ?thesis
    by (auto simp: calcNextResetTime_def nextReset_def calendarPeriod_def Let_def split: prod.splits)
qed

text \<open>
  C38.  The reset loop returns for every plan whose custom period fits a 64-bit duration, from every
  starting point, when the location has a fixed offset; it returns with no reset left to do.
\<close>

theorem resetLoop_returns:
  assumes "spQuotaResetCustomSeconds plan \<le> 9223372036"
  shows "\<exists>advanced' last next'. resetLoop (fixedZone off) plan endUnix now advanced base next =
      Some (advanced', last, next') \<and> (next' \<le> 0 \<or> now < next') \<and> (advanced \<longrightarrow> advanced')"
proof (induction "nat (now + 1 - next)" arbitrary: advanced base "next" rule: less_induct)
  case less
  show ?case
  proof (cases "0 < next \<and> next \<le> now")
    case True
    let ?n = "calcNextResetTime (fixedZone off) next plan endUnix"
    have unfold: "resetLoop (fixedZone off) plan endUnix now advanced base next =
        resetLoop (fixedZone off) plan endUnix now True next ?n"
      using True by (subst resetLoop.simps) simp
    show ?thesis
    proof (cases "?n = 0")
      case True
      then show ?thesis unfolding unfold by (subst resetLoop.simps) auto
    next
      case False
      then have "nat (now + 1 - ?n) < nat (now + 1 - next)"
        using calcNextResetTime_advances [OF assms, of off "next" endUnix] True by linarith
      from less [OF this, of True "next"] show ?thesis unfolding unfold by auto
    qed
  next
    case False
    then show ?thesis by (subst resetLoop.simps) auto
  qed
qed

theorem resetLoop_returns_witness:
  "\<exists>r. resetLoop (fixedZone 0) (periodPlan ''daily'') 0 1765756800 False 1757160000 1757203200 = Some r"
  using resetLoop_returns [of "periodPlan ''daily''" 0 0 1765756800 False 1757160000 1757203200]
  by (auto simp: periodPlan_def)

section \<open>A location where the loop does not return\<close>

text \<open>
  Chile around 2025-09-07: at 04:00 UTC the clocks go from 24:00 at four hours west of Greenwich
  to 01:00 at three, so that day has no midnight.
\<close>

definition santiago :: Location where
  "santiago = \<lparr>firstOffset = - 14400, transitions = [(1757217600, - 10800)]\<rparr>"

lemma santiago_missing_midnight:
  "calcNextResetTime santiago 1757160000 (periodPlan ''daily'') 0 = 1757214000"
  "calcNextResetTime santiago 1757214000 (periodPlan ''daily'') 0 = 1757214000"
  by code_simp+

lemma calcNextResetTime_end:
  "calcNextResetTime loc t plan endUnix = cutAt endUnix (calcNextResetTime loc t plan 0)"
  by (auto simp: calcNextResetTime_def cutAt_def Let_def split: option.splits)

lemma resetLoop_stuck:
  assumes fix': "calcNextResetTime loc b plan endUnix = b" and "0 < b" "b \<le> now"
  shows "resetLoop loc plan endUnix now adv base b = None"
proof (rule ccontr)
  assume "resetLoop loc plan endUnix now adv base b \<noteq> None"
  then obtain r where ret: "resetLoop loc plan endUnix now adv base b = Some r" by auto
  have "(loc, plan, endUnix, now, b) \<noteq> (loc, plan, endUnix, now, b)"
  proof (rule resetLoop.raw_induct [where
        P = "\<lambda>l p e n a s x r. (l, p, e, n, x) \<noteq> (loc, plan, endUnix, now, b)", OF _ ret])
    fix f l p e n a s x r
    assume IH: "\<And>l p e n a s x r. f l p e n a s x = Some r \<Longrightarrow> (l, p, e, n, x) \<noteq> (loc, plan, endUnix, now, b)"
      and eq: "(if 0 < x \<and> x \<le> n then f l p e n True x (calcNextResetTime l x p e) else Some (a, s, x)) = Some r"
    show "(l, p, e, n, x) \<noteq> (loc, plan, endUnix, now, b)"
      using IH [of l p e n True x "calcNextResetTime l x p e" r] eq assms by (auto split: if_splits)
  qed
  then show False by simp
qed

text \<open>
  C39.  In a location west of Greenwich whose clocks go forward at midnight, Chile on 2025-09-07, a
  subscription with daily resets whose last reset was the day before makes the loop run forever: the
  missing midnight resolves to 23:00 of that day, which is its own next reset.
\<close>

theorem resetLoop_never_returns:
  assumes "1757214000 \<le> now" "now < endUnix"
  shows "resetLoop santiago (periodPlan ''daily'') endUnix now False 1757160000
      (calcNextResetTime santiago 1757160000 (periodPlan ''daily'') endUnix) = None"
proof -
  have "calcNextResetTime santiago t (periodPlan ''daily'') endUnix = 1757214000"
    if "calcNextResetTime santiago t (periodPlan ''daily'') 0 = 1757214000" for t
    using that assms by (subst calcNextResetTime_end) (simp add: cutAt_def)
  with santiago_missing_midnight show ?thesis using assms by (simp add: resetLoop_stuck)
qed

theorem resetLoop_never_returns_witness:
  "resetLoop santiago (periodPlan ''daily'') 1759752000 1757300000 False 1757160000
      (calcNextResetTime santiago 1757160000 (periodPlan ''daily'') 1759752000) = None"
  by (rule resetLoop_never_returns) simp_all

section \<open>The end of a plan\<close>

lemma AddDate_years: "AddDate (fixedZone off) t years 0 0 = AddDate (fixedZone off) t 0 (12 * years) 0"
  by (simp add: AddDate_def dateDays_monthStart split: prod.split) (simp add: algebra_simps)

lemma AddDate_forward:
  assumes "0 < months"
  shows "t < AddDate (fixedZone off) t 0 months 0"
proof -
  let ?z = "(t + off) div 86400"
  obtain y m d where c: "civil ?z = (y, m, d)" by (metis prod_cases3)
  have end': "AddDate (fixedZone off) t 0 n 0 =
      (monthStart (12 * y + (m - 1) + n) + (d - 1)) * 86400 + (t + off) mod 86400 - off" for n
    by (simp add: AddDate_def DateOf_def ClockOf_def c dateDays_monthStart) (simp add: algebra_simps)
  have "monthStart (12 * y + (m - 1)) < monthStart (12 * y + (m - 1) + months)"
    by (rule monthStart_mono) (simp add: assms)
  moreover have "?z = monthStart (12 * y + (m - 1)) + (d - 1)"
    using civil_bounds [OF c] by (simp add: dateDays_monthStart)
  ultimately have "?z * 86400 + (t + off) mod 86400 < AddDate (fixedZone off) t 0 months 0 + off"
    unfolding end' by simp
  then show ?thesis by simp
qed

lemma AddDuration_exact:
  assumes "0 < unit" "0 < n" "n * unit \<le> 9223372036"
  shows "AddDuration t n unit = t + n * unit"
proof -
  have "0 < n * unit" using assms by simp
  then have "wrap64 (n * (unit * 1000000000)) = n * unit * 1000000000"
    using assms(3) by (simp add: wrap64_def mult.assoc [symmetric])
  then show ?thesis by (simp add: AddDuration_def)
qed

text \<open>
  C40.  A plan ends after it starts: in a location with a fixed offset every duration that is accepted,
  and that fits the 64-bit nanoseconds of a Go duration, gives an end after the start.
\<close>

theorem plan_ends_after_start:
  assumes "calcPlanEndTime (fixedZone off) start plan = Inr endUnix"
    and "spDurationUnit plan = ''day'' \<longrightarrow> spDurationValue plan \<le> 106751"
    and "spDurationUnit plan = ''hour'' \<longrightarrow> spDurationValue plan \<le> 2562047"
    and "spDurationUnit plan = ''custom'' \<longrightarrow> spCustomSeconds plan \<le> 9223372036"
  shows "start < endUnix"
  using assms AddDate_forward [of "spDurationValue plan" start off]
    AddDate_forward [of "12 * spDurationValue plan" start off]
    AddDuration_exact [of 86400 "spDurationValue plan" start]
    AddDuration_exact [of 3600 "spDurationValue plan" start]
    AddDuration_exact [of 1 "spCustomSeconds plan" start]
  by (auto simp: calcPlanEndTime_def AddDate_years split: if_splits)

theorem plan_ends_after_start_witness:
  "\<exists>endUnix. calcPlanEndTime (fixedZone 0) 1757160000 (periodPlan ''daily'') = Inr endUnix \<and> 1757160000 < endUnix"
proof -
  obtain endUnix where e: "calcPlanEndTime (fixedZone 0) 1757160000 (periodPlan ''daily'') = Inr endUnix"
    by (simp add: calcPlanEndTime_def periodPlan_def)
  moreover from plan_ends_after_start [OF this] have "1757160000 < endUnix" by (simp add: periodPlan_def)
  ultimately show ?thesis by blast
qed

text \<open>
  Past those bounds the product wraps: a plan of 106752 days ends before it starts.
\<close>

lemma long_plan_ends_before_start:
  "calcPlanEndTime loc 1757160000 ((periodPlan ''daily'')\<lparr>spDurationUnit := ''day'', spDurationValue := 106752\<rparr>)
     = Inr (- 7466211274)"
  by (simp add: calcPlanEndTime_def AddDuration_def wrap64_def periodPlan_def)

end
