(* ===== verification/Subscription.thy ===== *)
theory Subscription
  imports Billing_Recovery Subscription_Period
begin

text \<open>
  The subscription store of \<open>model/subscription.go\<close>: plans and their cache, creating, cancelling,
  expiring and resetting subscriptions with the group changes that go with it, and charging a
  request to a subscription, idempotent by request id.  Orders and payments are not modelled.
  The user messages of the source are given in English.  Go visits a map in no fixed order, so
  \<open>ExpireDueSubscriptions\<close> takes the order of its users as the argument \<open>mapOrder\<close>; \<open>loc\<close> is the
  server's location.  The theorems say that no sequence of these operations takes the usage of a
  subscription out of its total, and that a request is charged once.
\<close>

section \<open>The plan caches (pkg/cachex)\<close>

text \<open>Every caller treats an error of the cache as a miss.  Eviction is not modelled.\<close>

definition hybridGet :: "(world \<Rightarrow> ('v \<times> int) option) \<Rightarrow> 'v option goM" where
  "hybridGet entry w =
     (if RedisEnabled w then
        (Inr (if redisFate w (rops w) = FOk then live (clock w) (entry w) else None), w\<lparr>rops := Suc (rops w)\<rparr>)
      else (Inr (live (clock w) (entry w)), w))"

definition hybridSetWithTTL :: "(int \<Rightarrow> world \<Rightarrow> world) \<Rightarrow> int \<Rightarrow> unit goM" where
  "hybridSetWithTTL store ttl w =
     (let expiry = clock w + ttl in
      if RedisEnabled w then
        (Inr (), (if redisFate w (rops w) = FFail then w else store expiry w)\<lparr>rops := Suc (rops w)\<rparr>)
      else (Inr (), store expiry w))"

definition NormalizeDefaults :: "SubscriptionPlan \<Rightarrow> SubscriptionPlan" where
  "NormalizeDefaults p =
     (let p = (if spAllowBalancePay p = None then p\<lparr>spAllowBalancePay := Some True\<rparr> else p) in
      if spAllowWalletOverflow p = None then p\<lparr>spAllowWalletOverflow := Some True\<rparr> else p)"

text \<open>The default times to live, 300 and 120 seconds.\<close>

definition subscriptionPlanCacheTTL :: int where "subscriptionPlanCacheTTL = 300"
definition subscriptionPlanInfoCacheTTL :: int where "subscriptionPlanInfoCacheTTL = 120"

definition getSubscriptionPlanByIdTx :: "int \<Rightarrow> SubscriptionPlan goM" where
  "getSubscriptionPlanByIdTx i =
     (if i \<le> 0 then throwM (ErrText ''invalid plan id'')
      else bindM (hybridGet (\<lambda>w. planCache w i)) (\<lambda>cached.
        case cached of Some plan \<Rightarrow> retM (NormalizeDefaults plan)
        | None \<Rightarrow> bindM (firstM (\<lambda>d. plans d i)) (\<lambda>row.
            let plan = NormalizeDefaults row in
            seqM (hybridSetWithTTL (\<lambda>expiry w. w\<lparr>planCache := (planCache w)(i \<mapsto> (plan, expiry))\<rparr>)
                subscriptionPlanCacheTTL)
              (retM plan))))"

definition InvalidateSubscriptionPlanCache :: "int \<Rightarrow> unit goM" where
  "InvalidateSubscriptionPlanCache planId =
     (if planId \<le> 0 then retM ()
      else seqM (hybridSetWithTTL (\<lambda>_ w. w\<lparr>planCache := (planCache w)(planId := None)\<rparr>) 0)
             (hybridSetWithTTL (\<lambda>_ w. w\<lparr>planInfoCache := Map.empty\<rparr>) 0))"

definition GetSubscriptionPlanInfoByUserSubscriptionId :: "int \<Rightarrow> (int \<times> string) goM" where
  "GetSubscriptionPlanInfoByUserSubscriptionId i =
     (if i \<le> 0 then throwM (ErrText ''invalid userSubscriptionId'')
      else bindM (hybridGet (\<lambda>w. planInfoCache w i)) (\<lambda>cached.
        case cached of Some info \<Rightarrow> retM info
        | None \<Rightarrow> bindM (firstM (\<lambda>d. findSub d i)) (\<lambda>sub.
            bindM (getSubscriptionPlanByIdTx (usPlanId sub)) (\<lambda>plan.
              let info = (usPlanId sub, spTitle plan) in
              seqM (hybridSetWithTTL (\<lambda>expiry w. w\<lparr>planInfoCache := (planInfoCache w)(i \<mapsto> (info, expiry))\<rparr>)
                  subscriptionPlanInfoCacheTTL)
                (retM info)))))"

section \<open>Groups\<close>

text \<open>The script of \<open>updateUserCacheFieldAtVersion\<close> for the field \<open>Group\<close>.\<close>

definition updateGroupScript :: "int \<Rightarrow> int \<Rightarrow> string \<Rightarrow> int \<Rightarrow> redis \<Rightarrow> int \<times> redis" where
  "updateGroupScript now i grp incoming r =
     (let pending = (case live now (authFence r i) of None \<Rightarrow> 0 | Some v \<Rightarrow> v);
          committed = (case authVersionKey r i of None \<Rightarrow> 0 | Some v \<Rightarrow> v);
          hash = live now (userHash r i);
          current = (case hash of None \<Rightarrow> 0 | Some h \<Rightarrow> ubAuthVersion h)
      in if pending > incoming \<or> committed > incoming \<or> current > incoming then (0, r)
      else
        let r1 = (if committed < incoming
                  then r\<lparr>authVersionKey := (authVersionKey r)(i \<mapsto> incoming)\<rparr> else r);
            r2 = (if pending > 0 \<and> pending \<le> incoming
                  then r1\<lparr>authFence := (authFence r1)(i := None)\<rparr> else r1)
        in if hash = None \<or> current \<noteq> incoming then (1, r2)
        else (1, r2\<lparr>userHash := (userHash r2)(i := map_option
          (\<lambda>(h, expiry). (h\<lparr>ubGroup := grp, ubCacheSchema := userCacheSchemaVersion\<rparr>, expiry)) (userHash r2 i))\<rparr>))"

definition updateUserCacheFieldAtVersion :: "int \<Rightarrow> string \<Rightarrow> int \<Rightarrow> unit goM" where
  "updateUserCacheFieldAtVersion userId grp authVersion = bindM (getsM RedisEnabled) (\<lambda>enabled.
     if \<not> enabled then retM ()
     else if userId \<le> 0 \<or> authVersion \<le> 0 then throwM (ErrText ''invalid user auth version'')
     else bindM nowM (\<lambda>now. bindM (redisM (updateGroupScript now userId grp authVersion)) (\<lambda>result.
       if result = 0 then throwM ErrUserAuthCachePending else retM ())))"

fun refreshGroup :: "nat \<Rightarrow> int \<Rightarrow> User \<Rightarrow> unit goM" where
  "refreshGroup 0 userId authoritative =
     seqM (updateUserCacheFieldAtVersion userId (uGroup authoritative) (uAuthVersion authoritative))
       (throwM (ErrText ''user group changed repeatedly during cache refresh''))"
| "refreshGroup (Suc n) userId authoritative =
     seqM (updateUserCacheFieldAtVersion userId (uGroup authoritative) (uAuthVersion authoritative))
       (bindM (firstM (\<lambda>d. users d userId)) (\<lambda>verified.
         if uAuthVersion verified = uAuthVersion authoritative \<and> uGroup verified = uGroup authoritative
         then retM () else refreshGroup n userId verified))"

definition RefreshUserGroupCache :: "int \<Rightarrow> unit goM" where
  "RefreshUserGroupCache userId = bindM (getsM RedisEnabled) (\<lambda>enabled.
     if \<not> enabled then retM ()
     else if userId \<le> 0 then throwM (ErrText ''invalid user id'')
     else bindM (firstM (\<lambda>d. users d userId)) (refreshGroup 3 userId))"

definition getUserGroupByIdTx :: "int \<Rightarrow> string goM" where
  "getUserGroupByIdTx userId =
     (if userId \<le> 0 then throwM (ErrText ''invalid userId'')
      else findM (\<lambda>d. case users d userId of None \<Rightarrow> [] | Some u \<Rightarrow> uGroup u))"

definition setUserGroup :: "int \<Rightarrow> string \<Rightarrow> unit goM" where
  "setUserGroup userId grp = bindM (updUser userId (\<lambda>_. True) (\<lambda>u. u\<lparr>uGroup := grp\<rparr>)) (\<lambda>_. retM ())"

definition activeAt :: "int \<Rightarrow> int \<Rightarrow> UserSubscription \<Rightarrow> bool" where
  "activeAt userId now s = (usUserId s = userId \<and> usStatus s = ''active'' \<and> usEndTime s > now)"

definition downgradeUserGroupForSubscriptionTx :: "UserSubscription \<Rightarrow> int \<Rightarrow> string goM" where
  "downgradeUserGroupForSubscriptionTx sub now =
     (let downgradeGroup = TrimSpace (usDowngradeGroup sub); upgradeGroup = TrimSpace (usUpgradeGroup sub) in
      if downgradeGroup = [] \<and> upgradeGroup = [] then retM []
      else bindM (getUserGroupByIdTx (usUserId sub)) (\<lambda>currentGroup.
        bindM (tryM (findM (\<lambda>d. \<exists>s \<in> set (subs d). activeAt (usUserId sub) now s \<and> usId s \<noteq> usId sub \<and>
            usUpgradeGroup s \<noteq> []))) (\<lambda>other.
          if other = Inr True then retM []
          else if downgradeGroup = [] \<and> currentGroup \<noteq> upgradeGroup then retM []
          else let target = (if downgradeGroup = [] then TrimSpace (usPrevUserGroup sub) else downgradeGroup) in
            if target = [] \<or> target = currentGroup then retM []
            else seqM (setUserGroup (usUserId sub) target) (retM target))))"

section \<open>Creating and ending subscriptions\<close>

definition CountUserSubscriptionsByPlan :: "int \<Rightarrow> int \<Rightarrow> int goM" where
  "CountUserSubscriptionsByPlan userId planId =
     (if userId \<le> 0 \<or> planId \<le> 0 then throwM (ErrText ''invalid userId or planId'')
      else findM (\<lambda>d. int (length (filter (\<lambda>s. usUserId s = userId \<and> usPlanId s = planId) (subs d)))))"

text \<open>An inserted row gets an id above every id in the table.\<close>

definition nextSubId :: "db \<Rightarrow> int" where
  "nextSubId d = 1 + fold max (map usId (subs d)) 0"

definition createSub :: "UserSubscription \<Rightarrow> UserSubscription goM" where
  "createSub s = dbM (\<lambda>d. let s = s\<lparr>usId := nextSubId d\<rparr> in (Inr s, d\<lparr>subs := subs d @ [s]\<rparr>))"

definition CreateUserSubscriptionFromPlanTx ::
  "Location \<Rightarrow> int \<Rightarrow> SubscriptionPlan \<Rightarrow> string \<Rightarrow> UserSubscription goM" where
  "CreateUserSubscriptionFromPlanTx loc userId plan source =
     (if spId plan = 0 then throwM (ErrText ''invalid plan'')
      else if userId \<le> 0 then throwM (ErrText ''invalid user id'')
      else bindM (if spMaxPurchasePerUser plan > 0
          then findM (\<lambda>d. int (length (filter (\<lambda>s. usUserId s = userId \<and> usPlanId s = spId plan) (subs d))))
          else retM (- 1)) (\<lambda>count.
        if spMaxPurchasePerUser plan > 0 \<and> count \<ge> spMaxPurchasePerUser plan
        then throwM (ErrText ''purchase limit reached'')
        else bindM GetDBTimestamp (\<lambda>now.
          case calcPlanEndTime loc now plan of Inl e \<Rightarrow> throwM e
          | Inr endUnix \<Rightarrow>
            let nextReset = calcNextResetTime loc now plan endUnix;
                lastReset = (if nextReset > 0 then now else 0);
                upgradeGroup = TrimSpace (spUpgradeGroup plan) in
            bindM (if upgradeGroup = [] then retM []
              else bindM (getUserGroupByIdTx userId) (\<lambda>currentGroup.
                if currentGroup = upgradeGroup then retM []
                else seqM (setUserGroup userId upgradeGroup) (retM currentGroup))) (\<lambda>prevGroup.
            createSub \<lparr>usId = 0, usUserId = userId, usPlanId = spId plan, usAmountTotal = spTotalAmount plan,
              usAmountUsed = 0, usStartTime = now, usEndTime = endUnix, usStatus = ''active'', usSource = source,
              usLastResetTime = lastReset, usNextResetTime = nextReset, usUpgradeGroup = upgradeGroup,
              usPrevUserGroup = prevGroup, usDowngradeGroup = TrimSpace (spDowngradeGroup plan),
              usAllowWalletOverflow = (case spAllowWalletOverflow plan of None \<Rightarrow> True | Some b \<Rightarrow> b),
              usCreatedAt = now, usUpdatedAt = now\<rparr>))))"

definition AdminBindSubscription :: "Location \<Rightarrow> int \<Rightarrow> int \<Rightarrow> string goM" where
  "AdminBindSubscription loc userId planId =
     (if userId \<le> 0 \<or> planId \<le> 0 then throwM (ErrText ''invalid userId or planId'')
      else bindM (getSubscriptionPlanByIdTx planId) (\<lambda>plan.
        bindM (transaction (bindM (firstM (\<lambda>d. users d userId)) (\<lambda>_.
          CreateUserSubscriptionFromPlanTx loc userId plan ''admin''))) (\<lambda>sub.
        if usPrevUserGroup sub \<noteq> [] then seqM (ignoreM (RefreshUserGroupCache userId))
          (retM (''the group will be upgraded to '' @ spUpgradeGroup plan))
        else retM [])))"

definition HasActiveUserSubscription :: "int \<Rightarrow> bool goM" where
  "HasActiveUserSubscription userId =
     (if userId \<le> 0 then throwM (ErrText ''invalid userId'')
      else bindM nowM (\<lambda>now. findM (\<lambda>d. \<exists>s \<in> set (subs d). activeAt userId now s)))"

definition UserActiveSubscriptionsAllowWalletOverflow :: "int \<Rightarrow> bool goM" where
  "UserActiveSubscriptionsAllowWalletOverflow userId =
     (if userId \<le> 0 then throwM (ErrText ''invalid userId'')
      else bindM nowM (\<lambda>now. findM (\<lambda>d.
        \<not> (\<exists>s \<in> set (subs d). activeAt userId now s \<and> \<not> usAllowWalletOverflow s))))"

definition saveSubM :: "UserSubscription \<Rightarrow> UserSubscription goM" where
  "saveSubM s = bindM (saveSub s) (\<lambda>_. retM s)"

definition afterGroupChange :: "int \<Rightarrow> string \<Rightarrow> string goM" where
  "afterGroupChange userId target =
     seqM (whenM (target \<noteq> [] \<and> userId > 0) (ignoreM (RefreshUserGroupCache userId)))
       (retM (if target = [] then [] else ''the group will revert to '' @ target))"

definition cancelSubTx :: "int \<Rightarrow> int \<Rightarrow> (int \<times> string) goM" where
  "cancelSubTx i now =
     bindM (firstM (\<lambda>d. findSub d i)) (\<lambda>sub.
     bindM (saveSubM (sub\<lparr>usStatus := ''cancelled'', usEndTime := now\<rparr>)) (\<lambda>sub.
     bindM (downgradeUserGroupForSubscriptionTx sub now) (\<lambda>target. retM (usUserId sub, target))))"

definition AdminInvalidateUserSubscription :: "int \<Rightarrow> string goM" where
  "AdminInvalidateUserSubscription i =
     (if i \<le> 0 then throwM (ErrText ''invalid userSubscriptionId'')
      else bindM nowM (\<lambda>now.
        bindM (transaction (cancelSubTx i now)) (\<lambda>(userId, target). afterGroupChange userId target)))"

definition AdminDeleteUserSubscription :: "int \<Rightarrow> string goM" where
  "AdminDeleteUserSubscription i =
     (if i \<le> 0 then throwM (ErrText ''invalid userSubscriptionId'')
      else bindM nowM (\<lambda>now.
        bindM (transaction (bindM (firstM (\<lambda>d. findSub d i)) (\<lambda>sub.
          bindM (downgradeUserGroupForSubscriptionTx sub now) (\<lambda>target.
            bindM (execM (\<lambda>d. (1, d\<lparr>subs := filter (\<lambda>s. usId s \<noteq> i) (subs d)\<rparr>))) (\<lambda>_.
              retM (usUserId sub, target)))))) (\<lambda>(userId, target).
        afterGroupChange userId target)))"

text \<open>The transaction of one user in \<open>ExpireDueSubscriptions\<close>; it returns the rows expired and the new group.\<close>

definition dueAt :: "int \<Rightarrow> UserSubscription \<Rightarrow> bool" where
  "dueAt now s = (usStatus s = ''active'' \<and> usEndTime s > 0 \<and> usEndTime s \<le> now)"

definition expireUserTx :: "int \<Rightarrow> int \<Rightarrow> (int \<times> string) goM" where
  "expireUserTx now userId =
     bindM (execM (\<lambda>d. (int (length (filter (\<lambda>s. usUserId s = userId \<and> dueAt now s) (subs d))),
       d\<lparr>subs := map (\<lambda>s. if usUserId s = userId \<and> dueAt now s
         then s\<lparr>usStatus := ''expired'', usUpdatedAt := now\<rparr> else s) (subs d)\<rparr>))) (\<lambda>expired.
     bindM (tryM (findM (\<lambda>d. \<exists>s \<in> set (subs d). activeAt userId now s \<and> usUpgradeGroup s \<noteq> []))) (\<lambda>active.
       if active = Inr True then retM (expired, [])
       else bindM (tryM (findM (\<lambda>d. sort_key (\<lambda>s. - usEndTime s) (sort_key (\<lambda>s. - usId s)
           (filter (\<lambda>s. usUserId s = userId \<and> usStatus s = ''expired'' \<and>
              (usDowngradeGroup s \<noteq> [] \<or> usUpgradeGroup s \<noteq> [])) (subs d)))))) (\<lambda>lastExpired.
         case lastExpired of
           Inr (s # _) \<Rightarrow>
             bindM (getUserGroupByIdTx userId) (\<lambda>currentGroup.
               let downgradeGroup = TrimSpace (usDowngradeGroup s); upgradeGroup = TrimSpace (usUpgradeGroup s);
                   prevGroup = TrimSpace (usPrevUserGroup s) in
               if downgradeGroup = [] \<and> (upgradeGroup = [] \<or> prevGroup = [] \<or> currentGroup \<noteq> upgradeGroup)
               then retM (expired, [])
               else let target = (if downgradeGroup = [] then prevGroup else downgradeGroup) in
                 if target = [] \<or> target = currentGroup then retM (expired, [])
                 else seqM (setUserGroup userId target) (retM (expired, target)))
         | _ \<Rightarrow> retM (expired, []))))"

definition ExpireDueSubscriptions :: "(int list \<Rightarrow> int list) \<Rightarrow> int \<Rightarrow> int goM" where
  "ExpireDueSubscriptions mapOrder limit =
     bindM GetDBTimestamp (\<lambda>now.
     bindM (findM (\<lambda>d. take (nat (if limit \<le> 0 then 200 else limit))
       (sort_key usEndTime (sort_key usId (filter (dueAt now) (subs d)))))) (\<lambda>due.
     foldM (\<lambda>count userId.
       bindM (transaction (expireUserTx now userId)) (\<lambda>(expired, target).
         seqM (whenM (target \<noteq> []) (ignoreM (RefreshUserGroupCache userId))) (retM (count + expired))))
       0 (mapOrder (remdups (filter (\<lambda>u. u > 0) (map usUserId due))))))"

section \<open>Resets\<close>

definition resetUserSubscriptionTx ::
  "Location \<Rightarrow> UserSubscription \<Rightarrow> SubscriptionPlan \<Rightarrow> int \<Rightarrow> bool \<Rightarrow> UserSubscription goM" where
  "resetUserSubscriptionTx loc sub plan now advanceResetTime =
     (let sub = sub\<lparr>usAmountUsed := 0\<rparr>;
          nextReset = calcNextResetTime loc now plan (usEndTime sub);
          sub = (if advanceResetTime
                 then sub\<lparr>usNextResetTime := nextReset, usLastResetTime := (if nextReset > 0 then now else 0)\<rparr>
                 else sub)
      in saveSubM sub)"

record SubscriptionResetResult =
  srPlanId :: int
  srMatchedCount :: int
  srResetCount :: int
  srUserCount :: int
  srAdvanceResetTime :: bool
  srPlanTitle :: string
  srAffectedUserIds :: "int list"

fun firstSeen :: "int list \<Rightarrow> int list \<Rightarrow> int list" where
  "firstSeen seen [] = []"
| "firstSeen seen (x # xs) = (if x \<in> set seen then firstSeen seen xs else x # firstSeen (x # seen) xs)"

definition buildSubscriptionResetResult ::
  "SubscriptionPlan \<Rightarrow> UserSubscription list \<Rightarrow> bool \<Rightarrow> SubscriptionResetResult" where
  "buildSubscriptionResetResult plan ss advanceResetTime =
     (let userIds = firstSeen [] (map usUserId ss) in
      \<lparr>srPlanId = spId plan, srMatchedCount = int (length ss), srResetCount = int (length ss),
       srUserCount = int (length userIds), srAdvanceResetTime = advanceResetTime,
       srPlanTitle = spTitle plan, srAffectedUserIds = userIds\<rparr>)"

definition resetAllTx ::
  "Location \<Rightarrow> SubscriptionPlan \<Rightarrow> int \<Rightarrow> bool \<Rightarrow> UserSubscription list \<Rightarrow> SubscriptionResetResult goM" where
  "resetAllTx loc plan now advanceResetTime ss =
     seqM (foldM (\<lambda>_ s. bindM (resetUserSubscriptionTx loc s plan now advanceResetTime) (\<lambda>_. retM ())) () ss)
       (retM (buildSubscriptionResetResult plan ss advanceResetTime))"

definition adminResetUserSubscriptionsByPlanTx ::
  "Location \<Rightarrow> int \<Rightarrow> SubscriptionPlan \<Rightarrow> int \<Rightarrow> bool \<Rightarrow> SubscriptionResetResult goM" where
  "adminResetUserSubscriptionsByPlanTx loc userId plan now advanceResetTime =
     bindM (findM (\<lambda>d. sort_key usEndTime (sort_key usId
       (filter (\<lambda>s. activeAt userId now s \<and> usPlanId s = spId plan) (subs d))))) (\<lambda>ss.
       if ss = [] then throwM (ErrText ''the user has no active subscription of this plan'')
       else resetAllTx loc plan now advanceResetTime ss)"

definition adminResetPlanSubscriptionsTx ::
  "Location \<Rightarrow> SubscriptionPlan \<Rightarrow> int \<Rightarrow> bool \<Rightarrow> SubscriptionResetResult goM" where
  "adminResetPlanSubscriptionsTx loc plan now advanceResetTime =
     bindM (findM (\<lambda>d. sort_key usUserId (sort_key usEndTime (sort_key usId
       (filter (\<lambda>s. activeAt (usUserId s) now s \<and> usPlanId s = spId plan) (subs d))))))
       (resetAllTx loc plan now advanceResetTime)"

definition AdminResetUserSubscriptionsByPlan ::
  "Location \<Rightarrow> int \<Rightarrow> int \<Rightarrow> bool \<Rightarrow> SubscriptionResetResult goM" where
  "AdminResetUserSubscriptionsByPlan loc userId planId advanceResetTime =
     (if userId \<le> 0 \<or> planId \<le> 0 then throwM (ErrText ''invalid userId or planId'')
      else bindM GetDBTimestamp (\<lambda>now. transaction (bindM (getSubscriptionPlanByIdTx planId) (\<lambda>plan.
        adminResetUserSubscriptionsByPlanTx loc userId plan now advanceResetTime))))"

definition AdminResetPlanSubscriptions :: "Location \<Rightarrow> int \<Rightarrow> bool \<Rightarrow> SubscriptionResetResult goM" where
  "AdminResetPlanSubscriptions loc planId advanceResetTime =
     (if planId \<le> 0 then throwM (ErrText ''invalid planId'')
      else bindM GetDBTimestamp (\<lambda>now. transaction (bindM (getSubscriptionPlanByIdTx planId) (\<lambda>plan.
        adminResetPlanSubscriptionsTx loc plan now advanceResetTime))))"

definition maybeResetUserSubscriptionWithPlanTx ::
  "Location \<Rightarrow> UserSubscription \<Rightarrow> SubscriptionPlan \<Rightarrow> int \<Rightarrow> UserSubscription goM" where
  "maybeResetUserSubscriptionWithPlanTx loc sub plan now =
     (if usNextResetTime sub > 0 \<and> usNextResetTime sub > now then retM sub
      else if NormalizeResetPeriod (spQuotaResetPeriod plan) = ''never'' then retM sub
      else let baseUnix = (if usLastResetTime sub \<le> 0 then usStartTime sub else usLastResetTime sub) in
        case resetLoop loc plan (usEndTime sub) now False baseUnix
            (calcNextResetTime loc baseUnix plan (usEndTime sub)) of
          None \<Rightarrow> throwM ErrNoReturn
        | Some (advanced, base, next) \<Rightarrow>
            if advanced then
              saveSubM (sub\<lparr>usAmountUsed := 0, usLastResetTime := base, usNextResetTime := next\<rparr>)
            else if usNextResetTime sub = 0 \<and> next > 0 then
              saveSubM (sub\<lparr>usNextResetTime := next, usLastResetTime := base\<rparr>)
            else retM sub)"

definition resetDueTx :: "Location \<Rightarrow> UserSubscription \<Rightarrow> SubscriptionPlan \<Rightarrow> int \<Rightarrow> bool goM" where
  "resetDueTx loc sub plan now =
     bindM (tryM (firstM (\<lambda>d. find (\<lambda>s. usId s = usId sub \<and> usNextResetTime s > 0 \<and> usNextResetTime s \<le> now)
       (subs d)))) (\<lambda>r.
       case r of Inl _ \<Rightarrow> retM False
       | Inr locked \<Rightarrow> bindM (maybeResetUserSubscriptionWithPlanTx loc locked plan now) (\<lambda>_. retM True))"

definition ResetDueSubscriptions :: "Location \<Rightarrow> int \<Rightarrow> int goM" where
  "ResetDueSubscriptions loc limit =
     bindM GetDBTimestamp (\<lambda>now.
     bindM (findM (\<lambda>d. take (nat (if limit \<le> 0 then 200 else limit)) (sort_key usNextResetTime
       (filter (\<lambda>s. usNextResetTime s > 0 \<and> usNextResetTime s \<le> now \<and> usStatus s = ''active'') (subs d))))) (\<lambda>due.
     foldM (\<lambda>count sub.
       bindM (tryM (getSubscriptionPlanByIdTx (usPlanId sub))) (\<lambda>p.
         case p of Inl _ \<Rightarrow> retM count
         | Inr plan \<Rightarrow> bindM (transaction (resetDueTx loc sub plan now)) (\<lambda>done'.
             retM (if done' then count + 1 else count))))
       0 due))"

section \<open>Charging requests\<close>

record SubscriptionPreConsumeResult =
  prUserSubscriptionId :: int
  prPreConsumed :: int
  prAmountTotal :: int
  prAmountUsedBefore :: int
  prAmountUsedAfter :: int

definition unchangedResult :: "UserSubscription \<Rightarrow> int \<Rightarrow> SubscriptionPreConsumeResult" where
  "unchangedResult sub preConsumed = \<lparr>prUserSubscriptionId = usId sub, prPreConsumed = preConsumed,
     prAmountTotal = usAmountTotal sub, prAmountUsedBefore = usAmountUsed sub, prAmountUsedAfter = usAmountUsed sub\<rparr>"

definition errAlreadyRefunded :: err where
  "errAlreadyRefunded = ErrText ''subscription pre-consume already refunded''"

definition createRecord :: "SubscriptionPreConsumeRecord \<Rightarrow> unit goM" where
  "createRecord r = bindM nowM (\<lambda>now. createM (\<lambda>d. case preconsumes d (pcRequestId r) of
     Some _ \<Rightarrow> None
   | None \<Rightarrow> Some (d\<lparr>preconsumes := (preconsumes d)
       (pcRequestId r \<mapsto> r\<lparr>pcCreatedAt := now, pcUpdatedAt := now\<rparr>)\<rparr>)))"

definition chargeSubTx ::
  "string \<Rightarrow> int \<Rightarrow> int \<Rightarrow> UserSubscription \<Rightarrow> SubscriptionPreConsumeResult goM" where
  "chargeSubTx requestId userId amount sub =
     bindM (tryM (createRecord \<lparr>pcRequestId = requestId, pcUserId = userId, pcUserSubscriptionId = usId sub,
       pcPreConsumed = amount, pcStatus = ''consumed'', pcCreatedAt = 0, pcUpdatedAt = 0\<rparr>)) (\<lambda>created.
       case created of
         Inl e \<Rightarrow> bindM (tryM (firstM (\<lambda>d. preconsumes d requestId))) (\<lambda>dup.
           case dup of Inl _ \<Rightarrow> throwM e
           | Inr r \<Rightarrow> if pcStatus r = ''refunded'' then throwM errAlreadyRefunded
               else retM (unchangedResult sub (pcPreConsumed r)))
       | Inr _ \<Rightarrow>
           bindM (saveSub (sub\<lparr>usAmountUsed := usAmountUsed sub + amount\<rparr>)) (\<lambda>_.
             retM \<lparr>prUserSubscriptionId = usId sub, prPreConsumed = amount, prAmountTotal = usAmountTotal sub,
               prAmountUsedBefore = usAmountUsed sub, prAmountUsedAfter = usAmountUsed sub + amount\<rparr>))"

fun chargeFirst ::
  "Location \<Rightarrow> string \<Rightarrow> int \<Rightarrow> int \<Rightarrow> int \<Rightarrow> UserSubscription list \<Rightarrow> SubscriptionPreConsumeResult goM" where
  "chargeFirst loc requestId userId amount now [] =
     throwM (ErrText (''subscription quota insufficient, need='' @ dec_int amount))"
| "chargeFirst loc requestId userId amount now (candidate # rest) =
     bindM (getSubscriptionPlanByIdTx (usPlanId candidate)) (\<lambda>plan.
     bindM (maybeResetUserSubscriptionWithPlanTx loc candidate plan now) (\<lambda>sub.
       if usAmountTotal sub > 0 \<and> usAmountTotal sub - usAmountUsed sub < amount
       then chargeFirst loc requestId userId amount now rest
       else chargeSubTx requestId userId amount sub))"

definition preConsumeTx ::
  "Location \<Rightarrow> string \<Rightarrow> int \<Rightarrow> int \<Rightarrow> int \<Rightarrow> SubscriptionPreConsumeResult goM" where
  "preConsumeTx loc requestId userId amount now =
     bindM (findM (\<lambda>d. preconsumes d requestId)) (\<lambda>existing.
       case existing of
         Some r \<Rightarrow>
           if pcStatus r = ''refunded'' then throwM errAlreadyRefunded
           else bindM (firstM (\<lambda>d. findSub d (pcUserSubscriptionId r))) (\<lambda>sub.
             retM (unchangedResult sub (pcPreConsumed r)))
       | None \<Rightarrow>
           bindM (tryM (findM (\<lambda>d. sort_key usEndTime (sort_key usId (filter (activeAt userId now) (subs d)))))) (\<lambda>found.
             case found of
               Inl _ \<Rightarrow> throwM (ErrText ''no active subscription'')
             | Inr ss \<Rightarrow> if ss = [] then throwM (ErrText ''no active subscription'')
                 else chargeFirst loc requestId userId amount now ss))"

definition PreConsumeUserSubscription ::
  "Location \<Rightarrow> string \<Rightarrow> int \<Rightarrow> int \<Rightarrow> SubscriptionPreConsumeResult goM" where
  "PreConsumeUserSubscription loc requestId userId amount =
     (if userId \<le> 0 then throwM (ErrText ''invalid userId'')
      else if TrimSpace requestId = [] then throwM (ErrText ''requestId is empty'')
      else if amount \<le> 0 then throwM (ErrText ''amount must be > 0'')
      else bindM GetDBTimestamp (\<lambda>now. transaction (preConsumeTx loc requestId userId amount now)))"

definition refundSubscriptionPreConsumeTx :: "string \<Rightarrow> unit goM" where
  "refundSubscriptionPreConsumeTx requestId =
     bindM (firstM (\<lambda>d. preconsumes d requestId)) (\<lambda>record.
       if pcStatus record = ''refunded'' then retM ()
       else seqM (whenM (pcPreConsumed record > 0)
              (postConsumeUserSubscriptionDeltaTx (pcUserSubscriptionId record) (- pcPreConsumed record)))
            (bindM (savePreConsume (record\<lparr>pcStatus := ''refunded''\<rparr>)) (\<lambda>_. retM ())))"

definition RefundSubscriptionPreConsume :: "string \<Rightarrow> unit goM" where
  "RefundSubscriptionPreConsume requestId =
     (if TrimSpace requestId = [] then throwM (ErrText ''requestId is empty'')
      else transaction (refundSubscriptionPreConsumeTx requestId))"

definition PostConsumeUserSubscriptionDelta :: "int \<Rightarrow> int \<Rightarrow> unit goM" where
  "PostConsumeUserSubscriptionDelta i delta =
     (if i \<le> 0 then throwM (ErrText ''invalid userSubscriptionId'')
      else if delta = 0 then retM ()
      else transaction (postConsumeUserSubscriptionDeltaTx i delta))"

text \<open>The number of deleted rows, which is only logged, is left out.\<close>

definition CleanupSubscriptionPreConsumeRecords :: "int \<Rightarrow> unit goM" where
  "CleanupSubscriptionPreConsumeRecords olderThanSeconds =
     bindM GetDBTimestamp (\<lambda>now.
       let cutoff = now - (if olderThanSeconds \<le> 0 then 604800 else olderThanSeconds) in
       bindM (execM (\<lambda>d. (0, d\<lparr>preconsumes := (\<lambda>rid. case preconsumes d rid of
           Some r \<Rightarrow> if pcUpdatedAt r < cutoff then None else Some r | None \<Rightarrow> None)\<rparr>))) (\<lambda>_. retM ()))"

section \<open>Invariants of the database\<close>

text \<open>
  An invariant \<open>I\<close> of the tables, as a frame: a function keeps it under every fate of its
  statements.  A value read from a database in order may be relied on until the next write.
\<close>

locale db_inv =
  fixes I :: "db \<Rightarrow> bool"

sublocale db_inv \<subseteq> db_frame "\<lambda>d d'. I d \<longrightarrow> I d'"
  by unfold_locales auto

context db_inv
begin

lemma keeps_query:
  assumes "\<And>d x. I d \<Longrightarrow> f d = Inr x \<Longrightarrow> framed (\<lambda>w w'. I (db w) \<longrightarrow> I (db w')) (g x)"
  shows "framed (\<lambda>w w'. I (db w) \<longrightarrow> I (db w')) (bindM (queryM f) g)"
  unfolding framed_def
proof (intro allI impI)
  fix w :: world assume "I (db w)"
  with assms show "I (db (snd (bindM (queryM f) g w)))"
    by (auto simp: framed_def bindM_def queryM_def split: sum.split)
qed

lemma keeps_try_query:
  assumes "\<And>d. I d \<Longrightarrow> framed (\<lambda>w w'. I (db w) \<longrightarrow> I (db w')) (g (f d))"
    and "framed (\<lambda>w w'. I (db w) \<longrightarrow> I (db w')) (g (Inl ErrDB))"
  shows "framed (\<lambda>w w'. I (db w) \<longrightarrow> I (db w')) (bindM (tryM (queryM f)) g)"
  unfolding framed_def
proof (intro allI impI)
  fix w :: world assume "I (db w)"
  with assms show "I (db (snd (bindM (tryM (queryM f)) g w)))"
    by (auto simp: framed_def bindM_def tryM_def queryM_def)
qed

lemma keeps_find:
  assumes "\<And>d. I d \<Longrightarrow> framed (\<lambda>w w'. I (db w) \<longrightarrow> I (db w')) (g (f d))"
  shows "framed (\<lambda>w w'. I (db w) \<longrightarrow> I (db w')) (bindM (findM f) g)"
  unfolding findM_def by (rule keeps_query) (use assms in auto)

lemma keeps_try_find:
  assumes "\<And>d. I d \<Longrightarrow> framed (\<lambda>w w'. I (db w) \<longrightarrow> I (db w')) (g (Inr (f d)))"
    and "\<And>e. framed (\<lambda>w w'. I (db w) \<longrightarrow> I (db w')) (g (Inl e))"
  shows "framed (\<lambda>w w'. I (db w) \<longrightarrow> I (db w')) (bindM (tryM (findM f)) g)"
  unfolding findM_def by (rule keeps_try_query) (use assms in auto)

lemma keeps_first:
  assumes "\<And>d x. I d \<Longrightarrow> f d = Some x \<Longrightarrow> framed (\<lambda>w w'. I (db w) \<longrightarrow> I (db w')) (g x)"
  shows "framed (\<lambda>w w'. I (db w) \<longrightarrow> I (db w')) (bindM (firstM f) g)"
  unfolding firstM_def by (rule keeps_query) (use assms in \<open>auto split: option.splits\<close>)

lemma keeps_try_first:
  assumes "\<And>d x. I d \<Longrightarrow> f d = Some x \<Longrightarrow> framed (\<lambda>w w'. I (db w) \<longrightarrow> I (db w')) (g (Inr x))"
    and "\<And>e. framed (\<lambda>w w'. I (db w) \<longrightarrow> I (db w')) (g (Inl e))"
  shows "framed (\<lambda>w w'. I (db w) \<longrightarrow> I (db w')) (bindM (tryM (firstM f)) g)"
  unfolding firstM_def by (rule keeps_try_query) (use assms in \<open>auto split: option.split\<close>)

lemma keeps_bind_post:
  fixes m :: "'a goM"
  assumes "framed (\<lambda>w w'. I (db w) \<longrightarrow> I (db w')) m" and "\<And>w. wp m (\<lambda>x _. P x) (\<lambda>_ _. True) w"
    and "\<And>x. P x \<Longrightarrow> framed (\<lambda>w w'. I (db w) \<longrightarrow> I (db w')) (f x)"
  shows "framed (\<lambda>w w'. I (db w) \<longrightarrow> I (db w')) (bindM m f)"
  unfolding framed_def
proof (intro allI impI)
  fix w :: world assume "I (db w)"
  with assms(1) have "I (db (snd (m w)))" by (simp add: framed_def)
  with assms(2) [of w] assms(3) show "I (db (snd (bindM m f w)))"
    by (auto simp: framed_def bindM_def wp_def split: prod.splits sum.splits)
qed

text \<open>Functions that change no table this invariant speaks of.\<close>

lemma keeps_saveSub:
  "(\<And>t d. I d \<Longrightarrow> I (putSub (s\<lparr>usUpdatedAt := t\<rparr>) d)) \<Longrightarrow> framed (\<lambda>w w'. I (db w) \<longrightarrow> I (db w')) (saveSub s)"
  by (auto simp: framed_def saveSub_def execM_def dbM_def split: fate.split)

lemma keeps_setUserGroup:
  "(\<And>d u. I d \<Longrightarrow> I (d\<lparr>users := u\<rparr>)) \<Longrightarrow> framed (\<lambda>w w'. I (db w) \<longrightarrow> I (db w')) (setUserGroup i grp)"
  unfolding setUserGroup_def updUser_def
  by (intro framed_intros framed_db_execM) (auto split: option.split)

end

lemma caching_hybrid: "framed cacheOnly (hybridGet entry)"
  by (simp add: framed_def hybridGet_def cacheOnly_def)

lemma caching_plan: "framed cacheOnly (getSubscriptionPlanByIdTx i)"
proof -
  have "framed cacheOnly (hybridSetWithTTL (\<lambda>expiry w. w\<lparr>planCache := (planCache w)(i \<mapsto> (plan, expiry))\<rparr>) ttl)"
    for plan ttl by (simp add: framed_def hybridSetWithTTL_def cacheOnly_def Let_def)
  then show ?thesis
    unfolding getSubscriptionPlanByIdTx_def by (intro caching_intros caching_hybrid)
qed

lemma caching_refresh: "framed cacheOnly (RefreshUserGroupCache i)"
proof -
  have field: "framed cacheOnly (updateUserCacheFieldAtVersion i grp v)" for grp v
    unfolding updateUserCacheFieldAtVersion_def by (intro caching_intros)
  have "framed cacheOnly (refreshGroup n i u)" for n u
    by (induction n arbitrary: u) (auto intro!: caching_intros field)
  then show ?thesis unfolding RefreshUserGroupCache_def by (intro caching_intros)
qed

lemma caching_timestamp: "framed cacheOnly GetDBTimestamp"
  unfolding GetDBTimestamp_def by (intro caching_intros)

lemma caching_group: "framed cacheOnly (getUserGroupByIdTx i)"
  unfolding getUserGroupByIdTx_def by (intro caching_intros)

section \<open>What the operations keep\<close>

text \<open>
  The laws an invariant needs for every operation of this theory to keep it: it does not depend on
  the users, it may speak of the rows of the subscription table through \<open>ok\<close>, which only looks
  at the usage and the total, and it allows a pre-consume record to be written under its request id.
\<close>

locale sub_inv = db_inv I for I :: "db \<Rightarrow> bool" +
  fixes ok :: "UserSubscription \<Rightarrow> bool"
  assumes users_free: "I d \<Longrightarrow> I (d\<lparr>users := u\<rparr>)"
    and write_record: "I d \<Longrightarrow> I (d\<lparr>preconsumes := (preconsumes d)(pcRequestId r \<mapsto> r)\<rparr>)"
    and write_rows: "I d \<Longrightarrow> \<forall>s \<in> set ss. ok s \<Longrightarrow> I (d\<lparr>subs := ss\<rparr>)"
    and rows: "I d \<Longrightarrow> s \<in> set (subs d) \<Longrightarrow> ok s"
    and ok_same: "ok s \<Longrightarrow> usAmountUsed t = usAmountUsed s \<Longrightarrow> usAmountTotal t = usAmountTotal s \<Longrightarrow> ok t"
    and ok_within: "0 \<le> usAmountUsed s \<Longrightarrow> (usAmountTotal s > 0 \<longrightarrow> usAmountUsed s \<le> usAmountTotal s) \<Longrightarrow> ok s"
    and ok_charge: "ok s \<Longrightarrow> 0 < a \<Longrightarrow> (usAmountTotal s > 0 \<longrightarrow> usAmountUsed s + a \<le> usAmountTotal s) \<Longrightarrow>
      ok (s\<lparr>usAmountUsed := usAmountUsed s + a\<rparr>)"
begin

lemma putSub_keeps: "I d \<Longrightarrow> ok s \<Longrightarrow> I (putSub s d)"
  unfolding putSub_def by (rule write_rows) (auto dest: rows)

lemma save_keeps: "ok s \<Longrightarrow> framed (\<lambda>w w'. I (db w) \<longrightarrow> I (db w')) (saveSub s)"
  by (rule keeps_saveSub, rule putSub_keeps) (auto intro: ok_same)

lemma saveM_keeps: "ok s \<Longrightarrow> framed (\<lambda>w w'. I (db w) \<longrightarrow> I (db w')) (saveSubM s)"
  unfolding saveSubM_def by (intro framed_intros save_keeps)

lemma group_keeps: "framed (\<lambda>w w'. I (db w) \<longrightarrow> I (db w')) (setUserGroup i grp)"
  by (rule keeps_setUserGroup) (rule users_free)

lemma downgrade_keeps: "framed (\<lambda>w w'. I (db w) \<longrightarrow> I (db w')) (downgradeUserGroupForSubscriptionTx sub now)"
  unfolding downgradeUserGroupForSubscriptionTx_def
  by (intro framed_db_intros group_keeps framed_db_caching [OF caching_group])

lemma after_keeps: "framed (\<lambda>w w'. I (db w) \<longrightarrow> I (db w')) (afterGroupChange i grp)"
  unfolding afterGroupChange_def by (intro framed_db_intros framed_db_caching [OF caching_refresh])

lemma find_rows: "I d \<Longrightarrow> find P (subs d) = Some s \<Longrightarrow> ok s"
  by (auto simp: find_Some_iff intro: rows)

lemma delta_keeps: "framed (\<lambda>w w'. I (db w) \<longrightarrow> I (db w')) (postConsumeUserSubscriptionDeltaTx i delta)"
  unfolding postConsumeUserSubscriptionDeltaTx_def
  by (intro framed_db_intros save_keeps) (auto intro!: ok_within split: if_splits)

lemma record_keeps: "framed (\<lambda>w w'. I (db w) \<longrightarrow> I (db w')) (savePreConsume r)"
  using write_record [of _ "r\<lparr>pcUpdatedAt := _\<rparr>"]
  by (auto simp: framed_def savePreConsume_def execM_def dbM_def split: fate.split)

lemma createRecord_keeps: "framed (\<lambda>w w'. I (db w) \<longrightarrow> I (db w')) (createRecord r)"
  unfolding createRecord_def
  by (intro framed_db_intros) (use write_record [of _ "r\<lparr>pcCreatedAt := _, pcUpdatedAt := _\<rparr>"] in \<open>auto split: option.splits\<close>)

lemma createSub_keeps:
  assumes "ok s"
  shows "framed (\<lambda>w w'. I (db w) \<longrightarrow> I (db w')) (createSub s)"
proof -
  have "I (d\<lparr>subs := subs d @ [s\<lparr>usId := i\<rparr>]\<rparr>)" if "I d" for d i
    using that ok_same [OF assms, of "s\<lparr>usId := i\<rparr>"] rows [OF that] by (auto intro!: write_rows)
  then show ?thesis by (auto simp: framed_def createSub_def dbM_def Let_def split: fate.split)
qed

lemma reset_keeps: "framed (\<lambda>w w'. I (db w) \<longrightarrow> I (db w')) (resetUserSubscriptionTx loc s plan now adv)"
  unfolding resetUserSubscriptionTx_def Let_def by (rule saveM_keeps) (simp add: ok_within)

lemma maybeReset_keeps:
  assumes "ok s"
  shows "framed (\<lambda>w w'. I (db w) \<longrightarrow> I (db w')) (maybeResetUserSubscriptionWithPlanTx loc s plan now)"
    and "wp (maybeResetUserSubscriptionWithPlanTx loc s plan now) (\<lambda>x _. ok x) (\<lambda>_ _. True) w"
proof -
  have used: "ok (s\<lparr>usAmountUsed := 0, usLastResetTime := b, usNextResetTime := n\<rparr>)"
    and same: "ok (s\<lparr>usNextResetTime := n, usLastResetTime := b\<rparr>)" for b n
    by (rule ok_within, simp, simp) (rule ok_same [OF assms], simp_all)
  show "framed (\<lambda>w w'. I (db w) \<longrightarrow> I (db w')) (maybeResetUserSubscriptionWithPlanTx loc s plan now)"
    unfolding maybeResetUserSubscriptionWithPlanTx_def by (intro framed_db_intros saveM_keeps used same)
  have saved: "ok t \<Longrightarrow> wp (saveSubM t) (\<lambda>x _. ok x) (\<lambda>_ _. True) w" for t w
    by (simp add: saveSubM_def wp_simps split: fate.split)
  show "wp (maybeResetUserSubscriptionWithPlanTx loc s plan now) (\<lambda>x _. ok x) (\<lambda>_ _. True) w"
    by (simp add: maybeResetUserSubscriptionWithPlanTx_def wp_simps assms saved used same split: option.split prod.split)
qed

end

context sub_inv
begin

lemma charge_keeps:
  assumes "ok s" "0 < amount" "\<not> (usAmountTotal s > 0 \<and> usAmountTotal s - usAmountUsed s < amount)"
  shows "framed (\<lambda>w w'. I (db w) \<longrightarrow> I (db w')) (chargeSubTx requestId userId amount s)"
  unfolding chargeSubTx_def
  by (intro framed_db_intros createRecord_keeps save_keeps ok_charge) (use assms in auto)

lemma chargeFirst_keeps:
  assumes "0 < amount" "\<forall>s \<in> set ss. ok s"
  shows "framed (\<lambda>w w'. I (db w) \<longrightarrow> I (db w')) (chargeFirst loc requestId userId amount now ss)"
  using assms(2)
proof (induction ss)
  case Nil
  then show ?case by (simp add: framed_throwM)
next
  case (Cons s ss)
  then have "ok s" by simp
  have "framed (\<lambda>w w'. I (db w) \<longrightarrow> I (db w'))
      (bindM (maybeResetUserSubscriptionWithPlanTx loc s plan now) (\<lambda>sub.
       if usAmountTotal sub > 0 \<and> usAmountTotal sub - usAmountUsed sub < amount
       then chargeFirst loc requestId userId amount now ss else chargeSubTx requestId userId amount sub))" for plan
    by (rule keeps_bind_post [OF maybeReset_keeps [OF \<open>ok s\<close>]])
      (use Cons assms(1) in \<open>auto intro!: framed_if charge_keeps\<close>)
  then show ?case
    unfolding chargeFirst.simps by (rule framed_bindM [OF framed_db_caching [OF caching_plan]])
qed

lemma preConsume_keeps: "framed (\<lambda>w w'. I (db w) \<longrightarrow> I (db w')) (PreConsumeUserSubscription loc requestId userId amount)"
proof -
  have "framed (\<lambda>w w'. I (db w) \<longrightarrow> I (db w')) (preConsumeTx loc requestId userId amount now)" if "0 < amount" for now
    unfolding preConsumeTx_def
    by (intro framed_db_intros keeps_try_find chargeFirst_keeps [OF that]) (auto dest: rows)
  then show ?thesis
    unfolding PreConsumeUserSubscription_def
    by (intro framed_db_intros framed_db_caching [OF caching_timestamp]) auto
qed

lemma refund_keeps: "framed (\<lambda>w w'. I (db w) \<longrightarrow> I (db w')) (RefundSubscriptionPreConsume requestId)"
  unfolding RefundSubscriptionPreConsume_def refundSubscriptionPreConsumeTx_def
  by (intro framed_db_intros delta_keeps record_keeps)

lemma post_keeps: "framed (\<lambda>w w'. I (db w) \<longrightarrow> I (db w')) (PostConsumeUserSubscriptionDelta i delta)"
  unfolding PostConsumeUserSubscriptionDelta_def by (intro framed_db_intros delta_keeps)

lemma resetDue_keeps: "framed (\<lambda>w w'. I (db w) \<longrightarrow> I (db w')) (ResetDueSubscriptions loc limit)"
proof -
  have "framed (\<lambda>w w'. I (db w) \<longrightarrow> I (db w')) (resetDueTx loc s plan now)" for s plan now
    unfolding resetDueTx_def
    by (rule keeps_try_first) (auto intro!: framed_db_intros maybeReset_keeps(1) dest: find_rows)
  then show ?thesis
    unfolding ResetDueSubscriptions_def
    by (intro framed_db_intros framed_db_caching [OF caching_timestamp] framed_db_caching [OF caching_plan])
qed

lemma expireDue_keeps: "framed (\<lambda>w w'. I (db w) \<longrightarrow> I (db w')) (ExpireDueSubscriptions mapOrder limit)"
proof -
  have "I (d\<lparr>subs := map (\<lambda>s. if P s then s\<lparr>usStatus := x, usUpdatedAt := t\<rparr> else s) (subs d)\<rparr>)"
    if "I d" for d P x t
    using that ok_same [OF rows [OF that], of _ "_\<lparr>usStatus := x, usUpdatedAt := t\<rparr>"] rows [OF that]
    by (auto intro!: write_rows)
  then have "framed (\<lambda>w w'. I (db w) \<longrightarrow> I (db w')) (expireUserTx now i)" for now i
    unfolding expireUserTx_def
    by (intro framed_db_intros group_keeps framed_db_caching [OF caching_group]) auto
  then show ?thesis
    unfolding ExpireDueSubscriptions_def
    by (intro framed_db_intros framed_db_caching [OF caching_timestamp] framed_db_caching [OF caching_refresh])
qed

lemma create_keeps: "framed (\<lambda>w w'. I (db w) \<longrightarrow> I (db w')) (CreateUserSubscriptionFromPlanTx loc userId plan source)"
  unfolding CreateUserSubscriptionFromPlanTx_def
  by (intro framed_db_intros createSub_keeps group_keeps ok_within
      framed_db_caching [OF caching_timestamp] framed_db_caching [OF caching_group]) auto

lemma bind_keeps: "framed (\<lambda>w w'. I (db w) \<longrightarrow> I (db w')) (AdminBindSubscription loc userId planId)"
  unfolding AdminBindSubscription_def
  by (intro framed_db_intros create_keeps framed_db_caching [OF caching_plan] framed_db_caching [OF caching_refresh])

lemma invalidate_keeps: "framed (\<lambda>w w'. I (db w) \<longrightarrow> I (db w')) (AdminInvalidateUserSubscription i)"
proof -
  have "framed (\<lambda>w w'. I (db w) \<longrightarrow> I (db w')) (cancelSubTx i now)" for now
    unfolding cancelSubTx_def
  proof (rule keeps_first)
    fix d s assume "I d" "findSub d i = Some s"
    then have "ok s" by (auto simp: findSub_def dest: find_rows)
    then have "ok (s\<lparr>usStatus := ''cancelled'', usEndTime := now\<rparr>)" by (rule ok_same) simp_all
    then show "framed (\<lambda>w w'. I (db w) \<longrightarrow> I (db w'))
        (bindM (saveSubM (s\<lparr>usStatus := ''cancelled'', usEndTime := now\<rparr>)) (\<lambda>sub.
          bindM (downgradeUserGroupForSubscriptionTx sub now) (\<lambda>target. retM (usUserId sub, target))))"
      by (intro framed_db_intros saveM_keeps downgrade_keeps)
  qed
  then show ?thesis
    unfolding AdminInvalidateUserSubscription_def by (intro framed_db_intros after_keeps)
qed

lemma delete_keeps: "framed (\<lambda>w w'. I (db w) \<longrightarrow> I (db w')) (AdminDeleteUserSubscription i)"
proof -
  have "I (d\<lparr>subs := filter P (subs d)\<rparr>)" if "I d" for d P
    using that rows [OF that] by (auto intro!: write_rows)
  then show ?thesis
    unfolding AdminDeleteUserSubscription_def
    by (intro framed_db_intros after_keeps downgrade_keeps) auto
qed

lemma adminResets_keep:
  "framed (\<lambda>w w'. I (db w) \<longrightarrow> I (db w')) (AdminResetUserSubscriptionsByPlan loc userId planId adv)"
  "framed (\<lambda>w w'. I (db w) \<longrightarrow> I (db w')) (AdminResetPlanSubscriptions loc planId adv)"
  unfolding AdminResetUserSubscriptionsByPlan_def AdminResetPlanSubscriptions_def
    adminResetUserSubscriptionsByPlanTx_def adminResetPlanSubscriptionsTx_def resetAllTx_def
  by (intro framed_db_intros reset_keeps framed_db_caching [OF caching_timestamp]
      framed_db_caching [OF caching_plan])+

end

section \<open>Sequences of operations\<close>

datatype sub_call =
    SPreConsume string int int
  | SRefund string
  | SPostDelta int int
  | SResetDue int
  | SExpireDue int
  | SBind int int
  | SInvalidate int
  | SDelete int
  | SResetUser int int bool
  | SResetPlan int bool
  | SCleanup int
  | STick nat

fun subCall :: "Location \<Rightarrow> (int list \<Rightarrow> int list) \<Rightarrow> sub_call \<Rightarrow> world \<Rightarrow> world" where
  "subCall loc mapOrder (SPreConsume rid u a) w = snd (PreConsumeUserSubscription loc rid u a w)"
| "subCall loc mapOrder (SRefund rid) w = snd (RefundSubscriptionPreConsume rid w)"
| "subCall loc mapOrder (SPostDelta i delta) w = snd (PostConsumeUserSubscriptionDelta i delta w)"
| "subCall loc mapOrder (SResetDue limit) w = snd (ResetDueSubscriptions loc limit w)"
| "subCall loc mapOrder (SExpireDue limit) w = snd (ExpireDueSubscriptions mapOrder limit w)"
| "subCall loc mapOrder (SBind u p) w = snd (AdminBindSubscription loc u p w)"
| "subCall loc mapOrder (SInvalidate i) w = snd (AdminInvalidateUserSubscription i w)"
| "subCall loc mapOrder (SDelete i) w = snd (AdminDeleteUserSubscription i w)"
| "subCall loc mapOrder (SResetUser u p adv) w = snd (AdminResetUserSubscriptionsByPlan loc u p adv w)"
| "subCall loc mapOrder (SResetPlan p adv) w = snd (AdminResetPlanSubscriptions loc p adv w)"
| "subCall loc mapOrder (SCleanup age) w = snd (CleanupSubscriptionPreConsumeRecords age w)"
| "subCall loc mapOrder (STick d) w = w\<lparr>clock := clock w + int d\<rparr>"

fun isCleanup :: "sub_call \<Rightarrow> bool" where
  "isCleanup (SCleanup _) = True"
| "isCleanup _ = False"

context sub_inv
begin

lemma keeps_subCall: "I (db w) \<Longrightarrow> \<not> isCleanup c \<Longrightarrow> I (db (subCall loc mapOrder c w))"
  using preConsume_keeps refund_keeps post_keeps resetDue_keeps expireDue_keeps bind_keeps
    invalidate_keeps delete_keeps adminResets_keep
  by (cases c) (simp_all add: framed_def)

lemma calls_keep:
  "I (db w) \<Longrightarrow> \<forall>c \<in> set cs. \<not> isCleanup c \<Longrightarrow> I (db (fold (subCall loc mapOrder) cs w))"
  by (induction cs arbitrary: w) (simp_all add: keeps_subCall)

end

section \<open>Usage stays within the total\<close>

definition usageOk :: "UserSubscription \<Rightarrow> bool" where
  "usageOk s = (0 \<le> usAmountUsed s \<and> (usAmountTotal s > 0 \<longrightarrow> usAmountUsed s \<le> usAmountTotal s))"

definition usagesOk :: "db \<Rightarrow> bool" where
  "usagesOk d = (\<forall>s \<in> set (subs d). usageOk s)"

interpretation usage: sub_inv usagesOk usageOk
  by unfold_locales (auto simp: usagesOk_def usageOk_def)

lemma cleanup_usage: "usagesOk (db w) \<Longrightarrow> usagesOk (db (subCall loc mapOrder (SCleanup age) w))"
proof -
  have "framed (\<lambda>w w'. usagesOk (db w) \<longrightarrow> usagesOk (db w')) (CleanupSubscriptionPreConsumeRecords age)"
    unfolding CleanupSubscriptionPreConsumeRecords_def
    by (intro usage.framed_db_intros usage.framed_db_caching [OF caching_timestamp]) (simp add: usagesOk_def)
  then show "usagesOk (db w) \<Longrightarrow> ?thesis" by (simp add: framed_def)
qed

text \<open>
  C35.  Whatever sequence of charges, refunds, corrections, resets, expiries and administrative
  changes is run, and whichever statements fail, no subscription has a negative usage and no
  limited one has used more than its total.
\<close>

theorem usage_within_total:
  assumes "\<forall>s \<in> set (subs (db w)). 0 \<le> usAmountUsed s \<and> (usAmountTotal s > 0 \<longrightarrow> usAmountUsed s \<le> usAmountTotal s)"
    and "s \<in> set (subs (db (fold (subCall loc mapOrder) calls w)))"
  shows "0 \<le> usAmountUsed s \<and> (usAmountTotal s > 0 \<longrightarrow> usAmountUsed s \<le> usAmountTotal s)"
proof -
  have "usagesOk (db w)" using assms(1) by (simp add: usagesOk_def usageOk_def)
  then have "usagesOk (db (fold (subCall loc mapOrder) calls w))"
  proof (induction calls arbitrary: w)
    case (Cons c cs)
    then show ?case by (cases "isCleanup c"; cases c) (auto simp: cleanup_usage usage.keeps_subCall simp del: subCall.simps)
  qed simp
  with assms(2) show ?thesis by (simp add: usagesOk_def usageOk_def)
qed

section \<open>A request is charged once\<close>

definition recorded :: "string \<Rightarrow> db \<Rightarrow> bool" where
  "recorded rid d = (preconsumes d rid \<noteq> None)"

lemma recordedI: "preconsumes d rid = Some r \<Longrightarrow> recorded rid d"
  by (simp add: recorded_def)

interpretation recording: sub_inv "recorded rid" "\<lambda>_. True" for rid
  by unfold_locales (auto simp: recorded_def)

lemma preConsume_records:
  assumes "PreConsumeUserSubscription loc rid u a w = (Inr res, w1)"
  shows "recorded rid (db w1)"
proof -
  have charge: "wp (chargeSubTx rid u a s) (\<lambda>_ w'. recorded rid (db w')) (\<lambda>_ _. True) w" for s w
    by (auto simp: chargeSubTx_def createRecord_def putSub_def recorded_def wp_simps split: fate.split option.split)
  have first: "wp (chargeFirst loc rid u a now ss) (\<lambda>_ w'. recorded rid (db w')) (\<lambda>_ _. True) w" for now ss w
  proof (induction ss arbitrary: w)
    case (Cons s ss)
    show ?case
      unfolding chargeFirst.simps wp_bindM wp_if
      by (rule wp_mono [OF wpI [where Q = "\<lambda>_ _. True" and E = "\<lambda>_ _. True"]])
        (auto intro!: wp_mono [OF wpI [where Q = "\<lambda>_ _. True" and E = "\<lambda>_ _. True"]] Cons charge)
  qed (simp add: wp_throwM)
  have body: "wp (preConsumeTx loc rid u a now) (\<lambda>_ w'. recorded rid (db w')) (\<lambda>_ _. True) w" for now w
    by (auto simp: preConsumeTx_def wp_simps first recordedI split: option.split)
  have "wp (transaction (preConsumeTx loc rid u a now)) (\<lambda>_ w'. recorded rid (db w')) (\<lambda>_ _. True) w" for now w
    unfolding wp_transaction by (auto intro!: wp_mono [OF body] split: fate.split)
  then have "wp (PreConsumeUserSubscription loc rid u a) (\<lambda>_ w'. recorded rid (db w')) (\<lambda>_ _. True) w"
    unfolding PreConsumeUserSubscription_def wp_if wp_bindM wp_throwM wp_GetDBTimestamp by simp
  from wp_Inr [OF this assms] show ?thesis .
qed

lemma preConsume_recorded:
  assumes "recorded rid (db w)"
  shows "db (snd (PreConsumeUserSubscription loc rid u a w)) = db w"
proof -
  obtain r where r: "preconsumes (db w) rid = Some r" using assms by (auto simp: recorded_def)
  have "wp (PreConsumeUserSubscription loc rid u a) (\<lambda>_ w'. db w' = db w) (\<lambda>_ w'. db w' = db w) w"
    by (auto simp: PreConsumeUserSubscription_def preConsumeTx_def wp_simps r split: fate.split option.split)
  then show ?thesis by (auto simp: wp_def split: prod.splits sum.splits)
qed

text \<open>
  C36.  A request is charged to a subscription at most once: after a charge that was reported as
  successful, and whatever else is run and fails in between short of deleting old records, charging
  the same request again changes nothing.
\<close>

theorem request_charged_once:
  assumes "PreConsumeUserSubscription loc rid u a w = (Inr res, w1)"
    and "\<forall>c \<in> set calls. \<not> isCleanup c"
    and "w2 = fold (subCall loc mapOrder) calls w1"
  shows "db (snd (PreConsumeUserSubscription loc rid u' a' w2)) = db w2"
proof -
  have "recorded rid (db w2)"
    using recording.calls_keep [OF preConsume_records [OF assms(1)] assms(2)] by (simp add: assms(3))
  then show ?thesis by (rule preConsume_recorded)
qed

section \<open>Examples\<close>

definition dailySub :: "int \<Rightarrow> int \<Rightarrow> UserSubscription" where
  "dailySub i used = \<lparr>usId = i, usUserId = 7, usPlanId = 1, usAmountTotal = 100, usAmountUsed = used,
     usStartTime = 500, usEndTime = 2000000, usStatus = ''active'', usSource = ''order'', usLastResetTime = 500,
     usNextResetTime = 86400, usUpgradeGroup = [], usPrevUserGroup = [], usDowngradeGroup = [],
     usAllowWalletOverflow = True, usCreatedAt = 500, usUpdatedAt = 500\<rparr>"

definition subWorld :: "(nat \<Rightarrow> fate) \<Rightarrow> world" where
  "subWorld fates = sampleWorld\<lparr>dbFate := fates, db := (db sampleWorld)\<lparr>
     plans := [1 \<mapsto> periodPlan ''daily''], subs := [dailySub 1 90, dailySub 2 20]\<rparr>\<rparr>"

definition sampleSubCalls :: "sub_call list" where
  "sampleSubCalls = [SPreConsume ''r1'' 7 30, SPostDelta 2 40, SRefund ''r1'', SPostDelta 2 (- 500), STick 100]"

definition sampleSubs :: "UserSubscription list" where
  "sampleSubs = subs (db (fold (subCall (fixedZone 0) id) sampleSubCalls (subWorld (\<lambda>_. FOk))))"

lemma sampleSubs_run: "map (\<lambda>s. (usAmountUsed s, usAmountTotal s)) sampleSubs = [(90, 100), (0, 100)]"
  by code_simp

theorem usage_within_total_witness:
  "sampleSubs ! 1 \<in> set sampleSubs \<and> 0 \<le> usAmountUsed (sampleSubs ! 1) \<and>
   usAmountUsed (sampleSubs ! 1) \<le> usAmountTotal (sampleSubs ! 1)"
proof -
  have len: "1 < length sampleSubs" by (metis sampleSubs_run length_map length_Cons list.size(3) lessI One_nat_def)
  with arg_cong [OF sampleSubs_run, of "\<lambda>xs. xs ! 1"] have total: "usAmountTotal (sampleSubs ! 1) = 100" by simp
  have "sampleSubs ! 1 \<in> set sampleSubs" using len by (rule nth_mem)
  with usage_within_total [of "subWorld (\<lambda>_. FOk)" "sampleSubs ! 1" "fixedZone 0" id sampleSubCalls] total
  show ?thesis by (auto simp: sampleSubs_def subWorld_def dailySub_def)
qed

theorem request_charged_once_witness:
  "\<exists>res w1. PreConsumeUserSubscription (fixedZone 0) ''r1'' 7 30 (subWorld (\<lambda>_. FOk)) = (Inr res, w1) \<and>
     db (snd (PreConsumeUserSubscription (fixedZone 0) ''r1'' 7 30 (subCall (fixedZone 0) id (SRefund ''r1'') w1)))
       = db (subCall (fixedZone 0) id (SRefund ''r1'') w1)"
proof -
  let ?run = "PreConsumeUserSubscription (fixedZone 0) ''r1'' 7 30 (subWorld (\<lambda>_. FOk))"
  have "isl (fst ?run) = False" by code_simp
  then obtain res w1 where run: "?run = (Inr res, w1)" by (metis isl_def prod.collapse sum.exhaust_sel)
  from request_charged_once [OF this, of "[SRefund ''r1'']" _ id 7 30] run show ?thesis by auto
qed

end
