(* ===== verification/Billing_Session.thy ===== *)
theory Billing_Session
  imports Recovery_Promises Subscription
begin

text \<open>
  The billing of one relayed request: the funding sources of \<open>service/funding_source.go\<close>, the
  session of \<open>service/billing_session.go\<close> and its callers in \<open>service/billing.go\<close> and
  \<open>service/quota.go\<close>.  The state is the world, the relay info the request carries and the session
  a method runs on; \<open>relayInfo.Billing\<close> is the field \<open>riBilling\<close>.  The methods of one session hold
  its lock, so they run one after another.  The heartbeat is a flag (its ticks only touch the row),
  notifications and log lines are left out, and messages are given in English without the formatted
  amounts.  \<open>loc\<close> is the server's location and \<open>newId\<close> the id \<open>common.NewRequestId\<close> generates.
\<close>

section \<open>Errors (relaykit/types)\<close>

fun asAPIError :: "err \<Rightarrow> err option" where
  "asAPIError (ErrAPI code status e) = Some (ErrAPI code status e)"
| "asAPIError (ErrWrap m e) = asAPIError e"
| "asAPIError _ = None"

definition NewError :: "err \<Rightarrow> ErrorCode \<Rightarrow> err" where
  "NewError e errorCode = (case asAPIError e of Some a \<Rightarrow> a | None \<Rightarrow> ErrAPI errorCode 500 e)"

definition NewErrorWithStatusCode :: "err \<Rightarrow> ErrorCode \<Rightarrow> int \<Rightarrow> err" where
  "NewErrorWithStatusCode e errorCode status = ErrAPI errorCode status e"

fun hasErrorCode :: "err \<Rightarrow> ErrorCode \<Rightarrow> bool" where
  "hasErrorCode (ErrAPI code _ _) errorCode = (code = errorCode)"
| "hasErrorCode _ _ = False"

fun apiCause :: "err \<Rightarrow> err" where
  "apiCause (ErrAPI _ _ e) = e"
| "apiCause e = e"

text \<open>\<open>errors.Join\<close>: only the text is kept.\<close>

fun joinErr :: "err \<Rightarrow> err option \<Rightarrow> err" where
  "joinErr e None = e"
| "joinErr e (Some e') = ErrText (err_text e @ [CHR 0x0A] @ err_text e')"

section \<open>State\<close>

record WalletFunding =
  wfUserId :: int
  wfConsumed :: int

record SubscriptionFunding =
  sfRequestId :: string
  sfUserId :: int
  sfAmount :: int
  sfSubscriptionId :: int
  sfPreConsumed :: int
  sfAmountTotal :: int
  sfAmountUsedAfter :: int
  sfPlanId :: int
  sfPlanTitle :: string

datatype FundingSource = FWallet WalletFunding | FSubscription SubscriptionFunding

record BillingSession =
  bsFunding :: FundingSource
  bsRecoveryID :: string
  bsPreConsumedQuota :: int
  bsTokenConsumed :: int
  bsExtraReserved :: int
  bsTrusted :: bool
  bsFundingSettled :: bool
  bsSettled :: bool
  bsRefunded :: bool
  bsRecoveryNeedsRefund :: bool
  bsFundingRefunded :: bool
  bsExtraRefunded :: bool
  bsTokenRefunded :: bool
  bsRefundInProgress :: bool
  bsRefundErr :: "err option"
  bsHeartbeat :: bool

record RelayInfo =
  riRequestId :: string
  riUserId :: int
  riTokenId :: int
  riTokenKey :: string
  riTokenUnlimited :: bool
  riIsPlayground :: bool
  riForcePreConsume :: bool
  riUserQuota :: int
  riBillingPreference :: string
  riQuotaClamp :: "err option"
  riQuotaToPreConsume :: int
  riFreeModel :: bool
  riFinalPreConsumedQuota :: int
  riBilling :: "BillingSession option"
  riBillingSettlementError :: "err option"
  riBillingRefundError :: "err option"
  riBillingSource :: string
  riSubscriptionId :: int
  riSubscriptionPreConsumed :: int
  riSubscriptionPostDelta :: int
  riSubscriptionPlanId :: int
  riSubscriptionPlanTitle :: string
  riSubscriptionAmountTotal :: int
  riSubscriptionAmountUsedAfterPreConsume :: int

text \<open>\<open>rTokenQuota\<close> is the value \<open>token_quota\<close> of the gin context.\<close>

record relay =
  rWorld :: world
  rInfo :: RelayInfo
  rSession :: BillingSession
  rTokenQuota :: int

type_synonym 'a relayM = "(relay, err, 'a) go"

definition liftM :: "'a goM \<Rightarrow> 'a relayM" where
  "liftM m s = (case m (rWorld s) of (r, w) \<Rightarrow> (r, s\<lparr>rWorld := w\<rparr>))"

definition setInfo :: "(RelayInfo \<Rightarrow> RelayInfo) \<Rightarrow> unit relayM" where
  "setInfo f = modifyM (\<lambda>s. s\<lparr>rInfo := f (rInfo s)\<rparr>)"

definition setSession :: "(BillingSession \<Rightarrow> BillingSession) \<Rightarrow> unit relayM" where
  "setSession f = modifyM (\<lambda>s. s\<lparr>rSession := f (rSession s)\<rparr>)"

text \<open>The retry loops: at most \<open>Suc n\<close> attempts, the last error wins.  The pauses are left out.\<close>

fun retrying :: "nat \<Rightarrow> ('s, err, unit) go \<Rightarrow> ('s, err, unit) go" where
  "retrying 0 m = m"
| "retrying (Suc n) m = bindM (tryM m) (\<lambda>r. case r of Inr _ \<Rightarrow> retM () | Inl _ \<Rightarrow> retrying n m)"

section \<open>Funding sources (service/funding_source.go)\<close>

fun Source :: "FundingSource \<Rightarrow> string" where
  "Source (FWallet _) = ''wallet''"
| "Source (FSubscription _) = ''subscription''"

definition WalletFunding_PreConsume :: "WalletFunding \<Rightarrow> int \<Rightarrow> WalletFunding goM" where
  "WalletFunding_PreConsume f amount =
     (if amount \<le> 0 then retM f
      else bindM (TryReserveUserQuota (wfUserId f) amount) (\<lambda>reserved.
        if \<not> reserved then throwM ErrInsufficientWalletQuota else retM (f\<lparr>wfConsumed := amount\<rparr>)))"

definition SubscriptionFunding_PreConsume :: "Location \<Rightarrow> SubscriptionFunding \<Rightarrow> SubscriptionFunding goM" where
  "SubscriptionFunding_PreConsume loc f =
     bindM (PreConsumeUserSubscription loc (sfRequestId f) (sfUserId f) (sfAmount f)) (\<lambda>res.
     let f = f\<lparr>sfSubscriptionId := prUserSubscriptionId res, sfPreConsumed := prPreConsumed res,
           sfAmountTotal := prAmountTotal res, sfAmountUsedAfter := prAmountUsedAfter res\<rparr> in
     bindM (tryM (GetSubscriptionPlanInfoByUserSubscriptionId (prUserSubscriptionId res))) (\<lambda>planInfo.
       retM (case planInfo of Inr (planId, title) \<Rightarrow> f\<lparr>sfPlanId := planId, sfPlanTitle := title\<rparr> | Inl _ \<Rightarrow> f)))"

fun FundingSource_PreConsume :: "Location \<Rightarrow> FundingSource \<Rightarrow> int \<Rightarrow> FundingSource goM" where
  "FundingSource_PreConsume loc (FWallet f) amount = bindM (WalletFunding_PreConsume f amount) (\<lambda>f. retM (FWallet f))"
| "FundingSource_PreConsume loc (FSubscription f) amount =
     bindM (SubscriptionFunding_PreConsume loc f) (\<lambda>f. retM (FSubscription f))"

fun FundingSource_Settle :: "FundingSource \<Rightarrow> int \<Rightarrow> unit goM" where
  "FundingSource_Settle (FWallet f) delta =
     (if delta = 0 then retM ()
      else if delta > 0 then DecreaseUserQuota (wfUserId f) delta False
      else IncreaseUserQuota (wfUserId f) (- delta) False)"
| "FundingSource_Settle (FSubscription f) delta =
     (if delta = 0 then retM () else PostConsumeUserSubscriptionDelta (sfSubscriptionId f) delta)"

definition refundWithRetry :: "unit goM \<Rightarrow> unit goM" where
  "refundWithRetry fn = retrying 2 fn"

fun FundingSource_Refund :: "FundingSource \<Rightarrow> unit goM" where
  "FundingSource_Refund (FWallet f) =
     (if wfConsumed f \<le> 0 then retM () else IncreaseUserQuota (wfUserId f) (wfConsumed f) False)"
| "FundingSource_Refund (FSubscription f) =
     (if sfPreConsumed f \<le> 0 then retM () else refundWithRetry (RefundSubscriptionPreConsume (sfRequestId f)))"

section \<open>Settling\<close>

definition stopRecoveryHeartbeat :: "unit relayM" where
  "stopRecoveryHeartbeat = setSession (\<lambda>s. s\<lparr>bsHeartbeat := False\<rparr>)"

text \<open>The end of \<open>Settle\<close>, reached by both of its branches.\<close>

definition finishSettle :: "string \<Rightarrow> unit relayM" where
  "finishSettle rid =
     seqM (setSession (\<lambda>s. s\<lparr>bsSettled := True\<rparr>))
     (seqM (whenM (rid \<noteq> []) (bindM (tryM (liftM (MarkBillingRecoverySettled rid))) (\<lambda>r.
        case r of Inl e \<Rightarrow> seqM (setSession (\<lambda>s. s\<lparr>bsSettled := False\<rparr>)) (throwM e) | Inr _ \<Rightarrow> retM ())))
      stopRecoveryHeartbeat)"

text \<open>With a recovery row the error of the token adjustment is assigned but never looked at.\<close>

definition settleToken :: "string \<Rightarrow> int \<Rightarrow> unit relayM" where
  "settleToken rid delta = bindM (getsM rInfo) (\<lambda>info.
     if rid \<noteq> [] then
       ignoreM (liftM (ApplyBillingRecoveryAdjustment rid BillingRecoveryComponentToken BillingRecoveryOperationSettle))
     else if \<not> riIsPlayground info then
       (if delta > 0 then liftM (DecreaseTokenQuota (riTokenId info) (riTokenKey info) delta)
        else liftM (IncreaseTokenQuota (riTokenId info) (riTokenKey info) (- delta)))
     else retM ())"

definition Settle :: "int \<Rightarrow> unit relayM" where
  "Settle actualQuota = bindM (getsM rSession) (\<lambda>s.
     if bsSettled s then retM ()
     else let delta = actualQuota - bsPreConsumedQuota s; rid = bsRecoveryID s in
       seqM (whenM (rid \<noteq> []) (liftM (UpdateBillingRecoverySettlement rid delta)))
       (if delta = 0 then
          seqM (whenM (rid \<noteq> []) (seqM
            (liftM (ApplyBillingRecoveryAdjustment rid BillingRecoveryComponentFunding BillingRecoveryOperationSettle))
            (liftM (ApplyBillingRecoveryAdjustment rid BillingRecoveryComponentToken BillingRecoveryOperationSettle))))
            (finishSettle rid)
        else
          seqM (whenM (\<not> bsFundingSettled s) (seqM
            (if rid \<noteq> [] then
               liftM (ApplyBillingRecoveryAdjustment rid BillingRecoveryComponentFunding BillingRecoveryOperationSettle)
             else liftM (FundingSource_Settle (bsFunding s) delta))
            (setSession (\<lambda>s. s\<lparr>bsFundingSettled := True\<rparr>))))
          (seqM (settleToken rid delta)
          (seqM (whenM (Source (bsFunding s) = ''subscription'')
             (setInfo (\<lambda>i. i\<lparr>riSubscriptionPostDelta := riSubscriptionPostDelta i + delta\<rparr>)))
            (finishSettle rid)))))"

section \<open>Refunding\<close>

definition needsRefundLocked :: "RelayInfo \<Rightarrow> BillingSession \<Rightarrow> bool" where
  "needsRefundLocked info s =
     (if bsSettled s \<or> bsRefunded s then False
      else if \<not> bsFundingSettled s \<and> \<not> bsFundingRefunded s \<and>
        (bsTokenConsumed s > 0 \<or> (case bsFunding s of FSubscription f \<Rightarrow> sfPreConsumed f > 0 | FWallet _ \<Rightarrow> False))
      then True
      else if \<not> bsExtraRefunded s \<and> bsExtraReserved s > 0 \<and> Source (bsFunding s) = ''subscription'' then True
      else \<not> bsTokenRefunded s \<and> bsTokenConsumed s > 0 \<and> \<not> riIsPlayground info)"

definition refundComponentsCompleteLocked :: "BillingSession \<Rightarrow> bool \<Rightarrow> int \<Rightarrow> bool" where
  "refundComponentsCompleteLocked s isPlayground tokenConsumed =
     (if \<not> bsFundingSettled s \<and> \<not> bsFundingRefunded s then False
      else if bsExtraReserved s > 0 \<and> Source (bsFunding s) = ''subscription'' \<and> \<not> bsExtraRefunded s then False
      else isPlayground \<or> tokenConsumed \<le> 0 \<or> bsTokenRefunded s)"

text \<open>
  The three components of \<open>Refund\<close>: each takes the first error so far and whether it is already
  done, and returns both updated.
\<close>

definition refundFunding :: "BillingSession \<Rightarrow> err option \<Rightarrow> (err option \<times> bool) relayM" where
  "refundFunding s refundErr =
     (if \<not> bsFundingRefunded s \<and> \<not> bsFundingSettled s then
        bindM (if refundErr = None then tryM (liftM (if bsRecoveryID s \<noteq> []
            then ApplyBillingRecoveryAdjustment (bsRecoveryID s) BillingRecoveryComponentFunding BillingRecoveryOperationRefund
            else FundingSource_Refund (bsFunding s))) else retM (Inr ())) (\<lambda>r.
          case r of Inl e \<Rightarrow> retM (Some (ErrWrap ''refund billing source'' e), bsFundingRefunded s)
          | Inr _ \<Rightarrow> retM (refundErr, True))
      else retM (refundErr, bsFundingRefunded s))"

definition refundExtra :: "RelayInfo \<Rightarrow> BillingSession \<Rightarrow> err option \<Rightarrow> (err option \<times> bool) relayM" where
  "refundExtra info s refundErr =
     (if refundErr = None \<and> \<not> bsExtraRefunded s \<and> bsExtraReserved s > 0 \<and>
         Source (bsFunding s) = ''subscription'' \<and> riSubscriptionId info > 0 then
        bindM (tryM (liftM (if bsRecoveryID s \<noteq> []
            then ApplyBillingRecoveryAdjustment (bsRecoveryID s) BillingRecoveryComponentExtra BillingRecoveryOperationRefund
            else PostConsumeUserSubscriptionDelta (riSubscriptionId info) (- bsExtraReserved s)))) (\<lambda>r.
          case r of Inl e \<Rightarrow> retM (Some (ErrWrap ''refund subscription extra reserve'' e), bsExtraRefunded s)
          | Inr _ \<Rightarrow> retM (refundErr, True))
      else retM (refundErr, bsExtraRefunded s))"

definition refundToken :: "RelayInfo \<Rightarrow> BillingSession \<Rightarrow> err option \<Rightarrow> (err option \<times> bool) relayM" where
  "refundToken info s refundErr =
     (if refundErr = None \<and> \<not> bsTokenRefunded s \<and> bsTokenConsumed s > 0 \<and> \<not> riIsPlayground info then
        bindM (tryM (liftM (if bsRecoveryID s \<noteq> []
            then ApplyBillingRecoveryAdjustment (bsRecoveryID s) BillingRecoveryComponentToken BillingRecoveryOperationRefund
            else IncreaseTokenQuota (riTokenId info) (riTokenKey info) (bsTokenConsumed s)))) (\<lambda>r.
          case r of Inl e \<Rightarrow> retM (Some (ErrWrap ''refund token quota'' e), bsTokenRefunded s)
          | Inr _ \<Rightarrow> retM (refundErr, True))
      else retM (refundErr, bsTokenRefunded s))"

definition finishRefund :: "RelayInfo \<Rightarrow> BillingSession \<Rightarrow> err option \<Rightarrow> unit relayM" where
  "finishRefund info s refundErr =
     (if refundErr \<noteq> None then retM ()
      else bindM (getsM rSession) (\<lambda>now.
        if bsRecoveryID s = [] \<or> \<not> refundComponentsCompleteLocked now (riIsPlayground info) (bsTokenConsumed s)
        then retM ()
        else bindM (tryM (liftM (MarkBillingRecoveryRefunded (bsRecoveryID s) None))) (\<lambda>r.
          case r of Inr _ \<Rightarrow> retM ()
          | Inl e \<Rightarrow> seqM (setSession (\<lambda>s. s\<lparr>bsRefundErr := Some e\<rparr>))
                      (setInfo (\<lambda>i. i\<lparr>riBillingRefundError := Some e\<rparr>)))))"

definition Refund :: "unit relayM" where
  "Refund = bindM (getsM rSession) (\<lambda>s. bindM (getsM rInfo) (\<lambda>info.
     if bsSettled s \<or> bsRefunded s \<or> bsRefundInProgress s \<or> \<not> needsRefundLocked info s then retM ()
     else
       seqM (setSession (\<lambda>s. s\<lparr>bsRefundInProgress := True\<rparr>))
       (seqM stopRecoveryHeartbeat
       (bindM (if bsRecoveryID s \<noteq> [] then tryM (liftM (MarkBillingRecoveryRefundPending (bsRecoveryID s) None))
               else retM (Inr ())) (\<lambda>marked.
        let refundErr = (case marked of Inl e \<Rightarrow> Some (ErrWrap ''mark billing recovery pending'' e) | Inr _ \<Rightarrow> None) in
        bindM (refundFunding s refundErr) (\<lambda>(refundErr, fundingRefunded).
        bindM (refundExtra info s refundErr) (\<lambda>(refundErr, extraRefunded).
        bindM (refundToken info s refundErr) (\<lambda>(refundErr, tokenRefunded).
        seqM (setSession (\<lambda>s. s\<lparr>bsFundingRefunded := fundingRefunded, bsExtraRefunded := extraRefunded,
          bsTokenRefunded := (riIsPlayground info \<or> bsTokenConsumed s \<le> 0 \<or> tokenRefunded),
          bsRefundInProgress := False, bsRefundErr := refundErr\<rparr>))
        (seqM (setInfo (\<lambda>i. i\<lparr>riBillingRefundError := refundErr\<rparr>))
        (seqM (setSession (\<lambda>s. if refundErr = None \<and>
            refundComponentsCompleteLocked s (riIsPlayground info) (bsTokenConsumed s)
          then s\<lparr>bsRefunded := True\<rparr> else s))
         (finishRefund info s refundErr)))))))))))"

section \<open>Reserving\<close>

definition syncRelayInfo :: "unit relayM" where
  "syncRelayInfo = bindM (getsM rSession) (\<lambda>s. setInfo (\<lambda>info.
     let info = info\<lparr>riFinalPreConsumedQuota := bsPreConsumedQuota s, riBillingSource := Source (bsFunding s)\<rparr> in
     case bsFunding s of
       FSubscription sub \<Rightarrow> info\<lparr>riSubscriptionId := sfSubscriptionId sub,
         riSubscriptionPreConsumed := sfPreConsumed sub + bsExtraReserved s, riSubscriptionPostDelta := 0,
         riSubscriptionAmountTotal := sfAmountTotal sub,
         riSubscriptionAmountUsedAfterPreConsume := sfAmountUsedAfter sub + bsExtraReserved s,
         riSubscriptionPlanId := sfPlanId sub, riSubscriptionPlanTitle := sfPlanTitle sub\<rparr>
     | FWallet _ \<Rightarrow> info\<lparr>riSubscriptionId := 0, riSubscriptionPreConsumed := 0\<rparr>))"

definition syncRecovery :: "unit relayM" where
  "syncRecovery = bindM (getsM rSession) (\<lambda>s. bindM (getsM rInfo) (\<lambda>info.
     if bsRecoveryID s = [] then retM ()
     else let
       fundingAmount = (case bsFunding s of FWallet f \<Rightarrow> wfConsumed f | FSubscription f \<Rightarrow> sfPreConsumed f);
       subscriptionID = (case bsFunding s of FWallet _ \<Rightarrow> riSubscriptionId info | FSubscription f \<Rightarrow> sfSubscriptionId f);
       tokenAmount = (if riIsPlayground info then 0 else bsTokenConsumed s)
     in liftM (UpdateBillingRecoveryAmounts (bsRecoveryID s) subscriptionID fundingAmount (bsExtraReserved s) tokenAmount)))"

definition syncBillingRecoveryWithRetry :: "unit relayM" where
  "syncBillingRecoveryWithRetry = retrying 2 syncRecovery"

definition addConsumed :: "int \<Rightarrow> FundingSource \<Rightarrow> FundingSource" where
  "addConsumed delta fs = (case fs of FWallet f \<Rightarrow> FWallet (f\<lparr>wfConsumed := wfConsumed f + delta\<rparr>) | FSubscription _ \<Rightarrow> fs)"

definition PreConsumeTokenQuota :: "int \<Rightarrow> unit relayM" where
  "PreConsumeTokenQuota quota = bindM (getsM rInfo) (\<lambda>info.
     if quota < 0 then throwM errNegativeQuota
     else if riIsPlayground info then retM ()
     else bindM (liftM (TryReserveTokenQuota (riTokenId info) (riTokenKey info) quota (riTokenUnlimited info))) (\<lambda>reserved.
       if reserved then retM ()
       else seqM (ignoreM (liftM (GetTokenByKey (riTokenKey info) False)))
         (throwM (ErrText ''token quota is not enough''))))"

definition errSubscriptionQuota :: "err \<Rightarrow> err" where
  "errSubscriptionQuota e = NewErrorWithStatusCode
     (ErrText (''subscription quota insufficient or not configured: '' @ err_text e)) ErrorCodeInsufficientUserQuota 403"

definition reserveFunding :: "int \<Rightarrow> unit relayM" where
  "reserveFunding delta = bindM (getsM rSession) (\<lambda>s.
     case bsFunding s of
       FWallet f \<Rightarrow> bindM (tryM (liftM (DecreaseUserQuota (wfUserId f) delta False))) (\<lambda>r.
         case r of Inl e \<Rightarrow> throwM (NewError e ErrorCodeUpdateDataError)
         | Inr _ \<Rightarrow> setSession (\<lambda>s. s\<lparr>bsFunding := addConsumed delta (bsFunding s)\<rparr>))
     | FSubscription f \<Rightarrow> bindM (tryM (liftM (PostConsumeUserSubscriptionDelta (sfSubscriptionId f) delta))) (\<lambda>r.
         case r of Inl e \<Rightarrow> throwM (errSubscriptionQuota e) | Inr _ \<Rightarrow> retM ()))"

definition rollbackFundingReserve :: "int \<Rightarrow> unit relayM" where
  "rollbackFundingReserve delta = bindM (getsM rSession) (\<lambda>s.
     case bsFunding s of
       FWallet f \<Rightarrow> bindM (tryM (liftM (IncreaseUserQuota (wfUserId f) delta False))) (\<lambda>r.
         case r of Inl e \<Rightarrow> throwM (ErrWrap ''rollback wallet funding reserve'' e)
         | Inr _ \<Rightarrow> setSession (\<lambda>s. s\<lparr>bsFunding := addConsumed (- delta) (bsFunding s)\<rparr>))
     | FSubscription f \<Rightarrow> bindM (tryM (liftM (PostConsumeUserSubscriptionDelta (sfSubscriptionId f) (- delta)))) (\<lambda>r.
         case r of Inl e \<Rightarrow> throwM (ErrWrap ''rollback subscription funding reserve'' e) | Inr _ \<Rightarrow> retM ()))"

definition errTokenQuota :: "err \<Rightarrow> err" where
  "errTokenQuota e = NewErrorWithStatusCode e ErrorCodePreConsumeTokenQuotaFailed 403"

definition reserveToken :: "int \<Rightarrow> unit relayM" where
  "reserveToken delta = bindM (getsM rInfo) (\<lambda>info.
     if delta \<le> 0 \<or> riIsPlayground info then retM ()
     else bindM (tryM (PreConsumeTokenQuota delta)) (\<lambda>r.
       case r of Inl e \<Rightarrow> throwM (errTokenQuota e) | Inr _ \<Rightarrow> retM ()))"

definition rollbackReservedDelta :: "int \<Rightarrow> err option relayM" where
  "rollbackReservedDelta delta = bindM (getsM rInfo) (\<lambda>info.
     if delta \<le> 0 then retM None
     else bindM (if riIsPlayground info then retM None
       else bindM (tryM (liftM (IncreaseTokenQuota (riTokenId info) (riTokenKey info) delta))) (\<lambda>r.
         case r of Inl e \<Rightarrow> retM (Some (ErrWrap ''rollback token reserve'' e))
         | Inr _ \<Rightarrow> seqM (setSession (\<lambda>s. s\<lparr>bsTokenConsumed := bsTokenConsumed s - delta\<rparr>)) (retM None))) (\<lambda>tokenErr.
       bindM (tryM (rollbackFundingReserve delta)) (\<lambda>r.
         bindM (case r of
             Inl e \<Rightarrow> retM (case tokenErr of None \<Rightarrow> Some e | Some e' \<Rightarrow> Some (joinErr e' (Some e)))
           | Inr _ \<Rightarrow> seqM (setSession (\<lambda>s. s\<lparr>bsPreConsumedQuota := bsPreConsumedQuota s - delta,
               bsExtraReserved := bsExtraReserved s - delta\<rparr>)) (retM tokenErr)) (\<lambda>rollbackErr.
           seqM syncRelayInfo (retM rollbackErr)))))"

text \<open>The branch of \<open>Reserve\<close> without a recovery row; its tail for a row is never reached.\<close>

definition reserveLocally :: "int \<Rightarrow> unit relayM" where
  "reserveLocally delta = bindM (getsM (bsRecoveryID \<circ> rSession)) (\<lambda>rid.
     seqM (reserveFunding delta)
     (bindM (tryM (reserveToken delta)) (\<lambda>r.
       case r of
         Inl e \<Rightarrow> bindM (tryM (rollbackFundingReserve delta)) (\<lambda>rolled.
           seqM (case rolled of Inr _ \<Rightarrow> retM ()
             | Inl _ \<Rightarrow> seqM (setSession (\<lambda>s. s\<lparr>bsPreConsumedQuota := bsPreConsumedQuota s + delta,
                     bsExtraReserved := bsExtraReserved s + delta\<rparr>))
                 (seqM syncRelayInfo
                 (seqM (setSession (\<lambda>s. s\<lparr>bsRecoveryNeedsRefund := True\<rparr>))
                   (whenM (rid \<noteq> []) (ignoreM syncBillingRecoveryWithRetry)))))
             (throwM e))
       | Inr _ \<Rightarrow>
           seqM (setSession (\<lambda>s. s\<lparr>bsPreConsumedQuota := bsPreConsumedQuota s + delta,
             bsTokenConsumed := bsTokenConsumed s + delta, bsExtraReserved := bsExtraReserved s + delta\<rparr>))
           (seqM syncRelayInfo
           (whenM (rid \<noteq> []) (bindM (tryM syncBillingRecoveryWithRetry) (\<lambda>synced.
             case synced of Inr _ \<Rightarrow> retM ()
             | Inl e \<Rightarrow> bindM (rollbackReservedDelta delta) (\<lambda>rollbackErr.
                 seqM (ignoreM syncBillingRecoveryWithRetry)
                 (seqM (whenM (rollbackErr \<noteq> None) (setSession (\<lambda>s. s\<lparr>bsRecoveryNeedsRefund := True\<rparr>)))
                   (throwM (joinErr e rollbackErr)))))))))))"

definition Reserve :: "int \<Rightarrow> unit relayM" where
  "Reserve targetQuota = bindM (getsM rSession) (\<lambda>s. bindM (getsM rInfo) (\<lambda>info.
     if bsSettled s \<or> bsRefunded s \<or> bsTrusted s \<or> targetQuota \<le> bsPreConsumedQuota s then retM ()
     else let delta = targetQuota - bsPreConsumedQuota s in
       if delta \<le> 0 then retM ()
       else if bsRecoveryID s \<noteq> [] then
         bindM (liftM (ReserveBillingRecovery (bsRecoveryID s) targetQuota delta (riTokenUnlimited info))) (\<lambda>applied.
           if applied \<le> 0 then retM ()
           else seqM (setSession (\<lambda>s. s\<lparr>bsFunding := addConsumed applied (bsFunding s),
                  bsPreConsumedQuota := bsPreConsumedQuota s + applied,
                  bsTokenConsumed := bsTokenConsumed s + (if riIsPlayground info then 0 else applied),
                  bsExtraReserved := bsExtraReserved s +
                    (if Source (bsFunding s) = ''subscription'' then applied else 0)\<rparr>))
                syncRelayInfo)
       else reserveLocally delta))"

section \<open>Opening a session\<close>

definition shouldTrust :: "bool relayM" where
  "shouldTrust = bindM (getsM rSession) (\<lambda>s. bindM (getsM rInfo) (\<lambda>info.
     bindM (getsM rTokenQuota) (\<lambda>tokenQuota. bindM (liftM (getsM trustQuota)) (\<lambda>trust.
       retM (if riForcePreConsume info then False
         else if trust \<le> 0 then False
         else if \<not> (riTokenUnlimited info \<or> tokenQuota > trust) then False
         else case bsFunding s of FWallet _ \<Rightarrow> riUserQuota info > trust | FSubscription _ \<Rightarrow> False)))))"

definition errUserQuota :: err where
  "errUserQuota = NewErrorWithStatusCode (ErrText ''user quota insufficient'') ErrorCodeInsufficientUserQuota 403"

text \<open>The two branches of \<open>preConsume\<close>: a wallet with a recovery row, and all others.\<close>

definition preConsumeWallet :: "int \<Rightarrow> unit relayM" where
  "preConsumeWallet effectiveQuota = bindM (getsM rSession) (\<lambda>s. bindM (getsM rInfo) (\<lambda>info.
     bindM (tryM (liftM (PreConsumeWalletBillingRecovery (bsRecoveryID s) effectiveQuota (riTokenUnlimited info)))) (\<lambda>r.
       case r of
         Inl e \<Rightarrow>
           if errIs e ErrBillingRecoveryTokenQuota then throwM (errTokenQuota e)
           else if errIs e ErrBillingRecoveryFundingQuota \<or> errIs e ErrInsufficientWalletQuota
           then seqM (ignoreM (liftM (GetUserQuota (riUserId info) False))) (throwM errUserQuota)
           else throwM (NewError e ErrorCodeUpdateDataError)
       | Inr _ \<Rightarrow>
           seqM (setSession (\<lambda>s. s\<lparr>
             bsFunding := (case bsFunding s of FWallet f \<Rightarrow> FWallet (f\<lparr>wfConsumed := effectiveQuota\<rparr>)
               | FSubscription f \<Rightarrow> FSubscription f),
             bsTokenConsumed := (if riIsPlayground info then bsTokenConsumed s else effectiveQuota),
             bsPreConsumedQuota := effectiveQuota\<rparr>))
           syncRelayInfo)))"

definition rollbackToken :: "unit relayM" where
  "rollbackToken = bindM (getsM rSession) (\<lambda>s. bindM (getsM rInfo) (\<lambda>info.
     whenM (bsTokenConsumed s > 0 \<and> \<not> riIsPlayground info)
       (bindM (tryM (liftM (IncreaseTokenQuota (riTokenId info) (riTokenKey info) (bsTokenConsumed s)))) (\<lambda>r.
         case r of
           Inl _ \<Rightarrow> seqM (setSession (\<lambda>s. s\<lparr>bsRecoveryNeedsRefund := True\<rparr>)) (ignoreM syncRecovery)
         | Inr _ \<Rightarrow> setSession (\<lambda>s. s\<lparr>bsTokenConsumed := 0\<rparr>)))))"

definition preConsumeParts :: "Location \<Rightarrow> int \<Rightarrow> unit relayM" where
  "preConsumeParts loc effectiveQuota =
     seqM (whenM (effectiveQuota > 0) (bindM (tryM (PreConsumeTokenQuota effectiveQuota)) (\<lambda>r.
       case r of Inl e \<Rightarrow> throwM (errTokenQuota e)
       | Inr _ \<Rightarrow> setSession (\<lambda>s. s\<lparr>bsTokenConsumed := effectiveQuota\<rparr>))))
     (bindM (getsM rSession) (\<lambda>s.
      bindM (tryM (liftM (FundingSource_PreConsume loc (bsFunding s) effectiveQuota))) (\<lambda>r.
        case r of
          Inl e \<Rightarrow> seqM rollbackToken
            (if errIs e ErrInsufficientWalletQuota then
               bindM (getsM rInfo) (\<lambda>info.
                 seqM (ignoreM (liftM (GetUserQuota (riUserId info) False))) (throwM errUserQuota))
             else if Contains (err_text e) ''no active subscription'' \<or>
                     Contains (err_text e) ''subscription quota insufficient''
             then throwM (errSubscriptionQuota e)
             else throwM (NewError e ErrorCodeUpdateDataError))
        | Inr fs \<Rightarrow> seqM (setSession (\<lambda>s. s\<lparr>bsFunding := fs, bsPreConsumedQuota := effectiveQuota\<rparr>)) syncRelayInfo)))"

definition preConsume :: "Location \<Rightarrow> int \<Rightarrow> unit relayM" where
  "preConsume loc quota = bindM shouldTrust (\<lambda>trusted.
     let effectiveQuota = (if trusted then 0 else quota) in
     seqM (whenM trusted (setSession (\<lambda>s. s\<lparr>bsTrusted := True\<rparr>)))
     (bindM (getsM rSession) (\<lambda>s.
       if bsRecoveryID s \<noteq> [] \<and> Source (bsFunding s) = ''wallet'' then preConsumeWallet effectiveQuota
       else preConsumeParts loc effectiveQuota)))"

definition ensureBillingRecovery :: "unit relayM" where
  "ensureBillingRecovery = bindM (getsM rSession) (\<lambda>s. bindM (getsM rInfo) (\<lambda>info.
     if bsRecoveryID s = [] then throwM (ErrText ''billing recovery request identity is unavailable'')
     else bindM (liftM (EnsureBillingRecovery \<lparr>inRequestID = bsRecoveryID s, inUserID = riUserId info,
         inTokenID = riTokenId info, inSource = Source (bsFunding s), inFundingAmount = 0, inTokenAmount = 0,
         inTokenRequired = (\<not> riIsPlayground info \<and> riTokenId info > 0)\<rparr>)) (\<lambda>_. retM ())))"

definition recordBillingPreConsumeFailure :: "err \<Rightarrow> unit relayM" where
  "recordBillingPreConsumeFailure cause = bindM (getsM rSession) (\<lambda>s.
     if bsRecoveryID s = [] then retM ()
     else if bsRecoveryNeedsRefund s
     then ignoreM (liftM (MarkBillingRecoveryRefundPending (bsRecoveryID s) (Some cause)))
     else ignoreM (liftM (AbortPreparedBillingRecovery (bsRecoveryID s) (Some cause))))"

definition startRecoveryHeartbeat :: "unit relayM" where
  "startRecoveryHeartbeat = setSession (\<lambda>s. if bsRecoveryID s = [] then s else s\<lparr>bsHeartbeat := True\<rparr>)"

definition newSession :: "FundingSource \<Rightarrow> string \<Rightarrow> BillingSession" where
  "newSession fs rid = \<lparr>bsFunding = fs, bsRecoveryID = rid, bsPreConsumedQuota = 0, bsTokenConsumed = 0,
     bsExtraReserved = 0, bsTrusted = False, bsFundingSettled = False, bsSettled = False, bsRefunded = False,
     bsRecoveryNeedsRefund = False, bsFundingRefunded = False, bsExtraRefunded = False, bsTokenRefunded = False,
     bsRefundInProgress = False, bsRefundErr = None, bsHeartbeat = False\<rparr>"

text \<open>What \<open>tryWallet\<close> and \<open>trySubscription\<close> do with the session they have built.\<close>

definition openSession :: "Location \<Rightarrow> int \<Rightarrow> unit relayM" where
  "openSession loc quota =
     bindM (tryM ensureBillingRecovery) (\<lambda>r. case r of
       Inl e \<Rightarrow> throwM (NewError e ErrorCodeUpdateDataError)
     | Inr _ \<Rightarrow> bindM (tryM (preConsume loc quota)) (\<lambda>r. case r of
         Inl apiErr \<Rightarrow> seqM (recordBillingPreConsumeFailure (apiCause apiErr)) (throwM apiErr)
       | Inr _ \<Rightarrow> bindM (tryM syncRecovery) (\<lambda>r. case r of
           Inl e \<Rightarrow> bindM (getsM (bsRecoveryID \<circ> rSession)) (\<lambda>rid.
             seqM (ignoreM (liftM (MarkBillingRecoveryRefundPending rid (Some e))))
             (seqM Refund (throwM (NewError e ErrorCodeUpdateDataError))))
         | Inr _ \<Rightarrow> startRecoveryHeartbeat)))"

definition tryWallet :: "Location \<Rightarrow> int \<Rightarrow> unit relayM" where
  "tryWallet loc preConsumedQuota = bindM (getsM rInfo) (\<lambda>info.
     bindM (tryM (liftM (GetUserQuota (riUserId info) False))) (\<lambda>r. case r of
       Inl e \<Rightarrow> throwM (NewError e ErrorCodeQueryDataError)
     | Inr userQuota \<Rightarrow>
         if userQuota \<le> 0 then throwM errUserQuota
         else if userQuota - preConsumedQuota < 0
         then throwM (NewErrorWithStatusCode (ErrText ''pre-consume quota failed'') ErrorCodeInsufficientUserQuota 403)
         else seqM (setInfo (\<lambda>i. i\<lparr>riUserQuota := userQuota\<rparr>))
           (seqM (setSession (\<lambda>_. newSession (FWallet \<lparr>wfUserId = riUserId info, wfConsumed = 0\<rparr>) (riRequestId info)))
             (openSession loc preConsumedQuota))))"

definition trySubscription :: "Location \<Rightarrow> int \<Rightarrow> unit relayM" where
  "trySubscription loc preConsumedQuota = bindM (getsM rInfo) (\<lambda>info.
     let subConsume = (if preConsumedQuota \<le> 0 then 1 else preConsumedQuota) in
     seqM (setSession (\<lambda>_. newSession (FSubscription \<lparr>sfRequestId = riRequestId info, sfUserId = riUserId info,
         sfAmount = subConsume, sfSubscriptionId = 0, sfPreConsumed = 0, sfAmountTotal = 0, sfAmountUsedAfter = 0,
         sfPlanId = 0, sfPlanTitle = []\<rparr>) (riRequestId info)))
       (openSession loc subConsume))"

definition NormalizeBillingPreference :: "string \<Rightarrow> string" where
  "NormalizeBillingPreference pref =
     (if TrimSpace pref \<in> {''subscription_first'', ''wallet_first'', ''subscription_only'', ''wallet_only''}
      then TrimSpace pref else ''subscription_first'')"

definition NewBillingSession :: "Location \<Rightarrow> string \<Rightarrow> int \<Rightarrow> unit relayM" where
  "NewBillingSession loc newId preConsumedQuota =
     seqM (setInfo (\<lambda>i. if TrimSpace (riRequestId i) = [] then i\<lparr>riRequestId := newId\<rparr> else i))
     (bindM (getsM rInfo) (\<lambda>info.
       let pref = NormalizeBillingPreference (riBillingPreference info) in
       if pref = ''subscription_only'' then trySubscription loc preConsumedQuota
       else if pref = ''wallet_only'' then tryWallet loc preConsumedQuota
       else if pref = ''wallet_first'' then
         bindM (tryM (tryWallet loc preConsumedQuota)) (\<lambda>r. case r of
           Inr _ \<Rightarrow> retM ()
         | Inl e \<Rightarrow> if hasErrorCode e ErrorCodeInsufficientUserQuota then trySubscription loc preConsumedQuota
                    else throwM e)
       else
         bindM (tryM (liftM (HasActiveUserSubscription (riUserId info)))) (\<lambda>r. case r of
           Inl e \<Rightarrow> throwM (NewError e ErrorCodeQueryDataError)
         | Inr hasSub \<Rightarrow>
             if \<not> hasSub then tryWallet loc preConsumedQuota
             else bindM (tryM (trySubscription loc preConsumedQuota)) (\<lambda>r. case r of
               Inr _ \<Rightarrow> retM ()
             | Inl apiErr \<Rightarrow>
                 if hasErrorCode apiErr ErrorCodeInsufficientUserQuota then
                   bindM (tryM (liftM (UserActiveSubscriptionsAllowWalletOverflow (riUserId info)))) (\<lambda>r. case r of
                     Inl e \<Rightarrow> throwM (NewError e ErrorCodeQueryDataError)
                   | Inr allowOverflow \<Rightarrow> if allowOverflow then tryWallet loc preConsumedQuota else throwM apiErr)
                 else throwM apiErr))))"

section \<open>The callers (service/billing.go, service/quota.go)\<close>

text \<open>A method called on \<open>relayInfo.Billing\<close>.\<close>

definition onBilling :: "BillingSession \<Rightarrow> 'a relayM \<Rightarrow> 'a relayM" where
  "onBilling s m = seqM (setSession (\<lambda>_. s))
     (bindM (tryM m) (\<lambda>r. seqM (modifyM (\<lambda>st. st\<lparr>rInfo := (rInfo st)\<lparr>riBilling := Some (rSession st)\<rparr>\<rparr>))
       (case r of Inl e \<Rightarrow> throwM e | Inr x \<Rightarrow> retM x)))"

definition PreConsumeBilling :: "Location \<Rightarrow> string \<Rightarrow> int \<Rightarrow> unit relayM" where
  "PreConsumeBilling loc newId preConsumedQuota = bindM (getsM rInfo) (\<lambda>info.
     case riQuotaClamp info of
       Some clamp \<Rightarrow> throwM (NewErrorWithStatusCode clamp ErrorCodeModelPriceError 400)
     | None \<Rightarrow>
         if preConsumedQuota < 0
         then throwM (NewErrorWithStatusCode (ErrText (''pre-consume quota cannot be negative: '' @ dec_int preConsumedQuota))
                ErrorCodeModelPriceError 400)
         else seqM (NewBillingSession loc newId preConsumedQuota)
           (modifyM (\<lambda>st. st\<lparr>rInfo := (rInfo st)\<lparr>riBilling := Some (rSession st)\<rparr>\<rparr>)))"

definition PrepareBillingForSelectedModel :: "Location \<Rightarrow> string \<Rightarrow> unit relayM" where
  "PrepareBillingForSelectedModel loc newId = bindM (getsM rInfo) (\<lambda>info.
     let targetQuota = riQuotaToPreConsume info in
     case riBilling info of
       None \<Rightarrow> if riFreeModel info then retM () else PreConsumeBilling loc newId targetQuota
     | Some s \<Rightarrow> bindM (tryM (onBilling s (Reserve targetQuota))) (\<lambda>r. case r of
         Inl e \<Rightarrow> throwM (NewError e ErrorCodeUpdateDataError)
       | Inr _ \<Rightarrow> bindM (getsM rSession) (\<lambda>s.
           setInfo (\<lambda>i. i\<lparr>riFinalPreConsumedQuota := bsPreConsumedQuota s\<rparr>))))"

definition PostConsumeQuota :: "int \<Rightarrow> unit relayM" where
  "PostConsumeQuota quota = bindM (getsM rInfo) (\<lambda>info.
     seqM (if riBillingSource info = ''subscription'' then
         (if riSubscriptionId info = 0 then throwM (ErrText ''subscription id is missing'')
          else whenM (quota \<noteq> 0) (seqM (liftM (PostConsumeUserSubscriptionDelta (riSubscriptionId info) quota))
            (setInfo (\<lambda>i. i\<lparr>riSubscriptionPostDelta := riSubscriptionPostDelta i + quota\<rparr>))))
       else if quota > 0 then liftM (DecreaseUserQuota (riUserId info) quota False)
       else liftM (IncreaseUserQuota (riUserId info) (- quota) False))
     (whenM (\<not> riIsPlayground info)
       (if quota > 0 then liftM (DecreaseTokenQuota (riTokenId info) (riTokenKey info) quota)
        else liftM (IncreaseTokenQuota (riTokenId info) (riTokenKey info) (- quota)))))"

definition recordSettlement :: "unit relayM \<Rightarrow> unit relayM" where
  "recordSettlement m = bindM (tryM m) (\<lambda>r.
     seqM (setInfo (\<lambda>i. i\<lparr>riBillingSettlementError := (case r of Inl e \<Rightarrow> Some e | Inr _ \<Rightarrow> None)\<rparr>))
       (case r of Inl e \<Rightarrow> throwM e | Inr _ \<Rightarrow> retM ()))"

definition SettleBilling :: "int \<Rightarrow> unit relayM" where
  "SettleBilling actualQuota = bindM (getsM rInfo) (\<lambda>info.
     case riBilling info of
       Some s \<Rightarrow> recordSettlement (onBilling s (retrying 2 (Settle actualQuota)))
     | None \<Rightarrow> let quotaDelta = actualQuota - riFinalPreConsumedQuota info in
         recordSettlement (if quotaDelta \<noteq> 0 then PostConsumeQuota quotaDelta else retM ()))"

section \<open>What the recovery calls of a session keep\<close>

text \<open>
  An invariant of the tables that does not depend on balances, subscriptions and pre-consume
  records.
\<close>

locale row_inv = db_inv I for I :: "db \<Rightarrow> bool" +
  assumes users_any: "I d \<Longrightarrow> I (d\<lparr>users := u\<rparr>)"
    and tokens_any: "I d \<Longrightarrow> I (d\<lparr>tokens := t\<rparr>)"
    and subs_any: "I d \<Longrightarrow> I (d\<lparr>subs := s\<rparr>)"
    and records_any: "I d \<Longrightarrow> I (d\<lparr>preconsumes := p\<rparr>)"
begin

lemma keeps_quota: "framed (\<lambda>w w'. I (db w) \<longrightarrow> I (db w')) (updUser i P1 f1)"
  "framed (\<lambda>w w'. I (db w) \<longrightarrow> I (db w')) (updToken j P2 f2)"
  unfolding updUser_def updToken_def
  by (intro framed_db_execM; auto simp: users_any tokens_any split: option.split)+

lemma keeps_saves: "framed (\<lambda>w w'. I (db w) \<longrightarrow> I (db w')) (saveSub s)"
  "framed (\<lambda>w w'. I (db w) \<longrightarrow> I (db w')) (savePreConsume r)"
proof -
  show "framed (\<lambda>w w'. I (db w) \<longrightarrow> I (db w')) (saveSub s)"
    by (rule keeps_saveSub) (simp add: putSub_def subs_any)
  show "framed (\<lambda>w w'. I (db w) \<longrightarrow> I (db w')) (savePreConsume r)"
    unfolding framed_wp wp_savePreConsume wp_execM by (auto simp: records_any split: fate.split)
qed

lemma keeps_effect: "framed (\<lambda>w w'. I (db w) \<longrightarrow> I (db w')) (applyBillingRecoveryEffect r c x a)"
proof -
  have sub: "framed (\<lambda>w w'. I (db w) \<longrightarrow> I (db w')) (applySubscriptionDeltaTx i y)"
    "framed (\<lambda>w w'. I (db w) \<longrightarrow> I (db w')) (refundBillingRecoverySubscriptionPreConsumeTx rid)" for i y rid
    unfolding applySubscriptionDeltaTx_def refundBillingRecoverySubscriptionPreConsumeTx_def
      postConsumeUserSubscriptionDeltaTx_def
    by (intro framed_intros framed_db_caching [OF caching_firstM] keeps_saves)+
  show ?thesis
    unfolding applyBillingRecoveryEffect_def
    by (cases c; simp only: BillingRecoveryComponent.case;
        intro framed_intros framed_db_caching [OF caching_nowM] keeps_quota sub)
qed

lemma keeps_pending: "framed (\<lambda>w w'. I (db w) \<longrightarrow> I (db w')) (applyPendingDeltas m)"
  unfolding applyPendingDeltas_def
  by (intro framed_intros framed_db_caching [OF caching_nowM] keeps_quota)

lemma keeps_withMutation:
  assumes "framed (\<lambda>w w'. I (db w) \<longrightarrow> I (db w')) body"
  shows "framed (\<lambda>w w'. I (db w) \<longrightarrow> I (db w')) (withMutation (beginBillingRecoveryQuotaMutation rid a b) body)"
proof -
  have took: "framed (\<lambda>w w'. I (db w) \<longrightarrow> I (db w')) (beginBillingRecoveryQuotaMutation rid a b)"
    unfolding framed_wp
    by (rule allI, rule wp_mono [OF begin_took]) (auto simp: tookPending_def cacheOnly_def)
  have release: "framed (\<lambda>w w'. I (db w) \<longrightarrow> I (db w')) (release m ok)" for m ok
    unfolding framed_wp by (simp add: release_def wp_simps)
  show ?thesis
    unfolding withMutation_def
    by (intro framed_intros framed_db_transaction took release keeps_pending assms)
qed

end

text \<open>
  The row of a wallet session of the user \<open>fst acct\<close>, \<open>f\<close> reserved: no settlement has been applied to it, or one of the
  amount \<open>delta\<close>.
\<close>

definition walletRow ::
  "(BillingRecovery \<Rightarrow> bool) \<Rightarrow> string \<Rightarrow> int \<times> int \<Rightarrow> int \<Rightarrow> int \<Rightarrow> db \<Rightarrow> bool" where
  "walletRow P rid acct f delta d \<longleftrightarrow>
     (\<exists>r. recoveries d rid = Some r \<and> brSource r = ''wallet'' \<and> brUserID r = fst acct \<and>
        brFundingAmount r = f \<and> P r) \<and>
     (case adjustments d (rid, BillingRecoveryComponentFunding, BillingRecoveryOperationSettle) of
        None \<Rightarrow> True | Some a \<Rightarrow> adAmount a = delta)"

definition intends :: "int \<Rightarrow> BillingRecovery \<Rightarrow> bool" where
  "intends delta r \<longleftrightarrow> brSettlementDelta r = delta \<or> brStatus r = BillingRecoveryStatusSettled"

interpretation session: row_inv "walletRow P rid acct f delta" for P rid acct f delta
  by unfold_locales (auto simp: walletRow_def)

lemma keeps_applyAdjustment:
  assumes "brSettlementDelta r = delta" "c = BillingRecoveryComponentFunding \<or> c = BillingRecoveryComponentToken"
  shows "framed (\<lambda>w w'. walletRow (intends delta) rid acct f delta (db w) \<longrightarrow> walletRow (intends delta) rid acct f delta (db w'))
    (applyAdjustmentTx rid r c BillingRecoveryOperationSettle)"
proof -
  let ?I = "walletRow (intends delta) rid acct f delta"
  have amount: "adjustmentAmount r c BillingRecoveryOperationSettle = delta"
    using assms by (auto simp: adjustmentAmount_def)
  have create: "framed (\<lambda>w w'. ?I (db w) \<longrightarrow> ?I (db w')) (createAdjustment (rid, c, BillingRecoveryOperationSettle) delta)"
    unfolding createAdjustment_def
    by (intro session.framed_intros session.framed_db_caching [OF caching_nowM] session.framed_db_createM)
      (auto simp: walletRow_def BillingRecoveryAdjustment_BeforeCreate_def split: option.splits if_splits)
  have state: "framed (\<lambda>w w'. ?I (db w) \<longrightarrow> ?I (db w'))
      (updateBillingRecoveryComponentState rid c BillingRecoveryOperationSettle)"
    unfolding updateBillingRecoveryComponentState_def updRecovery_def
    by (intro session.framed_intros session.framed_db_caching [OF caching_nowM] session.framed_db_execM)
      (use assms(2) in \<open>auto simp: walletRow_def setComponentState_def intends_def split: option.splits\<close>)
  show ?thesis
    unfolding applyAdjustmentTx_def Let_def amount
    by (intro session.framed_intros session.keeps_effect create state)
qed

lemma keeps_settlement:
  assumes c: "c = BillingRecoveryComponentFunding \<or> c = BillingRecoveryComponentToken"
  shows "framed (\<lambda>w w'. walletRow (intends delta) rid acct f delta (db w) \<longrightarrow> walletRow (intends delta) rid acct f delta (db w'))
    (ApplyBillingRecoveryAdjustment rid c BillingRecoveryOperationSettle)"
proof -
  let ?I = "walletRow (intends delta) rid acct f delta"
  have "framed (\<lambda>w w'. ?I (db w) \<longrightarrow> ?I (db w')) (adjustmentTx rid c BillingRecoveryOperationSettle)"
    unfolding adjustmentTx_def firstRecovery_def
  proof (rule session.keeps_first, goal_cases)
    case (1 d r)
    then have "brSettlementDelta r = delta" if "brStatus r = BillingRecoveryStatusSettlementPending"
      using that by (auto simp: walletRow_def intends_def)
    note step = keeps_applyAdjustment [OF this c, of rid acct f]
    show ?case
      by (intro session.framed_intros session.framed_db_caching [OF caching_firstM] step) (use c in auto)
  qed
  then show ?thesis
    unfolding ApplyBillingRecoveryAdjustment_def
    by (intro session.framed_intros session.keeps_withMutation)
qed

lemma walletRow_mono: "walletRow P rid acct f delta d \<Longrightarrow> (\<And>r. P r \<Longrightarrow> Q r) \<Longrightarrow> walletRow Q rid acct f delta d"
  by (auto simp: walletRow_def)

lemma announce_settlement:
  assumes "walletRow (\<lambda>_. True) rid acct f delta (db w)"
  shows "wp (UpdateBillingRecoverySettlement rid delta)
    (\<lambda>_ w'. walletRow (intends delta) rid acct f delta (db w'))
    (\<lambda>_ w'. walletRow (\<lambda>_. True) rid acct f delta (db w')) w"
proof -
  obtain r where r: "recoveries (db w) rid = Some r" using assms by (auto simp: walletRow_def)
  show ?thesis
    using assms unfolding UpdateBillingRecoverySettlement_def updRecovery_def firstRecovery_def
    by (auto simp: wp_simps r walletRow_def intends_def affected_def split: fate.split if_splits)
qed

lemma mark_settled:
  assumes "walletRow (intends delta) rid acct f delta (db w)"
  shows "wp (MarkBillingRecoverySettled rid)
    (\<lambda>_ w'. walletRow (\<lambda>r. brStatus r = BillingRecoveryStatusSettled) rid acct f delta (db w'))
    (\<lambda>_ w'. walletRow (intends delta) rid acct f delta (db w')) w"
proof -
  obtain r where r: "recoveries (db w) rid = Some r" using assms by (auto simp: walletRow_def)
  show ?thesis
    using assms unfolding MarkBillingRecoverySettled_def updRecovery_def firstRecovery_def
    by (auto simp: wp_simps r walletRow_def intends_def split: fate.split if_splits)
qed

section \<open>A settled wallet session costs what was asked for\<close>

lemma wp_liftM: "wp (liftM m) Q E s = wp m (\<lambda>x w. Q x (s\<lparr>rWorld := w\<rparr>)) (\<lambda>e w. E e (s\<lparr>rWorld := w\<rparr>)) (rWorld s)"
  by (auto simp: wp_def liftM_def split: prod.splits sum.splits)

lemmas relay_simps = wp_simps wp_liftM setSession_def setInfo_def stopRecoveryHeartbeat_def

text \<open>What the wallet of a user and a request have together.\<close>

definition paid :: "string \<Rightarrow> int \<Rightarrow> world \<Rightarrow> int" where
  "paid rid u w = userBal w u + (if ownerIs (absL w) rid u then walletCharge (absL w) rid else 0)"

lemma absStep_paid:
  assumes "absStep rid w w'" "awf (absL w)"
  shows "paid rid u w' = paid rid u w"
proof (cases "absL w' = absL w")
  case True
  then show ?thesis by (simp add: paid_def absL_bal [symmetric])
next
  case False
  with assms(1) have step: "astep rid (absL w) (absL w')" by (simp add: absStep_def)
  have "ownerIs (absL w) rid u = ownerIs (absL w') rid u \<or> walletCharge (absL w) rid = 0 \<and> \<not> ownerIs (absL w) rid u"
    using astep_owner [OF step] by (cases "lRec (absL w) rid") (auto simp: walletCharge_def ownerIs_iff)
  with astep_charge [OF step assms(2), of u] show ?thesis
    by (auto simp: paid_def absL_bal [symmetric])
qed

definition sound :: "string \<Rightarrow> int \<times> int \<Rightarrow> world \<Rightarrow> bool" where
  "sound rid acct w \<longleftrightarrow> recoveryOk w \<and> noLost w \<and> paid rid (fst acct) w = snd acct"

lemma sound_call:
  assumes "sound rid acct w" "callOk c (db w)" "callId c = rid"
  shows "wp (call c) (\<lambda>_. sound rid acct) (\<lambda>_. sound rid acct) w"
proof -
  have "paid rid (fst acct) (snd (call c w)) = paid rid (fst acct) w"
    using call_absStep [of w c] assms by (intro absStep_paid) (auto simp: sound_def recoveryOk_def)
  with call_ok [of w c] assms show ?thesis by (auto simp: sound_def wp_def split: prod.splits sum.splits)
qed

definition soundRow :: "(BillingRecovery \<Rightarrow> bool) \<Rightarrow> string \<Rightarrow> int \<times> int \<Rightarrow> int \<Rightarrow> int \<Rightarrow> world \<Rightarrow> bool" where
  "soundRow P rid acct f delta w \<longleftrightarrow> sound rid acct w \<and> walletRow P rid acct f delta (db w)"

lemma soundRow_call:
  assumes "soundRow P rid acct f delta w" "call c = m" "callOk c (db w)" "callId c = rid"
    and "wp m (\<lambda>_ w'. walletRow Q rid acct f delta (db w')) (\<lambda>_ w'. walletRow R rid acct f delta (db w')) w"
  shows "wp m (\<lambda>_. soundRow Q rid acct f delta) (\<lambda>_. soundRow R rid acct f delta) w"
proof -
  have "wp m (\<lambda>_. sound rid acct) (\<lambda>_. sound rid acct) w"
    using sound_call [of rid acct w c] assms(1-4) by (simp add: soundRow_def)
  from wp_conj [OF this assms(5)] show ?thesis by (rule wp_mono) (simp_all add: soundRow_def)
qed

lemma settle_calls:
  "soundRow (\<lambda>_. True) rid acct f delta w \<Longrightarrow> wp (UpdateBillingRecoverySettlement rid delta)
     (\<lambda>_. soundRow (intends delta) rid acct f delta) (\<lambda>_. soundRow (\<lambda>_. True) rid acct f delta) w"
  "soundRow (intends delta) rid acct f delta w \<Longrightarrow> c = BillingRecoveryComponentFunding \<or> c = BillingRecoveryComponentToken \<Longrightarrow>
     wp (ApplyBillingRecoveryAdjustment rid c BillingRecoveryOperationSettle)
     (\<lambda>_. soundRow (intends delta) rid acct f delta) (\<lambda>_. soundRow (intends delta) rid acct f delta) w"
  "soundRow (intends delta) rid acct f delta w \<Longrightarrow> wp (MarkBillingRecoverySettled rid)
     (\<lambda>_. soundRow (\<lambda>r. brStatus r = BillingRecoveryStatusSettled) rid acct f delta)
     (\<lambda>_. soundRow (intends delta) rid acct f delta) w"
proof -
  show "wp (UpdateBillingRecoverySettlement rid delta)
     (\<lambda>_. soundRow (intends delta) rid acct f delta) (\<lambda>_. soundRow (\<lambda>_. True) rid acct f delta) w"
    if "soundRow (\<lambda>_. True) rid acct f delta w"
    using that by (intro soundRow_call [OF that, where c = "Settlement rid delta"] announce_settlement)
      (simp_all add: soundRow_def)
  show "wp (ApplyBillingRecoveryAdjustment rid c BillingRecoveryOperationSettle)
     (\<lambda>_. soundRow (intends delta) rid acct f delta) (\<lambda>_. soundRow (intends delta) rid acct f delta) w"
    if "soundRow (intends delta) rid acct f delta w" "c = BillingRecoveryComponentFunding \<or> c = BillingRecoveryComponentToken"
    using that keeps_settlement [OF that(2), of delta rid acct f, unfolded framed_wp, rule_format, of w]
    by (intro soundRow_call [OF that(1), where c = "Adjust rid c BillingRecoveryOperationSettle"])
      (simp_all add: soundRow_def)
  show "wp (MarkBillingRecoverySettled rid)
     (\<lambda>_. soundRow (\<lambda>r. brStatus r = BillingRecoveryStatusSettled) rid acct f delta)
     (\<lambda>_. soundRow (intends delta) rid acct f delta) w"
    if "soundRow (intends delta) rid acct f delta w"
    using that by (intro soundRow_call [OF that, where c = "Settled rid"] mark_settled) (simp_all add: soundRow_def)
qed

text \<open>A session on such a row.\<close>

definition onRow :: "(BillingRecovery \<Rightarrow> bool) \<Rightarrow> string \<Rightarrow> int \<times> int \<Rightarrow> int \<Rightarrow> int \<Rightarrow> relay \<Rightarrow> bool" where
  "onRow P rid acct f delta s \<longleftrightarrow> soundRow P rid acct f delta (rWorld s) \<and> bsRecoveryID (rSession s) = rid \<and>
     bsPreConsumedQuota (rSession s) = f"

lemma finishSettle_row:
  assumes "onRow (intends delta) rid acct f delta s" "rid \<noteq> []"
  shows "wp (finishSettle rid) (\<lambda>_. onRow (\<lambda>r. brStatus r = BillingRecoveryStatusSettled) rid acct f delta)
    (\<lambda>_ s'. onRow (intends delta) rid acct f delta s' \<and> \<not> bsSettled (rSession s')) s"
  using assms unfolding finishSettle_def
  by (auto simp: relay_simps onRow_def intro!: wp_mono [OF settle_calls(3)])

lemma onRow_mono: "onRow P rid acct f delta s \<Longrightarrow> (\<And>r. P r \<Longrightarrow> Q r) \<Longrightarrow> onRow Q rid acct f delta s"
  using walletRow_mono [of P rid acct f delta _ Q] by (auto simp: onRow_def soundRow_def)

lemma onRow_upd [simp]:
  "onRow P rid acct f delta (s\<lparr>rInfo := i\<rparr>) = onRow P rid acct f delta s"
  "onRow P rid acct f delta (s\<lparr>rSession := (rSession s)\<lparr>bsFundingSettled := b\<rparr>\<rparr>) = onRow P rid acct f delta s"
  by (simp_all add: onRow_def)

lemma onRow_settle:
  assumes "onRow (intends delta) rid acct f delta s" "c = BillingRecoveryComponentFunding \<or> c = BillingRecoveryComponentToken"
  shows "wp (liftM (ApplyBillingRecoveryAdjustment rid c BillingRecoveryOperationSettle))
    (\<lambda>_. onRow (intends delta) rid acct f delta) (\<lambda>_. onRow (intends delta) rid acct f delta) s"
  using assms unfolding wp_liftM by (auto simp: onRow_def intro!: wp_mono [OF settle_calls(2)])

lemma seqM_assoc: "seqM (seqM m n) k = seqM m (seqM n k)"
  by (auto simp: seqM_def bindM_def fun_eq_iff split: prod.split sum.split)

lemma wp_modify_seq: "wp (seqM (modifyM f) k) Q E s = wp k Q E (f s)"
  by (simp add: wp_seqM wp_modifyM)

abbreviation (input) failedRow :: "string \<Rightarrow> int \<times> int \<Rightarrow> int \<Rightarrow> int \<Rightarrow> err \<Rightarrow> relay \<Rightarrow> bool" where
  "failedRow rid acct f delta e s \<equiv> onRow (\<lambda>_. True) rid acct f delta s \<and> \<not> bsSettled (rSession s)"

lemma finishSettle_ends:
  assumes "onRow (intends delta) rid acct f delta s" "rid \<noteq> []"
  shows "wp (finishSettle rid) (\<lambda>_. onRow (\<lambda>r. brStatus r = BillingRecoveryStatusSettled) rid acct f delta)
    (failedRow rid acct f delta) s"
  by (rule wp_mono [OF finishSettle_row [OF assms]]) (auto intro: onRow_mono)

lemma settle_step:
  assumes "onRow (intends delta) rid acct f delta s" "\<not> bsSettled (rSession s)"
    "c = BillingRecoveryComponentFunding \<or> c = BillingRecoveryComponentToken"
    and "\<And>s'. onRow (intends delta) rid acct f delta s' \<Longrightarrow> \<not> bsSettled (rSession s') \<Longrightarrow> wp m Q (failedRow rid acct f delta) s'"
  shows "wp (seqM (liftM (ApplyBillingRecoveryAdjustment rid c BillingRecoveryOperationSettle)) m) Q
    (failedRow rid acct f delta) s"
proof -
  have "wp (liftM (ApplyBillingRecoveryAdjustment rid c BillingRecoveryOperationSettle))
      (\<lambda>_ s'. onRow (intends delta) rid acct f delta s' \<and> \<not> bsSettled (rSession s'))
      (\<lambda>_ s'. onRow (intends delta) rid acct f delta s' \<and> \<not> bsSettled (rSession s')) s"
    using onRow_settle [OF assms(1,3)] assms(2) by (simp add: wp_liftM)
  then show ?thesis unfolding wp_seqM by (rule wp_mono) (auto intro: onRow_mono assms(4))
qed

lemma settleToken_row:
  assumes "onRow (intends delta) rid acct f delta s" "\<not> bsSettled (rSession s)" "rid \<noteq> []"
    and "\<And>s'. onRow (intends delta) rid acct f delta s' \<Longrightarrow> \<not> bsSettled (rSession s') \<Longrightarrow> wp m Q E s'"
  shows "wp (seqM (settleToken rid delta) m) Q E s"
proof -
  have "wp (liftM (ApplyBillingRecoveryAdjustment rid BillingRecoveryComponentToken BillingRecoveryOperationSettle))
      (\<lambda>_ s'. onRow (intends delta) rid acct f delta s' \<and> \<not> bsSettled (rSession s'))
      (\<lambda>_ s'. onRow (intends delta) rid acct f delta s' \<and> \<not> bsSettled (rSession s')) s"
    using onRow_settle [OF assms(1), of BillingRecoveryComponentToken] assms(2) by (simp add: wp_liftM)
  then have "wp (settleToken rid delta) (\<lambda>_ s'. onRow (intends delta) rid acct f delta s' \<and> \<not> bsSettled (rSession s')) E s"
    unfolding settleToken_def wp_bindM wp_getsM wp_if wp_ignoreM using assms(3) by (auto elim: wp_mono)
  then show ?thesis unfolding wp_seqM by (rule wp_mono) (auto intro: assms(4))
qed

lemma Settle_row:
  assumes row: "onRow (\<lambda>_. True) rid acct f (actual - f) s" and open_: "\<not> bsSettled (rSession s)" and rid: "rid \<noteq> []"
  shows "wp (Settle actual) (\<lambda>_. onRow (\<lambda>r. brStatus r = BillingRecoveryStatusSettled) rid acct f (actual - f))
    (failedRow rid acct f (actual - f)) s"
proof -
  let ?delta = "actual - f"
  let ?Q = "\<lambda>_ :: unit. onRow (\<lambda>r. brStatus r = BillingRecoveryStatusSettled) rid acct f ?delta"
  have ids: "bsRecoveryID (rSession s) = rid" "bsPreConsumedQuota (rSession s) = f" using row by (simp_all add: onRow_def)
  have announce: "wp (liftM (UpdateBillingRecoverySettlement rid ?delta))
      (\<lambda>_ s'. onRow (intends ?delta) rid acct f ?delta s' \<and> rSession s' = rSession s) (failedRow rid acct f ?delta) s"
    using row open_ unfolding wp_liftM by (auto simp: onRow_def intro!: wp_mono [OF settle_calls(1)])
  have zero: "wp (seqM (seqM (liftM (ApplyBillingRecoveryAdjustment rid BillingRecoveryComponentFunding BillingRecoveryOperationSettle))
        (liftM (ApplyBillingRecoveryAdjustment rid BillingRecoveryComponentToken BillingRecoveryOperationSettle)))
        (finishSettle rid)) ?Q (failedRow rid acct f ?delta) s1"
    if "onRow (intends ?delta) rid acct f ?delta s1" "\<not> bsSettled (rSession s1)" for s1
    unfolding seqM_assoc
    by (rule settle_step [OF that]; (rule settle_step)?) (simp_all add: finishSettle_ends rid)
  have rest: "wp (seqM (settleToken rid ?delta) (seqM (whenM b (setInfo g)) (finishSettle rid))) ?Q (failedRow rid acct f ?delta) s1"
    if "onRow (intends ?delta) rid acct f ?delta s1" "\<not> bsSettled (rSession s1)" for s1 b g
    by (rule settleToken_row [OF that rid]) (simp add: relay_simps finishSettle_ends rid)
  have funding: "wp (seqM (whenM b0 (seqM
        (liftM (ApplyBillingRecoveryAdjustment rid BillingRecoveryComponentFunding BillingRecoveryOperationSettle))
        (setSession (\<lambda>s. s\<lparr>bsFundingSettled := True\<rparr>))))
      (seqM (settleToken rid ?delta) (seqM (whenM b (setInfo g)) (finishSettle rid)))) ?Q (failedRow rid acct f ?delta) s1"
    if "onRow (intends ?delta) rid acct f ?delta s1" "\<not> bsSettled (rSession s1)" for s1 b0 b g
  proof (cases b0)
    case True
    then have "whenM b0 m = m" for m :: "unit relayM" by (simp add: whenM_def)
    then show ?thesis
      by (simp only: seqM_assoc)
        (rule settle_step [OF that], simp, simp add: setSession_def wp_modify_seq rest)
  next
    case False
    then have "seqM (whenM b0 m) k = k" for m k :: "unit relayM" by (simp add: whenM_def seqM_def bindM_def retM_def)
    then show ?thesis by (simp only: rest [OF that])
  qed
  have rows: "whenM (rid \<noteq> []) m = m" for m :: "unit relayM" using rid by (simp add: whenM_def)
  have announced: "wp (seqM (liftM (UpdateBillingRecoverySettlement rid ?delta)) m) ?Q (failedRow rid acct f ?delta) s"
    if "\<And>s1. onRow (intends ?delta) rid acct f ?delta s1 \<Longrightarrow> \<not> bsSettled (rSession s1) \<Longrightarrow>
      wp m ?Q (failedRow rid acct f ?delta) s1" for m
    unfolding wp_seqM by (rule wp_mono [OF announce]) (use that open_ in auto)
  show ?thesis
    unfolding Settle_def wp_bindM wp_getsM Let_def ids rows wp_if
    by (simp only: open_ rid if_False if_True not_False_eq_True)
      (rule announced, unfold wp_if, intro if_bool_eq_conj [THEN iffD2] conjI impI zero funding)
qed

section \<open>Opening and extending a wallet session\<close>

definition activeRow :: "string \<Rightarrow> int \<times> int \<Rightarrow> int \<Rightarrow> db \<Rightarrow> bool" where
  "activeRow rid acct f d \<longleftrightarrow> (\<exists>r. recoveries d rid = Some r \<and> brSource r = ''wallet'' \<and> brUserID r = fst acct \<and>
     brFundingAmount r = f \<and> brStatus r = BillingRecoveryStatusActive)"

definition ownedRow :: "string \<Rightarrow> int \<times> int \<Rightarrow> db \<Rightarrow> bool" where
  "ownedRow rid acct d \<longleftrightarrow> (\<exists>r. recoveries d rid = Some r \<and> brUserID r = fst acct)"

lemma activeRow_unsettled:
  assumes "sound rid acct w" "activeRow rid acct f (db w)"
  shows "soundRow (\<lambda>_. True) rid acct f delta w"
proof -
  obtain r where r: "recoveries (db w) rid = Some r" "brStatus r = BillingRecoveryStatusActive"
    "brSource r = ''wallet''" "brUserID r = fst acct" "brFundingAmount r = f"
    using assms(2) by (auto simp: activeRow_def)
  have "lRec (absL w) rid = Some (core r)" using r(1) by (simp add: absL_row)
  with assms(1) have "rowOk (absL w) rid (core r)" by (auto simp: sound_def recoveryOk_def intro: awf_row)
  then have "\<not> settleMarked (absL w) rid" using r(2) by (auto simp: rowOk_def)
  then have "adjustments (db w) (rid, BillingRecoveryComponentFunding, BillingRecoveryOperationSettle) = None"
    by (simp add: settleMarked_def marked_def absL_adj)
  with r assms(1) show ?thesis by (simp add: soundRow_def walletRow_def)
qed

lemma Ensure_owned:
  assumes "recoveries (db w) rid = None" "noLost w" "inRequestID input = rid" "inUserID input = fst acct"
  shows "wpOk (EnsureBillingRecovery input) (\<lambda>_ w'. ownedRow rid acct (db w')) w"
proof -
  have "fateNow (tick w) \<noteq> FLost" using assms(2) by (simp add: noLost_def fateNow_def)
  with assms show ?thesis
    unfolding EnsureBillingRecovery_def createRecovery_def firstRecovery_def
    by (auto simp: wp_simps Let_def ownedRow_def recoveryOfInput_def BillingRecovery_BeforeCreate_def split: fate.split)
qed

text \<open>A step that leaves the row of the request alone, followed by one that needs it.\<close>

interpretation fixedRow: row_inv "\<lambda>d. recoveries d rid = Some r" for rid r
  by unfold_locales auto

lemma wpOk_fixedRow:
  assumes "framed (\<lambda>w w'. recoveries (db w) rid = Some r \<longrightarrow> recoveries (db w') rid = Some r) m"
    and "recoveries (db w) rid = Some r" "\<And>w'. recoveries (db w') rid = Some r \<Longrightarrow> wpOk n Q w'"
  shows "wpOk (seqM m n) Q w"
proof (rule wpOk_seq)
  show "wpOk m (\<lambda>_ w'. recoveries (db w') rid = Some r) w"
    using assms(1,2) by (auto simp: framed_def wp_def split: prod.splits sum.splits)
qed (rule assms(3))

lemma fixedRow_charges:
  "framed (\<lambda>w w'. recoveries (db w) rid = Some r \<longrightarrow> recoveries (db w') rid = Some r) (chargeTokenTx t q unl)"
  "framed (\<lambda>w w'. recoveries (db w) rid = Some r \<longrightarrow> recoveries (db w') rid = Some r)
     (bindM (updUser i P g) (\<lambda>n. if n \<noteq> 1 then throwM e else retM ()))"
  unfolding chargeTokenTx_def
  by (intro fixedRow.framed_intros fixedRow.framed_db_caching [OF caching_nowM] fixedRow.keeps_quota)+

lemma PreConsume_active:
  assumes "ownedRow rid acct (db w)"
  shows "wpOk (PreConsumeWalletBillingRecovery rid q unl) (\<lambda>_ w'. activeRow rid acct q (db w')) w"
proof -
  have body: "wpOk (preConsumeWalletTx rid q unl) (\<lambda>_ w'. activeRow rid acct q (db w')) w1"
    if owned: "ownedRow rid acct (db w1)" for w1
  proof -
    obtain r where r: "recoveries (db w1) rid = Some r" "brUserID r = fst acct" using owned by (auto simp: ownedRow_def)
    have "wpOk (preConsumeChargeTx rid r q unl) (\<lambda>_ w'. activeRow rid acct q (db w')) w2"
      if "recoveries (db w2) rid = Some r" "brSource r = ''wallet''" "brStatus r = BillingRecoveryStatusActive" for w2
      unfolding preConsumeChargeTx_def
      by (intro wpOk_fixedRow [OF fixedRow.framed_whenM [OF fixedRow_charges(1)] that(1)]
          wpOk_fixedRow [OF fixedRow.framed_whenM [OF fixedRow_charges(2)]])
        (use r that in \<open>auto simp: updRecovery_def wp_simps activeRow_def split: fate.split option.split\<close>)
    with r show ?thesis
      by (auto simp: preConsumeWalletTx_def firstRecovery_def wp_simps activeRow_def split: fate.split)
  qed
  have "wpOk (seqM (applyPendingDeltas m) (preConsumeWalletTx rid q unl)) (\<lambda>_ w'. activeRow rid acct q (db w')) (tick w1)"
    if "tookPending m w w1" for m w1
    by (rule wpOk_seq [OF apply_pending_block], rule body)
      (use assms that in \<open>auto simp: ownedRow_def sameRows_def tookPending_def\<close>)
  from withMutation_ok [OF this] show ?thesis
    unfolding PreConsumeWalletBillingRecovery_def wp_if wp_throwM wp_transaction
    using body [of "tick w"] assms by (auto split: fate.split elim!: wp_mono)
qed

lemma Amounts_active:
  assumes "activeRow rid acct f (db w)"
  shows "wpOk (UpdateBillingRecoveryAmounts rid i f x n) (\<lambda>_ w'. activeRow rid acct f (db w')) w"
proof -
  obtain r where r: "recoveries (db w) rid = Some r" using assms by (auto simp: activeRow_def)
  show ?thesis
    using assms unfolding UpdateBillingRecoveryAmounts_def firstRecovery_def updRecovery_def
    by (auto simp: wp_simps r activeRow_def split: fate.split)
qed

lemma Reserve_active:
  assumes "activeRow rid acct f (db w)"
  shows "wpOk (ReserveBillingRecovery rid n x unl) (\<lambda>a w'. 0 \<le> a \<and> activeRow rid acct (f + a) (db w')) w"
proof -
  have body: "wpOk (reserveTx rid n unl) (\<lambda>a w'. 0 \<le> a \<and> activeRow rid acct (f + a) (db w')) w1"
    if active: "activeRow rid acct f (db w1)" for w1
  proof -
    obtain r where r: "recoveries (db w1) rid = Some r" "brSource r = ''wallet''" "brUserID r = fst acct"
      "brFundingAmount r = f" "brStatus r = BillingRecoveryStatusActive" using active by (auto simp: activeRow_def)
    have "wpOk (reserveDeltaTx rid r k delta unl) (\<lambda>a w'. 0 \<le> a \<and> activeRow rid acct (f + a) (db w')) w2"
      if "recoveries (db w2) rid = Some r" "0 < delta" for w2 k delta
      unfolding reserveDeltaTx_def
      by (intro wpOk_fixedRow [OF fixedRow.framed_whenM [OF fixedRow_charges(1)]] wpOk_fixedRow [OF _ that(1)])
        (use r that in \<open>auto simp: fixedRow_charges updRecovery_def createAdjustment_def wp_simps activeRow_def
          split: fate.split option.split\<close>)
    with r show ?thesis
      by (auto simp: reserveTx_def firstRecovery_def wp_simps Let_def activeRow_def split: fate.split option.split)
  qed
  have "wpOk (seqM (applyPendingDeltas m) (reserveTx rid n unl)) (\<lambda>a w'. 0 \<le> a \<and> activeRow rid acct (f + a) (db w')) (tick w1)"
    if "tookPending m w w1" for m w1
    by (rule wpOk_seq [OF apply_pending_block], rule body)
      (use assms that in \<open>auto simp: activeRow_def sameRows_def tookPending_def\<close>)
  then show ?thesis
    unfolding ReserveBillingRecovery_def wp_if wp_throwM by (auto intro: withMutation_ok)
qed

definition walletSession :: "string \<Rightarrow> int \<Rightarrow> BillingSession \<Rightarrow> bool" where
  "walletSession rid f b \<longleftrightarrow> bsRecoveryID b = rid \<and> bsPreConsumedQuota b = f \<and> \<not> bsSettled b \<and>
     (\<exists>wallet. bsFunding b = FWallet wallet \<and> wfConsumed wallet = f)"

definition openOn :: "string \<Rightarrow> int \<times> int \<Rightarrow> int \<Rightarrow> relay \<Rightarrow> bool" where
  "openOn rid acct f s \<longleftrightarrow> sound rid acct (rWorld s) \<and> activeRow rid acct f (db (rWorld s)) \<and> walletSession rid f (rSession s)"

lemma openOn_info [simp]: "openOn rid acct f (s\<lparr>rInfo := i\<rparr>) = openOn rid acct f s"
  by (simp add: openOn_def)

lemma wp_syncRelayInfo: "(\<And>i. Q () (s\<lparr>rInfo := i\<rparr>)) \<Longrightarrow> wp syncRelayInfo Q E s"
  by (simp add: syncRelayInfo_def setInfo_def wp_simps)

lemma preConsumeWallet_opens:
  assumes "sound rid acct (rWorld s)" "ownedRow rid acct (db (rWorld s))" "bsRecoveryID (rSession s) = rid"
    "bsFunding (rSession s) = FWallet wallet" "\<not> bsSettled (rSession s)"
  shows "wp (preConsumeWallet q) (\<lambda>_. openOn rid acct q) (\<lambda>_ _. True) s"
proof -
  have "wp (PreConsumeWalletBillingRecovery rid q unl) (\<lambda>_ w. sound rid acct w \<and> activeRow rid acct q (db w)) (\<lambda>_ _. True) (rWorld s)"
    for unl
    by (rule wp_mono [OF wp_conj [OF sound_call [OF assms(1), of "PreConsume rid q unl", simplified]
        PreConsume_active [OF assms(2)]]]) simp_all
  then show ?thesis
    unfolding preConsumeWallet_def wp_bindM wp_getsM wp_tryM wp_liftM assms(3)
    by (rule wp_mono)
      (auto simp: wp_seqM wp_modifyM setSession_def assms(4,5) assms(3) openOn_def walletSession_def wp_if wp_throwM
        wp_ignoreM intro!: wp_syncRelayInfo wp_mono [OF wpI [where Q = "\<lambda>_ _. True" and E = "\<lambda>_ _. True"]])
qed

lemma wp_shouldTrust: "(\<And>b. Q b s) \<Longrightarrow> wp shouldTrust Q E s"
  by (simp add: shouldTrust_def wp_simps wp_liftM)

lemma preConsume_opens:
  assumes "sound rid acct (rWorld s)" "ownedRow rid acct (db (rWorld s))" "bsRecoveryID (rSession s) = rid"
    "bsFunding (rSession s) = FWallet wallet" "\<not> bsSettled (rSession s)" "rid \<noteq> []"
  shows "wp (preConsume loc quota) (\<lambda>_ s'. \<exists>f. openOn rid acct f s') (\<lambda>_ _. True) s"
  unfolding preConsume_def wp_bindM
  by (rule wp_shouldTrust)
    (use assms in \<open>auto simp: Let_def wp_simps setSession_def wp_seqM
      intro!: wp_mono [OF preConsumeWallet_opens [where rid = rid and acct = acct and wallet = wallet]]\<close>)

lemma syncRecovery_keeps:
  assumes "openOn rid acct f s"
  shows "wp syncRecovery (\<lambda>_. openOn rid acct f) (\<lambda>_ _. True) s"
proof -
  obtain wallet where s: "bsRecoveryID (rSession s) = rid" "bsFunding (rSession s) = FWallet wallet" "wfConsumed wallet = f"
    using assms by (auto simp: openOn_def walletSession_def)
  have row: "sound rid acct (rWorld s)" "activeRow rid acct f (db (rWorld s))" using assms by (simp_all add: openOn_def)
  have "callOk (Amounts rid i f x n) (db (rWorld s))" for i x n using row(2) by (auto simp: activeRow_def)
  from wp_conj [OF sound_call [OF row(1) this, simplified] Amounts_active [OF row(2)]]
  have "wp (UpdateBillingRecoveryAmounts rid i f x n) (\<lambda>_ w. sound rid acct w \<and> activeRow rid acct f (db w)) (\<lambda>_ _. True) (rWorld s)"
    for i x n by (rule wp_mono) simp_all
  then show ?thesis
    using assms unfolding syncRecovery_def
    by (auto simp: wp_simps wp_liftM Let_def s openOn_def elim!: wp_mono)
qed

lemma ensure_owns:
  assumes "sound rid acct (rWorld s)" "recoveries (db (rWorld s)) rid = None" "bsRecoveryID (rSession s) = rid"
    "riUserId (rInfo s) = fst acct"
  shows "wp ensureBillingRecovery (\<lambda>_ s'. sound rid acct (rWorld s') \<and> ownedRow rid acct (db (rWorld s')) \<and>
    rSession s' = rSession s) (\<lambda>_ _. True) s"
proof -
  have call: "wp (EnsureBillingRecovery input) (\<lambda>_ w. sound rid acct w \<and> ownedRow rid acct (db w)) (\<lambda>_ _. True) (rWorld s)"
    if "inRequestID input = rid" "inUserID input = fst acct" "inFundingAmount input = 0" "inTokenAmount input = 0" for input
  proof -
    have "callOk (Ensure input) (db (rWorld s))" using that assms(2) by (simp add: mayRebind_def)
    from sound_call [OF assms(1) this] that(1)
    have "wp (EnsureBillingRecovery input) (\<lambda>_. sound rid acct) (\<lambda>_. sound rid acct) (rWorld s)"
      by (simp add: wp_bindM wp_retM)
    from wp_conj [OF this Ensure_owned [OF assms(2) _ that(1,2)]] assms(1) show ?thesis
      by (auto simp: sound_def elim!: wp_mono)
  qed
  show ?thesis
    unfolding ensureBillingRecovery_def
    by (auto simp: wp_simps wp_liftM assms(3,4) intro!: wp_mono [OF call])
qed

lemma wpOk_relay: "wp (m :: 'a relayM) (\<lambda>_ _. True) (\<lambda>_ _. True) = (\<lambda>_. True)"
  by (simp add: wp_def fun_eq_iff split: sum.split prod.split)

lemma wp_try_then:
  "wp m (\<lambda>x. wp (f (Inr x)) Q E) (\<lambda>e. wp (f (Inl e)) Q E) s \<Longrightarrow> wp (bindM (tryM m) f) Q E s"
  by (simp add: wp_bindM wp_tryM)

lemma openSession_opens:
  assumes "sound rid acct (rWorld s)" "recoveries (db (rWorld s)) rid = None" "riUserId (rInfo s) = fst acct"
    "bsRecoveryID (rSession s) = rid" "bsFunding (rSession s) = FWallet wallet" "\<not> bsSettled (rSession s)" "rid \<noteq> []"
  shows "wp (openSession loc quota) (\<lambda>_ s'. \<exists>f. openOn rid acct f s') (\<lambda>_ _. True) s"
proof -
  have synced: "wp (bindM (tryM syncRecovery) (\<lambda>r. case r of
      Inl e \<Rightarrow> bindM (getsM (bsRecoveryID \<circ> rSession)) (\<lambda>rid.
        seqM (ignoreM (liftM (MarkBillingRecoveryRefundPending rid (Some e))))
          (seqM Refund (throwM (NewError e ErrorCodeUpdateDataError))))
    | Inr _ \<Rightarrow> startRecoveryHeartbeat)) (\<lambda>_ s'. \<exists>f. openOn rid acct f s') (\<lambda>_ _. True) s1"
    if "openOn rid acct f s1" for f s1
    unfolding wp_bindM wp_tryM
    by (rule wp_mono [OF syncRecovery_keeps [OF that]])
      (auto simp: startRecoveryHeartbeat_def setSession_def wp_modifyM openOn_def walletSession_def wp_getsM wp_seqM
        wp_bindM wp_throwM wpOk_relay)
  have opened: "wp (bindM (tryM (preConsume loc quota)) (\<lambda>r. case r of
      Inl apiErr \<Rightarrow> seqM (recordBillingPreConsumeFailure (apiCause apiErr)) (throwM apiErr)
    | Inr _ \<Rightarrow> bindM (tryM syncRecovery) (\<lambda>r. case r of
        Inl e \<Rightarrow> bindM (getsM (bsRecoveryID \<circ> rSession)) (\<lambda>rid.
          seqM (ignoreM (liftM (MarkBillingRecoveryRefundPending rid (Some e))))
            (seqM Refund (throwM (NewError e ErrorCodeUpdateDataError))))
      | Inr _ \<Rightarrow> startRecoveryHeartbeat))) (\<lambda>_ s'. \<exists>f. openOn rid acct f s') (\<lambda>_ _. True) s1"
    if "sound rid acct (rWorld s1)" "ownedRow rid acct (db (rWorld s1))" "rSession s1 = rSession s" for s1
  proof (rule wp_try_then, rule wp_mono [OF preConsume_opens [OF that(1,2)]])
    show "bsRecoveryID (rSession s1) = rid" "bsFunding (rSession s1) = FWallet wallet" "\<not> bsSettled (rSession s1)"
      "rid \<noteq> []" using that(3) assms(4-7) by simp_all
  qed (unfold sum.case, auto simp: wp_seqM wp_throwM wpOk_relay intro: synced)
  show ?thesis
    unfolding openSession_def
    by (rule wp_try_then, rule wp_mono [OF ensure_owns [OF assms(1,2,4,3)]]; unfold sum.case)
      (simp_all add: opened wp_throwM)
qed

lemma sound_caching: "cacheOnly w w' \<Longrightarrow> sound rid acct w \<Longrightarrow> sound rid acct w'"
  using cacheOnly_absL [of w w'] sameSettings_faults(1) [of w w']
  by (auto simp: sound_def recoveryOk_def cacheOnly_def paid_def absL_bal [symmetric] split: if_splits)

lemma tryWallet_opens:
  assumes "sound rid acct (rWorld s)" "recoveries (db (rWorld s)) rid = None" "riUserId (rInfo s) = fst acct"
    "riRequestId (rInfo s) = rid" "rid \<noteq> []"
  shows "wp (tryWallet loc quota) (\<lambda>_ s'. \<exists>f. openOn rid acct f s') (\<lambda>_ _. True) s"
proof -
  have quota: "wp (GetUserQuota i b) (\<lambda>_. cacheOnly (rWorld s)) (\<lambda>_. cacheOnly (rWorld s)) (rWorld s)" for i b
    using caching_GetUserQuota [of i b] by (simp add: framed_wp)
  have opened: "wp (seqM (setInfo (\<lambda>i. i\<lparr>riUserQuota := userQuota\<rparr>))
      (seqM (setSession (\<lambda>_. newSession (FWallet wallet) rid)) (openSession loc quota)))
      (\<lambda>_ s'. \<exists>f. openOn rid acct f s') (\<lambda>_ _. True) (s\<lparr>rWorld := w\<rparr>)" if "cacheOnly (rWorld s) w" for w userQuota wallet
    unfolding setInfo_def setSession_def wp_modify_seq
    by (rule openSession_opens [where wallet = wallet])
      (use that assms sound_caching [OF that assms(1)] in \<open>simp_all add: cacheOnly_def newSession_def\<close>)
  show ?thesis
    unfolding tryWallet_def wp_bindM [of "getsM rInfo"] wp_getsM assms(4)
    by (rule wp_try_then, unfold wp_liftM, rule wp_mono [OF quota]; unfold sum.case)
      (simp_all add: wp_throwM wp_if opened)
qed

text \<open>The state between the calls: the relay info carries the session.\<close>

definition billingOn :: "string \<Rightarrow> int \<times> int \<Rightarrow> relay \<Rightarrow> bool" where
  "billingOn rid acct s \<longleftrightarrow> (\<exists>f b. sound rid acct (rWorld s) \<and> activeRow rid acct f (db (rWorld s)) \<and>
     riBilling (rInfo s) = Some b \<and> walletSession rid f b)"

lemma billingOn_session: "openOn rid acct f s \<Longrightarrow> billingOn rid acct (s\<lparr>rInfo := (rInfo s)\<lparr>riBilling := Some (rSession s)\<rparr>\<rparr>)"
  by (auto simp: openOn_def billingOn_def)

lemma Prepare_opens:
  assumes "sound rid acct (rWorld s)" "recoveries (db (rWorld s)) rid = None" "riUserId (rInfo s) = fst acct"
    "riRequestId (rInfo s) = rid" "TrimSpace rid \<noteq> []" "riBilling (rInfo s) = None" "\<not> riFreeModel (rInfo s)"
    "NormalizeBillingPreference (riBillingPreference (rInfo s)) = ''wallet_only''"
  shows "wp (PrepareBillingForSelectedModel loc newId) (\<lambda>_. billingOn rid acct) (\<lambda>_ _. True) s"
proof -
  have "rid \<noteq> []" using assms(5) by (auto simp: TrimSpace_def)
  have "wp (NewBillingSession loc newId q) (\<lambda>_ s'. \<exists>f. openOn rid acct f s') (\<lambda>_ _. True) s" for q
    unfolding NewBillingSession_def setInfo_def wp_modify_seq
    using assms tryWallet_opens [of rid acct s loc q] \<open>rid \<noteq> []\<close> by (simp add: wp_bindM wp_getsM Let_def)
  then have "wp (NewBillingSession loc newId q) (\<lambda>_. wp (modifyM (\<lambda>st. st\<lparr>rInfo := (rInfo st)\<lparr>riBilling := Some (rSession st)\<rparr>\<rparr>))
      (\<lambda>_. billingOn rid acct) (\<lambda>_ _. True)) (\<lambda>_ _. True) s" for q
    by (rule wp_mono) (auto simp: wp_modifyM intro: billingOn_session)
  then have "wp (PreConsumeBilling loc newId q) (\<lambda>_. billingOn rid acct) (\<lambda>_ _. True) s" for q
    unfolding PreConsumeBilling_def
    by (auto simp: wp_bindM wp_getsM wp_throwM wp_if wp_seqM split: option.split)
  then show ?thesis
    unfolding PrepareBillingForSelectedModel_def using assms(6,7) by (simp add: wp_bindM wp_getsM Let_def)
qed

lemma Reserve_keeps:
  assumes "openOn rid acct f s" "rid \<noteq> []"
  shows "wp (Reserve target) (\<lambda>_ s'. \<exists>f. openOn rid acct f s') (\<lambda>_ _. True) s"
proof -
  obtain wallet where s: "bsRecoveryID (rSession s) = rid" "bsPreConsumedQuota (rSession s) = f" "\<not> bsSettled (rSession s)"
    "bsFunding (rSession s) = FWallet wallet" "wfConsumed wallet = f" using assms(1) by (auto simp: openOn_def walletSession_def)
  have row: "sound rid acct (rWorld s)" "activeRow rid acct f (db (rWorld s))" using assms(1) by (simp_all add: openOn_def)
  have sound: "wp (ReserveBillingRecovery rid n x unl) (\<lambda>_. sound rid acct) (\<lambda>_. sound rid acct) (rWorld s)" for n x unl
    using sound_call [OF row(1), of "Recovery_Contract.Reserve rid n x unl"] by (simp add: wp_bindM wp_retM)
  have "wp (ReserveBillingRecovery rid n x unl) (\<lambda>a w. sound rid acct w \<and> 0 \<le> a \<and> activeRow rid acct (f + a) (db w))
      (\<lambda>_ _. True) (rWorld s)" for n x unl
    by (rule wp_mono [OF wp_conj [OF sound Reserve_active [OF row(2)]]]) simp_all
  then have reserve: "wp (liftM (ReserveBillingRecovery rid n x unl))
      (\<lambda>a s'. sound rid acct (rWorld s') \<and> 0 \<le> a \<and> activeRow rid acct (f + a) (db (rWorld s')) \<and> rSession s' = rSession s)
      (\<lambda>_ _. True) s" for n x unl
    unfolding wp_liftM by (rule wp_mono) simp_all
  have applied: "wp (if a \<le> 0 then retM ()
       else seqM (setSession (\<lambda>s. s\<lparr>bsFunding := addConsumed a (bsFunding s),
              bsPreConsumedQuota := bsPreConsumedQuota s + a, bsTokenConsumed := bsTokenConsumed s + t,
              bsExtraReserved := bsExtraReserved s + (if Source (bsFunding s) = ''subscription'' then a else 0)\<rparr>))
            syncRelayInfo) (\<lambda>_ s'. \<exists>f. openOn rid acct f s') (\<lambda>_ _. True) s'"
    if "sound rid acct (rWorld s')" "0 \<le> a" "activeRow rid acct (f + a) (db (rWorld s'))" "rSession s' = rSession s" for a s' t
  proof (cases "a \<le> 0")
    case True
    then have "openOn rid acct f s'" using that assms(1) by (simp add: openOn_def)
    then show ?thesis using True by (auto simp: wp_retM)
  next
    case False
    have "openOn rid acct (f + a) (s'\<lparr>rSession := (rSession s')\<lparr>bsFunding := addConsumed a (bsFunding (rSession s')),
              bsPreConsumedQuota := bsPreConsumedQuota (rSession s') + a, bsTokenConsumed := bsTokenConsumed (rSession s') + t,
              bsExtraReserved := bsExtraReserved (rSession s') +
                (if Source (bsFunding (rSession s')) = ''subscription'' then a else 0)\<rparr>\<rparr>)"
      using that s by (simp add: openOn_def walletSession_def addConsumed_def)
    then show ?thesis using False by (auto simp: setSession_def wp_modify_seq intro!: wp_syncRelayInfo)
  qed
  show ?thesis
    unfolding Reserve_def wp_bindM [of "getsM _"] wp_getsM Let_def s wp_if
    using assms by (auto simp: wp_retM wp_bindM intro!: wp_mono [OF reserve] applied)
qed

lemma Prepare_keeps:
  assumes "billingOn rid acct s" "rid \<noteq> []"
  shows "wp (PrepareBillingForSelectedModel loc newId) (\<lambda>_. billingOn rid acct) (\<lambda>_ _. True) s"
proof -
  obtain f b where b: "riBilling (rInfo s) = Some b" and on: "openOn rid acct f (s\<lparr>rSession := b\<rparr>)"
    using assms(1) by (auto simp: billingOn_def openOn_def)
  have reserve: "wp (onBilling b (Reserve q)) (\<lambda>_. billingOn rid acct) (\<lambda>_ _. True) s" for q
    unfolding onBilling_def setSession_def wp_modify_seq
    by (rule wp_try_then, rule wp_mono [OF Reserve_keeps [OF on assms(2)]])
      (auto simp: wp_modify_seq wp_throwM wp_retM intro: billingOn_session)
  have "wp (bindM (tryM (onBilling b (Reserve q))) (\<lambda>r. case r of
         Inl e \<Rightarrow> throwM (NewError e ErrorCodeUpdateDataError)
       | Inr _ \<Rightarrow> bindM (getsM rSession) (\<lambda>s.
           setInfo (\<lambda>i. i\<lparr>riFinalPreConsumedQuota := bsPreConsumedQuota s\<rparr>)))) (\<lambda>_. billingOn rid acct) (\<lambda>_ _. True) s" for q
    by (rule wp_try_then, rule wp_mono [OF reserve]; simp add: wp_simps setInfo_def billingOn_def)
  then show ?thesis
    unfolding PrepareBillingForSelectedModel_def wp_bindM [of "getsM _"] wp_getsM Let_def b by simp
qed

text \<open>The models a request is routed to, one after another, each with the quota to hold for it.\<close>

fun prepareAll :: "Location \<Rightarrow> string \<Rightarrow> int list \<Rightarrow> unit relayM" where
  "prepareAll loc newId [] = retM ()"
| "prepareAll loc newId (quota # quotas) =
     seqM (setInfo (\<lambda>i. i\<lparr>riQuotaToPreConsume := quota\<rparr>))
       (seqM (PrepareBillingForSelectedModel loc newId) (prepareAll loc newId quotas))"

lemma prepareAll_keeps:
  "billingOn rid acct s \<Longrightarrow> rid \<noteq> [] \<Longrightarrow> wp (prepareAll loc newId quotas) (\<lambda>_. billingOn rid acct) (\<lambda>_ _. True) s"
proof (induction quotas arbitrary: s)
  case (Cons q qs)
  have "billingOn rid acct (s\<lparr>rInfo := (rInfo s)\<lparr>riQuotaToPreConsume := q\<rparr>\<rparr>)"
    using Cons.prems(1) by (simp add: billingOn_def)
  from Prepare_keeps [OF this Cons.prems(2)] show ?case
    unfolding prepareAll.simps setInfo_def wp_seqM wp_modifyM
    by (rule wp_mono) (simp_all add: Cons)
qed (simp add: wp_retM)

lemma retrying_settles:
  assumes "onRow (\<lambda>_. True) rid acct f (actual - f) s" "\<not> bsSettled (rSession s)" "rid \<noteq> []"
  shows "wp (retrying n (Settle actual)) (\<lambda>_. onRow (\<lambda>r. brStatus r = BillingRecoveryStatusSettled) rid acct f (actual - f))
    (\<lambda>_ _. True) s"
  using assms(1,2)
proof (induction n arbitrary: s)
  case 0
  then show ?case using wp_mono [OF Settle_row [OF 0 assms(3)]] by simp
next
  case (Suc n)
  show ?case unfolding retrying.simps
    by (rule wp_try_then, rule wp_mono [OF Settle_row [OF Suc.prems assms(3)]]; unfold sum.case)
      (auto simp: wp_retM intro: Suc.IH)
qed

lemma SettleBilling_settles:
  assumes "billingOn rid acct s" "rid \<noteq> []"
  shows "wp (SettleBilling actual) (\<lambda>_ s'. \<exists>f. soundRow (\<lambda>r. brStatus r = BillingRecoveryStatusSettled) rid acct f
    (actual - f) (rWorld s')) (\<lambda>_ _. True) s"
proof -
  obtain f b where b: "riBilling (rInfo s) = Some b" "walletSession rid f b"
    and row: "sound rid acct (rWorld s)" "activeRow rid acct f (db (rWorld s))"
    using assms(1) by (auto simp: billingOn_def)
  have on: "onRow (\<lambda>_. True) rid acct f (actual - f) (s\<lparr>rSession := b\<rparr>)" "\<not> bsSettled (rSession (s\<lparr>rSession := b\<rparr>))"
    using activeRow_unsettled [OF row] b(2) by (simp_all add: onRow_def walletSession_def)
  have settle: "wp (onBilling b (retrying 2 (Settle actual))) (\<lambda>_ s'. \<exists>f. soundRow (\<lambda>r. brStatus r = BillingRecoveryStatusSettled)
      rid acct f (actual - f) (rWorld s')) (\<lambda>_ _. True) s"
    unfolding onBilling_def setSession_def wp_modify_seq
    by (rule wp_try_then, rule wp_mono [OF retrying_settles [OF on assms(2)]])
      (auto simp: wp_modify_seq wp_throwM wp_retM onRow_def)
  have "wp (recordSettlement (onBilling b (retrying 2 (Settle actual)))) (\<lambda>_ s'. \<exists>f. soundRow
      (\<lambda>r. brStatus r = BillingRecoveryStatusSettled) rid acct f (actual - f) (rWorld s')) (\<lambda>_ _. True) s"
    unfolding recordSettlement_def
    by (rule wp_try_then, rule wp_mono [OF settle]; simp add: setInfo_def wp_modify_seq wp_retM wp_throwM)
  then show ?thesis
    unfolding SettleBilling_def wp_bindM [of "getsM _"] wp_getsM Let_def b(1) by simp
qed

lemma settled_cost:
  assumes "soundRow (\<lambda>r. brStatus r = BillingRecoveryStatusSettled) rid acct f delta w"
  shows "userBal w (fst acct) = snd acct - (f + delta)"
proof -
  obtain r where r: "recoveries (db w) rid = Some r" "brSource r = ''wallet''" "brUserID r = fst acct"
      "brFundingAmount r = f" "brStatus r = BillingRecoveryStatusSettled"
    and marker: "\<And>a. adjustments (db w) (rid, BillingRecoveryComponentFunding, BillingRecoveryOperationSettle) = Some a \<Longrightarrow>
      adAmount a = delta"
    using assms by (auto simp: soundRow_def walletRow_def split: option.splits)
  have "lRec (absL w) rid = Some (core r)" using r(1) by (simp add: absL_row)
  moreover from this assms have "walletCharge (absL w) rid = f + delta"
    using settled_charge [of "absL w" rid "core r"] r marker
    by (auto simp: soundRow_def sound_def recoveryOk_def absL_adj)
  ultimately show ?thesis using assms r(3) by (auto simp: soundRow_def sound_def paid_def ownerIs_iff)
qed

text \<open>
  C3.  A wallet request costs what it used.  Once a request with a fresh id has opened its session,
  been prepared for the models it was routed to, and been settled, each with success, the balance of
  its user has fallen by exactly the quota it is settled for: whatever was held before, whether it
  was trusted, and whichever statements failed and were retried on the way.
\<close>

theorem wallet_request_costs_actual:
  assumes "recoveryOk (rWorld s)" "noLost (rWorld s)"
    and "riBilling (rInfo s) = None" "\<not> riFreeModel (rInfo s)"
    and "NormalizeBillingPreference (riBillingPreference (rInfo s)) = ''wallet_only''"
    and "TrimSpace (riRequestId (rInfo s)) \<noteq> []" "recoveries (db (rWorld s)) (riRequestId (rInfo s)) = None"
    and "prepareAll loc newId (quota # quotas) s = (Inr (), s1)" "SettleBilling actual s1 = (Inr (), s2)"
  shows "userBal (rWorld s2) (riUserId (rInfo s)) = userBal (rWorld s) (riUserId (rInfo s)) - actual"
proof -
  let ?rid = "riRequestId (rInfo s)" and ?u = "riUserId (rInfo s)"
  let ?acct = "(?u, userBal (rWorld s) ?u)" and ?s = "s\<lparr>rInfo := (rInfo s)\<lparr>riQuotaToPreConsume := quota\<rparr>\<rparr>"
  have rid: "?rid \<noteq> []" using assms(6) by (auto simp: TrimSpace_def)
  have "sound ?rid ?acct (rWorld ?s)"
    using assms(1,2,7) by (simp add: sound_def paid_def ownerIs_iff absL_row)
  then have "wp (PrepareBillingForSelectedModel loc newId) (\<lambda>_. billingOn ?rid ?acct) (\<lambda>_ _. True) ?s"
    using assms(3-7) by (intro Prepare_opens) simp_all
  then have "wp (prepareAll loc newId (quota # quotas)) (\<lambda>_. billingOn ?rid ?acct) (\<lambda>_ _. True) s"
    unfolding prepareAll.simps setInfo_def wp_seqM wp_modifyM
    by (rule wp_mono) (simp_all add: prepareAll_keeps rid)
  from SettleBilling_settles [OF wp_Inr [OF this assms(8)] rid, of actual] assms(9)
  obtain f where "soundRow (\<lambda>r. brStatus r = BillingRecoveryStatusSettled) ?rid ?acct f (actual - f) (rWorld s2)"
    by (auto dest: wp_Inr)
  from settled_cost [OF this] show ?thesis by simp
qed

section \<open>Where the session falls short\<close>


section \<open>Examples\<close>

definition sampleInfo :: RelayInfo where
  "sampleInfo = \<lparr>riRequestId = ''r1'', riUserId = 7, riTokenId = 9, riTokenKey = ''sk'', riTokenUnlimited = False,
     riIsPlayground = False, riForcePreConsume = False, riUserQuota = 0, riBillingPreference = ''wallet_only'',
     riQuotaClamp = None, riQuotaToPreConsume = 30, riFreeModel = False, riFinalPreConsumedQuota = 0,
     riBilling = None, riBillingSettlementError = None, riBillingRefundError = None, riBillingSource = [],
     riSubscriptionId = 0, riSubscriptionPreConsumed = 0, riSubscriptionPostDelta = 0, riSubscriptionPlanId = 0,
     riSubscriptionPlanTitle = [], riSubscriptionAmountTotal = 0, riSubscriptionAmountUsedAfterPreConsume = 0\<rparr>"

definition relayOn :: "world \<Rightarrow> RelayInfo \<Rightarrow> relay" where
  "relayOn w info = \<lparr>rWorld = w, rInfo = info, rSession = newSession (FWallet \<lparr>wfUserId = 0, wfConsumed = 0\<rparr>) [],
     rTokenQuota = 50\<rparr>"

definition preparedRelay :: relay where
  "preparedRelay = snd (prepareAll (fixedZone 0) ''x'' [30, 35] (relayOn sampleWorld sampleInfo))"

lemma preparedRelay_ok:
  "(fst (prepareAll (fixedZone 0) ''x'' [30, 35] (relayOn sampleWorld sampleInfo)),
    fst (SettleBilling 42 preparedRelay), userBal (rWorld preparedRelay) 7) = (Inr (), Inr (), 65)"
proof -
  have "(let (r, s) = prepareAll (fixedZone 0) ''x'' [30, 35] (relayOn sampleWorld sampleInfo) in
      (r, fst (SettleBilling 42 s), userBal (rWorld s) 7)) = (Inr (), Inr (), 65)" by code_simp
  then show ?thesis by (simp only: preparedRelay_def Let_def case_prod_beta)
qed

theorem wallet_request_costs_actual_witness:
  "userBal (rWorld preparedRelay) 7 = 65 \<and> userBal (rWorld (snd (SettleBilling 42 preparedRelay))) 7 = 100 - 42"
proof -
  let ?s = "relayOn sampleWorld sampleInfo"
  have "userBal (rWorld (snd (SettleBilling 42 preparedRelay))) (riUserId (rInfo ?s)) =
      userBal (rWorld ?s) (riUserId (rInfo ?s)) - 42"
  proof (rule wallet_request_costs_actual)
    show "prepareAll (fixedZone 0) ''x'' (30 # [35]) ?s = (Inr (), preparedRelay)"
      "SettleBilling 42 preparedRelay = (Inr (), snd (SettleBilling 42 preparedRelay))"
      using preparedRelay_ok by (simp_all only: prod_eq_iff preparedRelay_def fst_conv snd_conv)
    show "NormalizeBillingPreference (riBillingPreference (rInfo ?s)) = ''wallet_only''"
      "TrimSpace (riRequestId (rInfo ?s)) \<noteq> []" "recoveries (db (rWorld ?s)) (riRequestId (rInfo ?s)) = None" by code_simp+
  qed (use sampleWorld_ok(1) in \<open>simp_all add: relayOn_def sampleInfo_def\<close>)
  moreover have "userBal sampleWorld 7 = 100" by code_simp
  moreover have "userBal (rWorld preparedRelay) 7 = 65" using preparedRelay_ok by (simp only: prod.inject)
  ultimately show ?thesis by (simp add: relayOn_def sampleInfo_def)
qed

definition playgroundRelay :: relay where
  "playgroundRelay = snd (PrepareBillingForSelectedModel (fixedZone 0) ''x''
     (relayOn sampleWorld (sampleInfo\<lparr>riIsPlayground := True\<rparr>)))"



text \<open>
  When the row cannot be marked for refund, \<open>Refund\<close> nevertheless records the funding as refunded:
  a later \<open>Refund\<close> returns the token quota and skips the wallet.
\<close>

definition failingRelay :: relay where
  "failingRelay = (let s = snd (PrepareBillingForSelectedModel (fixedZone 0) ''x'' (relayOn sampleWorld sampleInfo)) in
     s\<lparr>rWorld := (rWorld s)\<lparr>dbFate := (\<lambda>_. FFail)\<rparr>\<rparr>)"

lemma failed_mark_skips_the_wallet:
  "let s1 = snd (Refund failingRelay); s2 = snd (Refund (s1\<lparr>rWorld := (rWorld s1)\<lparr>dbFate := (\<lambda>_. FOk)\<rparr>\<rparr>)) in
   bsFundingRefunded (rSession s1) \<and> userBal (rWorld s1) 7 = 70 \<and>
   bsRefunded (rSession s2) \<and> userBal (rWorld s2) 7 = 70 \<and> tokenBal (rWorld s2) 9 = 50"
  by code_simp

end
